theory Spec2Isabelle
  imports Main "HOL-Library.AList" "HOL-Library.Char_ord" "HOL-Library.List_Lexorder"
begin

section \<open>Strings and errors\<close>

text \<open>
  The generator works on JavaScript strings and throws string messages. Strings are
  modelled as \<^typ>\<open>string\<close>; all texts are taken to be ASCII, so that case mapping and the
  character class \<^verbatim>\<open>\w\<close> only concern ASCII letters, digits and the underscore.
  Every \<^verbatim>\<open>throw\<close> of the source is a constructor of \<open>error\<close>; \<open>message\<close> gives
  the thrown text. A result is \<open>error + 'a\<close>, with \<open>Inl\<close> for the thrown error.
\<close>

definition is_upper :: "char \<Rightarrow> bool" where
  "is_upper c = (CHR ''A'' \<le> c \<and> c \<le> CHR ''Z'')"

definition is_lower :: "char \<Rightarrow> bool" where
  "is_lower c = (CHR ''a'' \<le> c \<and> c \<le> CHR ''z'')"

definition is_digit :: "char \<Rightarrow> bool" where
  "is_digit c = (CHR ''0'' \<le> c \<and> c \<le> CHR ''9'')"

text \<open>The regular-expression class \<^verbatim>\<open>\w\<close>, and the pattern \<^verbatim>\<open>/^\w+$/\<close>.\<close>

definition is_word_char :: "char \<Rightarrow> bool" where
  "is_word_char c = (is_upper c \<or> is_lower c \<or> is_digit c \<or> c = CHR ''_'')"

definition is_word :: "string \<Rightarrow> bool" where
  "is_word s = (s \<noteq> [] \<and> list_all is_word_char s)"

definition toLowerCase_char :: "char \<Rightarrow> char" where
  "toLowerCase_char c = (if is_upper c then char_of (of_char c + (32::nat)) else c)"

definition toUpperCase_char :: "char \<Rightarrow> char" where
  "toUpperCase_char c = (if is_lower c then char_of (of_char c - (32::nat)) else c)"

definition toLowerCase :: "string \<Rightarrow> string" where
  "toLowerCase s = map toLowerCase_char s"

definition toUpperCase :: "string \<Rightarrow> string" where
  "toUpperCase s = map toUpperCase_char s"

text \<open>\<^verbatim>\<open>Array.prototype.join\<close> with an explicit separator.\<close>

fun join :: "string \<Rightarrow> string list \<Rightarrow> string" where
  "join sep [] = []"
| "join sep [x] = x"
| "join sep (x # y # ys) = x @ sep @ join sep (y # ys)"

text \<open>Decimal rendering of a number in a template literal.\<close>

fun show_nat :: "nat \<Rightarrow> string" where
  "show_nat n = (if n < 10 then [char_of (48 + n)] else show_nat (n div 10) @ [char_of (48 + n mod 10)])"

declare show_nat.simps [simp del]

definition show_int :: "int \<Rightarrow> string" where
  "show_int i = (if i < 0 then CHR ''-'' # show_nat (nat (- i)) else show_nat (nat i))"

definition squote :: "string \<Rightarrow> string" where
  "squote s = [CHR 0x27] @ s @ [CHR 0x27]"

definition dquote :: "string \<Rightarrow> string" where
  "dquote s = [CHR 0x22] @ s @ [CHR 0x22]"

datatype error =
    TypeError string
  | DefaultImportAlreadySpecified
  | UnexpectedProperties string string "string list"
  | ExpectedRefForm string
  | UnexpectedReferenceParameter string
  | UnexpectedMinLength0 string
  | UnexpectedMaxLength0 string
  | UnexpectedMinLengthOfUUID string
  | UnexpectedMaxLengthOfUUID string
  | UnexpectedStringFormat string string
  | ExpectedAdditionalPropertiesSchema string bool
  | ExpectedAdditionalProperties string
  | UnexpectedMapParameter string
  | ExpectedItems string
  | UnexpectedType string string
  | ExpectedOneTag string string string
  | ExpectedOperationId string string
  | ExpectedOperationIdPrefix string string string
  | UnexpectedReferenceInRequestBody string
  | BodyNotRequired string
  | UnexpectedReferenceInParameter string
  | ParamsShouldOnlyBePathOrQuery string string
  | ExpectedSchemaInParameter string string
  | Expected200Response string
  | UnexpectedResponses
  | UnexpectedReferenceInResponse string
  | UnexpectedPropertiesOfOperation string "(string \<times> string) list"

fun message :: "error \<Rightarrow> string" where
  "message (TypeError m) = m"
| "message DefaultImportAlreadySpecified = ''Default import already specified''"
| "message (UnexpectedProperties kind context props) =
     ''Unexpected properties of '' @ kind @ '' '' @ squote context @ '': '' @ join '','' props"
| "message (ExpectedRefForm r) =
     ''Expected ref to be of form /^#'' @ [CHR 0x5C] @ ''/components'' @ [CHR 0x5C] @ ''/schemas''
       @ [CHR 0x5C] @ ''/('' @ [CHR 0x5C] @ ''w+)$/, but found: '' @ r"
| "message (UnexpectedReferenceParameter context) =
     ''Unexpected reference parameter '' @ squote context"
| "message (UnexpectedMinLength0 context) = ''Unexpected minLength of 0 in '' @ squote context"
| "message (UnexpectedMaxLength0 context) = ''Unexpected maxLength of 0 in '' @ squote context"
| "message (UnexpectedMinLengthOfUUID context) = ''Unexpected minLength of UUID '' @ squote context"
| "message (UnexpectedMaxLengthOfUUID context) = ''Unexpected maxLength of UUID '' @ squote context"
| "message (UnexpectedStringFormat fmt context) =
     ''Unexpected string format '' @ squote fmt @ '' of '' @ squote context"
| "message (ExpectedAdditionalPropertiesSchema context b) =
     ''Expected '' @ squote ''additionalProperties'' @ '' inside '' @ squote context
       @ '' to be a schema or reference, but found: '' @ (if b then ''true'' else ''false'')"
| "message (ExpectedAdditionalProperties context) =
     ''Expected '' @ squote ''additionalProperties'' @ '' inside '' @ squote context"
| "message (UnexpectedMapParameter context) = ''Unexpected map parameter '' @ squote context"
| "message (ExpectedItems context) = ''Expected '' @ squote ''items'' @ '' inside '' @ squote context"
| "message (UnexpectedType ty context) = ''Unexpected type '' @ squote ty @ '' of '' @ squote context"
| "message (ExpectedOneTag method urlString tags) =
     ''Expected 1 tag for '' @ method @ '' '' @ urlString @ '', but found: '' @ tags"
| "message (ExpectedOperationId method urlString) =
     ''Expected operation ID for '' @ method @ '' '' @ urlString"
| "message (ExpectedOperationIdPrefix method urlString tag) =
     ''Expected operation ID for '' @ method @ '' '' @ urlString @ '' to start with ''
       @ dquote (tag @ ''.'')"
| "message (UnexpectedReferenceInRequestBody opId) = ''Unexpected reference in request body '' @ opId"
| "message (BodyNotRequired opId) = ''Body is not required for operation '' @ opId"
| "message (UnexpectedReferenceInParameter opId) = ''Unexpected reference in parameter of '' @ opId"
| "message (ParamsShouldOnlyBePathOrQuery paramName opId) =
     ''Params should only be path or query: '' @ paramName @ '' of '' @ opId"
| "message (ExpectedSchemaInParameter paramName opId) =
     ''Expected schema inside of parameter '' @ paramName @ '' of '' @ opId"
| "message (Expected200Response opId) = ''Expected 200 response of operation '' @ opId"
| "message UnexpectedResponses = ''Unexpected responses of operation''"
| "message (UnexpectedReferenceInResponse opId) = ''Unexpected reference in response of '' @ opId"
| "message (UnexpectedPropertiesOfOperation opId props) =
     ''Unexpected properties of operation '' @ opId @ '': {''
       @ join '','' (map (\<lambda>(k, v). dquote k @ '':'' @ v) props) @ ''}''"

definition bindE :: "'e + 'a \<Rightarrow> ('a \<Rightarrow> 'e + 'b) \<Rightarrow> 'e + 'b" where
  "bindE m f = (case m of Inl e \<Rightarrow> Inl e | Inr x \<Rightarrow> f x)"

section \<open>Import Set\<close>

text \<open>
  Class \<^verbatim>\<open>Imports\<close>: a table from module path to an optional default alias and a set of
  named symbols, kept in insertion order as JavaScript objects and sets do, and the folder
  of the file that owns the table (\<open>None\<close> is the root, \<^verbatim>\<open>undefined\<close>).
\<close>

datatype ImportFolder = Api | Client | Model

fun folder_name :: "ImportFolder \<Rightarrow> string" where
  "folder_name Api = ''api''"
| "folder_name Client = ''client''"
| "folder_name Model = ''model''"

record import_entry =
  def :: "string option"
  named :: "string list"

record Imports =
  imports_map :: "(string \<times> import_entry) list"
  folder :: "ImportFolder option"

definition new_Imports :: "ImportFolder option \<Rightarrow> Imports" where
  "new_Imports f = \<lparr>imports_map = [], folder = f\<rparr>"

text \<open>\<^verbatim>\<open>Set.prototype.add\<close>: a set keeps its first insertion of a value.\<close>

definition set_add :: "string list \<Rightarrow> string \<Rightarrow> string list" where
  "set_add xs x = (if x \<in> set xs then xs else xs @ [x])"

text \<open>
  \<^verbatim>\<open>addGlobal(file, name, def?)\<close>. The entry of \<open>file\<close> is created when absent; a named
  import joins the set; a default import is stored unless a different, non-empty one is
  there already, which throws.
\<close>

definition addGlobal :: "Imports \<Rightarrow> string \<Rightarrow> string \<Rightarrow> bool \<Rightarrow> error + Imports" where
  "addGlobal s file name d =
     (let i = (case map_of (imports_map s) file of
                 Some i \<Rightarrow> i
               | None \<Rightarrow> \<lparr>def = None, named = []\<rparr>)
      in if \<not> d then
           Inr (s\<lparr>imports_map := AList.update file (i\<lparr>named := set_add (named i) name\<rparr>) (imports_map s)\<rparr>)
         else if def i \<noteq> None \<and> def i \<noteq> Some [] then
           (if def i \<noteq> Some name then Inl DefaultImportAlreadySpecified
            else Inr (s\<lparr>imports_map := AList.update file i (imports_map s)\<rparr>))
         else
           Inr (s\<lparr>imports_map := AList.update file (i\<lparr>def := Some name\<rparr>) (imports_map s)\<rparr>))"

text \<open>\<^verbatim>\<open>addLocal(folder, file, name, def?)\<close>: the relative prefix, then \<open>addGlobal\<close>.\<close>

definition relative :: "ImportFolder option \<Rightarrow> ImportFolder option \<Rightarrow> string" where
  "relative target own =
     (if target = own then ''.''
      else case target of
             None \<Rightarrow> ''..''
           | Some t \<Rightarrow> (case own of
                         None \<Rightarrow> ''./'' @ folder_name t
                       | Some _ \<Rightarrow> ''../'' @ folder_name t))"

definition addLocal :: "Imports \<Rightarrow> ImportFolder option \<Rightarrow> string \<Rightarrow> string \<Rightarrow> bool \<Rightarrow> error + Imports" where
  "addLocal s target file name d = addGlobal s (relative target (folder s) @ ''/'' @ file) name d"

definition addValidate :: "Imports \<Rightarrow> string \<Rightarrow> error + Imports" where
  "addValidate s name = addLocal s None ''type-utils'' name False"

subsection \<open>Rendering\<close>

text \<open>
  \<^verbatim>\<open>JSON.stringify\<close> of a string: the text between double quotes, with the quote, the
  backslash and the control characters escaped.
\<close>

definition hex_digit :: "nat \<Rightarrow> char" where
  "hex_digit n = (if n < 10 then char_of (48 + n) else char_of (87 + n))"

definition json_escape :: "char \<Rightarrow> string" where
  "json_escape c =
     (if c = CHR 0x22 then [CHR 0x5C, CHR 0x22]
      else if c = CHR 0x5C then [CHR 0x5C, CHR 0x5C]
      else if c = CHR 0x08 then [CHR 0x5C, CHR ''b'']
      else if c = CHR 0x0C then [CHR 0x5C, CHR ''f'']
      else if c = CHR 0x0A then [CHR 0x5C, CHR ''n'']
      else if c = CHR 0x0D then [CHR 0x5C, CHR ''r'']
      else if c = CHR 0x09 then [CHR 0x5C, CHR ''t'']
      else if (of_char c :: nat) < 32 then
        [CHR 0x5C, CHR ''u'', CHR ''0'', CHR ''0'',
         hex_digit ((of_char c :: nat) div 16), hex_digit ((of_char c :: nat) mod 16)]
      else [c])"

definition JSON_stringify :: "string \<Rightarrow> string" where
  "JSON_stringify s = dquote (concat (map json_escape s))"

text \<open>
  \<^verbatim>\<open>Array.prototype.sort\<close> with a comparison function \<open>cmp\<close>: \<open>a\<close> stays before \<open>b\<close>
  when \<open>cmp a b \<le> 0\<close>. The sort is stable; it is computed here by insertion.
\<close>

fun insort_by :: "('a \<Rightarrow> 'a \<Rightarrow> int) \<Rightarrow> 'a \<Rightarrow> 'a list \<Rightarrow> 'a list" where
  "insort_by cmp x [] = [x]"
| "insort_by cmp x (y # ys) = (if cmp x y \<le> 0 then x # y # ys else y # insort_by cmp x ys)"

definition sort_by :: "('a \<Rightarrow> 'a \<Rightarrow> int) \<Rightarrow> 'a list \<Rightarrow> 'a list" where
  "sort_by cmp xs = foldr (insort_by cmp) xs []"

text \<open>
  \<^verbatim>\<open>Imports.toString()\<close>. The comparison \<^verbatim>\<open>String.prototype.localeCompare\<close> belongs to
  the platform; it is the parameter \<open>lc\<close>. The method reads the table and writes nothing to
  it (both sorts work on fresh arrays), so the model returns the text only.
  \<open>statements\<close> is the sequence the loop walks: the entries sorted by module path, each
  with its named symbols sorted; \<open>import_statement\<close> is the text of one iteration.
\<close>

definition statements ::
  "(string \<Rightarrow> string \<Rightarrow> int) \<Rightarrow> Imports \<Rightarrow> (string \<times> string option \<times> string list) list" where
  "statements lc s =
     map (\<lambda>(file, e). (file, def e, sort_by lc (named e)))
       (sort_by (\<lambda>a b. lc (fst a) (fst b)) (imports_map s))"

definition import_statement :: "string \<times> string option \<times> string list \<Rightarrow> string" where
  "import_statement st =
     (case st of (file, d, ns) \<Rightarrow>
        ''import { ''
        @ (if d \<noteq> None \<and> d \<noteq> Some [] then
             ''default as '' @ the d @ (if ns \<noteq> [] then '', '' else [])
           else [])
        @ join '', '' ns
        @ '' } from '' @ JSON_stringify file @ '';'')"

definition toString :: "(string \<Rightarrow> string \<Rightarrow> int) \<Rightarrow> Imports \<Rightarrow> string" where
  "toString lc s =
     [CHR 0x0A, CHR 0x0A] @ concat (map import_statement (statements lc s)) @ [CHR 0x0A, CHR 0x0A]"

text \<open>
  The state invariant of the table (one entry per module path, no symbol twice in a set),
  and what a table holds regardless of the order of insertion.
\<close>

definition wf_Imports :: "Imports \<Rightarrow> bool" where
  "wf_Imports s =
     (distinct (map fst (imports_map s)) \<and> list_all (\<lambda>(file, e). distinct (named e)) (imports_map s))"

definition contents :: "Imports \<Rightarrow> (string \<times> string option \<times> string set) set" where
  "contents s = (\<lambda>(file, e). (file, def e, set (named e))) ` set (imports_map s)"

text \<open>A comparison of strings by code units, one possible instance of the platform's.\<close>

definition codeUnitCompare :: "string \<Rightarrow> string \<Rightarrow> int" where
  "codeUnitCompare a b = (if a < b then - 1 else if a = b then 0 else 1)"

text \<open>What is assumed of the platform's comparison: it is a linear order.\<close>

definition linear_compare :: "('a \<Rightarrow> 'a \<Rightarrow> int) \<Rightarrow> bool" where
  "linear_compare cmp =
     ((\<forall>a b. cmp a b \<le> 0 \<or> cmp b a \<le> 0) \<and>
      (\<forall>a b c. cmp a b \<le> 0 \<longrightarrow> cmp b c \<le> 0 \<longrightarrow> cmp a c \<le> 0) \<and>
      (\<forall>a b. cmp a b \<le> 0 \<longrightarrow> cmp b a \<le> 0 \<longrightarrow> a = b))"

section \<open>Identifier\<close>

text \<open>
  Class \<^verbatim>\<open>Identifier\<close>: the casings of a name. \<^verbatim>\<open>capitalize\<close> is imported from
  \<^verbatim>\<open>./string-utils\<close>, written in an earlier revision of the generator as
  \<^verbatim>\<open>`${s[0].toUpperCase()}${s.substring(1)}`\<close>; on the empty string \<^verbatim>\<open>s[0]\<close> is
  undefined and the call throws a \<^verbatim>\<open>TypeError\<close>.
\<close>

record Identifier =
  lowerCamel :: string
  upperCamel :: string
  display :: string
  kebab :: string

fun capitalize :: "string \<Rightarrow> error + string" where
  "capitalize [] = Inl (TypeError ''Cannot read properties of undefined'')"
| "capitalize (c # cs) = Inr (toUpperCase [c] @ cs)"

text \<open>The constructor's \<^verbatim>\<open>words.forEach((word, i) => ...)\<close>, with the four accumulators.\<close>

fun identifier_loop :: "string list \<Rightarrow> nat \<Rightarrow> Identifier \<Rightarrow> error + Identifier" where
  "identifier_loop [] i acc = Inr acc"
| "identifier_loop (word # words) i acc =
     (let lower = toLowerCase word in
      bindE (capitalize lower) (\<lambda>capital.
        identifier_loop words (i + 1)
          (if i > 0 then
             \<lparr>lowerCamel = lowerCamel acc @ capital,
              upperCamel = upperCamel acc @ capital,
              display = display acc @ '' '' @ word,
              kebab = kebab acc @ ''-'' @ lower\<rparr>
           else
             \<lparr>lowerCamel = lowerCamel acc @ lower,
              upperCamel = upperCamel acc @ capital,
              display = display acc @ word,
              kebab = kebab acc @ lower\<rparr>)))"

definition new_Identifier :: "string list \<Rightarrow> error + Identifier" where
  "new_Identifier words =
     identifier_loop words 0 \<lparr>lowerCamel = [], upperCamel = [], display = [], kebab = []\<rparr>"

text \<open>\<^verbatim>\<open>String.prototype.trim\<close> and the class \<^verbatim>\<open>\s\<close>, on ASCII.\<close>

definition is_space :: "char \<Rightarrow> bool" where
  "is_space c = (c = CHR 0x20 \<or> c = CHR 0x09 \<or> c = CHR 0x0A \<or> c = CHR 0x0B \<or> c = CHR 0x0C \<or> c = CHR 0x0D)"

definition trim :: "string \<Rightarrow> string" where
  "trim s = rev (dropWhile is_space (rev (dropWhile is_space s)))"

text \<open>
  \<^verbatim>\<open>split(/(?<=[^A-Z])(?=[A-Z])/)\<close>: a cut wherever a character outside \<^verbatim>\<open>A-Z\<close> is
  followed by one inside. The empty string splits into one empty word.
\<close>

fun split_camel :: "string \<Rightarrow> string list" where
  "split_camel [] = [[]]"
| "split_camel [c] = [[c]]"
| "split_camel (c # d # cs) =
     (if \<not> is_upper c \<and> is_upper d then [c] # split_camel (d # cs)
      else case split_camel (d # cs) of
             w # ws \<Rightarrow> (c # w) # ws
           | [] \<Rightarrow> [[c]])"

text \<open>\<^verbatim>\<open>split(/\s+/)\<close>: a cut at every maximal run of white space.\<close>

function split_spaces :: "string \<Rightarrow> string list" where
  "split_spaces [] = [[]]"
| "split_spaces (c # cs) =
     (if is_space c then [] # split_spaces (dropWhile is_space cs)
      else case split_spaces cs of
             w # ws \<Rightarrow> (c # w) # ws
           | [] \<Rightarrow> [[c]])"
  by pat_completeness auto
termination
  by (relation "measure length") (auto simp: length_dropWhile_le less_Suc_eq_le)

definition fromCamel :: "string \<Rightarrow> error + Identifier" where
  "fromCamel s = new_Identifier (split_camel (trim s))"

definition fromWords :: "string \<Rightarrow> error + Identifier" where
  "fromWords s = new_Identifier (split_spaces (trim s))"

section \<open>Runtime Type Resolver\<close>

text \<open>
  A schema node: an \<^verbatim>\<open>OpenAPISchema | OpenAPIReference\<close> object. The resolver reads the
  keys \<^verbatim>\<open>$ref\<close>, \<^verbatim>\<open>oneOf\<close>, \<^verbatim>\<open>type\<close>, \<^verbatim>\<open>format\<close>, \<^verbatim>\<open>minLength\<close>,
  \<^verbatim>\<open>maxLength\<close>, \<^verbatim>\<open>additionalProperties\<close> and \<^verbatim>\<open>items\<close>, each an optional field of its
  declared type (\<open>None\<close> when the key is absent); of every other key it only reads the name
  (\<open>otherProps\<close>). \<open>schema_keys\<close> is \<^verbatim>\<open>Object.keys(schema)\<close>; the fields come in the
  order of the datatype, not in the order of the document, which only shows in the list of
  names an \<open>UnexpectedProperties\<close> error carries.
\<close>

datatype schema = Schema
  (ref: "string option")
  (oneOf: "schema list option")
  (type: "string option")
  (format: "string option")
  (minLength: "int option")
  (maxLength: "int option")
  (additionalProperties: "(bool + schema) option")
  (items: "schema option")
  (description: "string option")
  (otherProps: "string list")

definition key_if :: "'a option \<Rightarrow> string \<Rightarrow> string list" where
  "key_if v k = (case v of None \<Rightarrow> [] | Some _ \<Rightarrow> [k])"

definition schema_keys :: "schema \<Rightarrow> string list" where
  "schema_keys s =
     key_if (ref s) ''$ref'' @ key_if (oneOf s) ''oneOf'' @ key_if (type s) ''type''
     @ key_if (format s) ''format'' @ key_if (minLength s) ''minLength''
     @ key_if (maxLength s) ''maxLength'' @ key_if (additionalProperties s) ''additionalProperties''
     @ key_if (items s) ''items'' @ key_if (description s) ''description'' @ otherProps s"

text \<open>The set \<^verbatim>\<open>props\<close> after the keys \<open>ks\<close> have been deleted from it.\<close>

definition props_without :: "string list \<Rightarrow> schema \<Rightarrow> string list" where
  "props_without ks s = filter (\<lambda>k. k \<notin> set ks) (schema_keys s)"

text \<open>
  A \<^verbatim>\<open>RuntimeType\<close>. Its three methods are closures over the shared \<^verbatim>\<open>imports\<close> object:
  called, they register imports and return source text, or throw. A closure is a function
  from the table as it is at the call to the text and the table as it is left.
\<close>

type_synonym codegen = "Imports \<Rightarrow> error + (string \<times> Imports)"

record RuntimeType =
  typeName :: string
  fromJson :: codegen
  fromJsonParam :: codegen
  toJson :: codegen

text \<open>The closure \<^verbatim>\<open>() => { imports.addValidate(name); return name; }\<close>.\<close>

definition validate_gen :: "string \<Rightarrow> codegen" where
  "validate_gen name imp = bindE (addValidate imp name) (\<lambda>imp1. Inr (name, imp1))"

definition BOOLEAN :: "Imports \<Rightarrow> error + (RuntimeType \<times> Imports)" where
  "BOOLEAN imp =
     Inr (\<lparr>typeName = ''boolean'',
           fromJson = validate_gen ''testBoolean'',
           fromJsonParam = validate_gen ''testBooleanString'',
           toJson = validate_gen ''testBoolean''\<rparr>, imp)"

definition NUMBER :: "Imports \<Rightarrow> error + (RuntimeType \<times> Imports)" where
  "NUMBER imp =
     Inr (\<lparr>typeName = ''number'',
           fromJson = validate_gen ''testNumber'',
           fromJsonParam = validate_gen ''testNumberString'',
           toJson = validate_gen ''testNumber''\<rparr>, imp)"

definition INTEGER :: "Imports \<Rightarrow> error + (RuntimeType \<times> Imports)" where
  "INTEGER imp =
     Inr (\<lparr>typeName = ''number'',
           fromJson = validate_gen ''testInteger'',
           fromJsonParam = validate_gen ''testIntegerString'',
           toJson = validate_gen ''testInteger''\<rparr>, imp)"

definition BIG_NUMBER :: "Imports \<Rightarrow> error + (RuntimeType \<times> Imports)" where
  "BIG_NUMBER imp =
     bindE (addGlobal imp ''bignumber.js'' ''BigNumber'' True) (\<lambda>imp1.
       Inr (\<lparr>typeName = ''BigNumber'',
             fromJson = validate_gen ''testBigNumber'',
             fromJsonParam = validate_gen ''testBigNumberString'',
             toJson = validate_gen ''testBigNumber''\<rparr>, imp1))"

definition BIG_INTEGER :: "Imports \<Rightarrow> error + (RuntimeType \<times> Imports)" where
  "BIG_INTEGER imp =
     bindE (addGlobal imp ''bignumber.js'' ''BigNumber'' True) (\<lambda>imp1.
       Inr (\<lparr>typeName = ''BigNumber'',
             fromJson = validate_gen ''testBigInteger'',
             fromJsonParam = validate_gen ''testBigIntegerString'',
             toJson = validate_gen ''testBigInteger''\<rparr>, imp1))"

definition date_toJson :: "string \<Rightarrow> codegen" where
  "date_toJson text imp =
     bindE (addValidate imp ''and'') (\<lambda>imp1.
     bindE (addValidate imp1 ''success'') (\<lambda>imp2.
     bindE (addValidate imp2 ''testType'') (\<lambda>imp3.
       Inr (text, imp3))))"

definition DATE :: "Imports \<Rightarrow> error + (RuntimeType \<times> Imports)" where
  "DATE imp =
     bindE (addGlobal imp ''luxon'' ''DateTime'' False) (\<lambda>imp1.
       Inr (\<lparr>typeName = ''DateTime'',
             fromJson = validate_gen ''testDateString'',
             fromJsonParam = validate_gen ''testDateString'',
             toJson = date_toJson ''and(testType(DateTime), (dt) => success(dt.toUTC().toISODate()))''\<rparr>,
            imp1))"

definition DATE_TIME :: "Imports \<Rightarrow> error + (RuntimeType \<times> Imports)" where
  "DATE_TIME imp =
     bindE (addGlobal imp ''luxon'' ''DateTime'' False) (\<lambda>imp1.
       Inr (\<lparr>typeName = ''DateTime'',
             fromJson = validate_gen ''testDateTimeString'',
             fromJsonParam = validate_gen ''testDateTimeString'',
             toJson = date_toJson ''and(testType(DateTime), (dt) => success(dt.toUTC().toISO()))''\<rparr>,
            imp1))"

subsection \<open>References\<close>

text \<open>\<^verbatim>\<open>/^#\/components\/schemas\/(\w+)$/.exec(schema.$ref)\<close>: the captured name, if any.\<close>

definition match_ref :: "string \<Rightarrow> string option" where
  "match_ref r =
     (let p = ''#/components/schemas/'' in
      if take (length p) r = p \<and> is_word (drop (length p) r) then Some (drop (length p) r)
      else None)"

definition enum_gen :: "Identifier \<Rightarrow> codegen" where
  "enum_gen ident imp =
     bindE (addValidate imp ''testOneOf'') (\<lambda>imp1.
     bindE (addLocal imp1 (Some Model) (kebab ident) (''values'' @ upperCamel ident) False) (\<lambda>imp2.
       Inr (''testOneOf(values'' @ upperCamel ident @ '')'', imp2)))"

definition model_gen :: "string \<Rightarrow> Identifier \<Rightarrow> codegen" where
  "model_gen prefix ident imp =
     (let method = prefix @ upperCamel ident in
      bindE (addLocal imp (Some Model) (kebab ident) method False) (\<lambda>imp1. Inr (method, imp1)))"

text \<open>
  The branch \<^verbatim>\<open>if (isReference(schema))\<close>. \<open>enumTypes\<close> is the module's array of that
  name, filled by the main program before any file is written.
\<close>

definition reference_type ::
  "string list \<Rightarrow> schema \<Rightarrow> Imports \<Rightarrow> string \<Rightarrow> error + (RuntimeType \<times> Imports)" where
  "reference_type enumTypes s imp context =
     (if props_without [''$ref''] s \<noteq> [] then
        Inl (UnexpectedProperties ''schema reference'' context (props_without [''$ref''] s))
      else case match_ref (the (ref s)) of
        None \<Rightarrow> Inl (ExpectedRefForm (the (ref s)))
      | Some name \<Rightarrow>
          bindE (fromCamel name) (\<lambda>ident.
          bindE (addLocal imp (Some Model) (kebab ident) (upperCamel ident) False) (\<lambda>imp1.
            if upperCamel ident \<in> set enumTypes then
              Inr (\<lparr>typeName = upperCamel ident,
                    fromJson = enum_gen ident,
                    fromJsonParam = enum_gen ident,
                    toJson = enum_gen ident\<rparr>, imp1)
            else
              Inr (\<lparr>typeName = upperCamel ident,
                    fromJson = model_gen ''test'' ident,
                    fromJsonParam = (\<lambda>imp. Inl (UnexpectedReferenceParameter context)),
                    toJson = model_gen ''print'' ident\<rparr>, imp1))))"

subsection \<open>Unions\<close>

text \<open>Calling the closures of the branches in order, each on the table the last one left.\<close>

fun seq_gen :: "codegen list \<Rightarrow> Imports \<Rightarrow> error + (string list \<times> Imports)" where
  "seq_gen [] imp = Inr ([], imp)"
| "seq_gen (g # gs) imp =
     bindE (g imp) (\<lambda>(t, imp1).
     bindE (seq_gen gs imp1) (\<lambda>(ts, imp2). Inr (t # ts, imp2)))"

definition or_gen :: "codegen list \<Rightarrow> codegen" where
  "or_gen gs imp =
     bindE (addValidate imp ''or'') (\<lambda>imp1.
     bindE (seq_gen gs imp1) (\<lambda>(ts, imp2). Inr (''or('' @ join '', '' ts @ '')'', imp2)))"

definition oneOf_type :: "RuntimeType list \<Rightarrow> RuntimeType" where
  "oneOf_type inner =
     \<lparr>typeName = join '' | '' (map typeName inner),
      fromJson = or_gen (map fromJson inner),
      fromJsonParam = or_gen (map fromJsonParam inner),
      toJson = or_gen (map toJson inner)\<rparr>"

subsection \<open>Strings\<close>

definition show_length :: "int option \<Rightarrow> string" where
  "show_length v = (case v of None \<Rightarrow> ''undefined'' | Some n \<Rightarrow> show_int n)"

text \<open>A number or \<^verbatim>\<open>undefined\<close> in a condition: true when defined and not zero.\<close>

definition truthy :: "int option \<Rightarrow> bool" where
  "truthy v = (v \<noteq> None \<and> v \<noteq> Some 0)"

text \<open>The closure \<^verbatim>\<open>fromJson\<close> of the string branch, which holds all its checks.\<close>

definition string_gen :: "string \<Rightarrow> string option \<Rightarrow> int option \<Rightarrow> int option \<Rightarrow> codegen" where
  "string_gen context fmt minLen maxLen imp =
     (if minLen = Some 0 then Inl (UnexpectedMinLength0 context)
      else if maxLen = Some 0 then Inl (UnexpectedMaxLength0 context)
      else
        bindE (if truthy minLen \<or> truthy maxLen then
                 bindE (addValidate imp ''testStringLength'') (\<lambda>imp1.
                   Inr ([''testStringLength('' @ show_length minLen @ '', '' @ show_length maxLen @ '')''], imp1))
               else Inr ([], imp)) (\<lambda>(options1, imp1).
        bindE (if fmt = Some ''email'' then
                 bindE (addValidate imp1 ''testEmail'') (\<lambda>imp2. Inr (options1 @ [''testEmail''], imp2))
               else if fmt = Some ''uuid'' then
                 (if truthy minLen then Inl (UnexpectedMinLengthOfUUID context)
                  else if truthy maxLen then Inl (UnexpectedMaxLengthOfUUID context)
                  else bindE (addValidate imp1 ''testUuid'') (\<lambda>imp2. Inr (options1 @ [''testUuid''], imp2)))
               else Inr (options1, imp1)) (\<lambda>(options, imp2).
        bindE (addValidate imp2 ''testString'') (\<lambda>imp3.
          if options = [] then Inr (''testString'', imp3)
          else bindE (addValidate imp3 ''and'') (\<lambda>imp4.
                 Inr (''and(testString,'' @ join '','' options @ '')'', imp4))))))"

definition string_type :: "schema \<Rightarrow> Imports \<Rightarrow> string \<Rightarrow> error + (RuntimeType \<times> Imports)" where
  "string_type s imp context =
     (if format s = None \<or> format s = Some ''email'' \<or> format s = Some ''password''
         \<or> format s = Some ''uuid'' then
        (let props = props_without [''description'', ''type'', ''format'', ''minLength'', ''maxLength''] s in
         if props \<noteq> [] then Inl (UnexpectedProperties ''string schema'' context props)
         else
           Inr (\<lparr>typeName = ''string'',
                 fromJson = string_gen context (format s) (minLength s) (maxLength s),
                 fromJsonParam = string_gen context (format s) (minLength s) (maxLength s),
                 toJson = string_gen context (format s) (minLength s) (maxLength s)\<rparr>, imp))
      else
        (let props = props_without [''description'', ''type'', ''format''] s in
         if format s = Some ''date'' then
           (if props \<noteq> [] then Inl (UnexpectedProperties ''date schema'' context props)
            else DATE imp)
         else if format s = Some ''date-time'' then
           (if props \<noteq> [] then Inl (UnexpectedProperties ''date-time schema'' context props)
            else DATE_TIME imp)
         else Inl (UnexpectedStringFormat (the (format s)) context)))"

subsection \<open>Booleans and numbers\<close>

definition boolean_type :: "schema \<Rightarrow> Imports \<Rightarrow> string \<Rightarrow> error + (RuntimeType \<times> Imports)" where
  "boolean_type s imp context =
     (let props = props_without [''description'', ''type''] s in
      if props \<noteq> [] then Inl (UnexpectedProperties ''boolean schema'' context props)
      else BOOLEAN imp)"

definition number_type :: "schema \<Rightarrow> Imports \<Rightarrow> string \<Rightarrow> error + (RuntimeType \<times> Imports)" where
  "number_type s imp context =
     (let ty = the (type s);
          big = (format s = Some ''big'');
          generator = (if big then (if ty = ''integer'' then BIG_INTEGER else BIG_NUMBER)
                       else (if ty = ''integer'' then INTEGER else NUMBER));
          props = (if big then props_without [''description'', ''type'', ''format''] s
                   else props_without [''description'', ''type''] s)
      in if props \<noteq> [] then Inl (UnexpectedProperties (ty @ '' schema'') context props)
         else generator imp)"

subsection \<open>Maps and arrays\<close>

definition wrap_gen :: "string \<Rightarrow> codegen \<Rightarrow> codegen" where
  "wrap_gen helper inner imp =
     bindE (addValidate imp helper) (\<lambda>imp1.
     bindE (inner imp1) (\<lambda>(t, imp2). Inr (helper @ ''('' @ t @ '')'', imp2)))"

definition map_type :: "string \<Rightarrow> RuntimeType \<Rightarrow> RuntimeType" where
  "map_type context inner =
     \<lparr>typeName = ''ReadonlyMap<string, '' @ typeName inner @ ''>'',
      fromJson = wrap_gen ''testMap'' (fromJson inner),
      fromJsonParam = (\<lambda>imp. Inl (UnexpectedMapParameter context)),
      toJson = wrap_gen ''printMap'' (toJson inner)\<rparr>"

definition array_type :: "RuntimeType \<Rightarrow> RuntimeType" where
  "array_type inner =
     \<lparr>typeName = ''ReadonlyArray<'' @ typeName inner @ ''>'',
      fromJson = wrap_gen ''testArray'' (fromJson inner),
      fromJsonParam = wrap_gen ''testParamArray'' (fromJsonParam inner),
      toJson = wrap_gen ''printArray'' (toJson inner)\<rparr>"

subsection \<open>The resolver\<close>

lemma size_oneOf [termination_simp]: "oneOf s = Some xs \<Longrightarrow> size_list size xs < size s"
  by (cases s) simp

lemma size_items [termination_simp]: "items s = Some a \<Longrightarrow> size a < size s"
  by (cases s) simp

lemma size_additionalProperties [termination_simp]:
  "additionalProperties s = Some (Inr a) \<Longrightarrow> size a < size s"
  by (cases s) simp

text \<open>
  \<^verbatim>\<open>getRuntimeType(schema, imports, context)\<close>, and the \<^verbatim>\<open>schema.oneOf.map((s, i) => ...)\<close>
  of its union branch as \<open>getRuntimeTypes\<close>, which resolves the branches from index \<open>i\<close> on.
\<close>

function getRuntimeType ::
    "string list \<Rightarrow> schema \<Rightarrow> Imports \<Rightarrow> string \<Rightarrow> error + (RuntimeType \<times> Imports)"
  and getRuntimeTypes ::
    "string list \<Rightarrow> schema list \<Rightarrow> nat \<Rightarrow> Imports \<Rightarrow> string \<Rightarrow> error + (RuntimeType list \<times> Imports)"
where
  "getRuntimeType enumTypes s imp context =
     (if ref s \<noteq> None then reference_type enumTypes s imp context
      else case oneOf s of
        Some branches \<Rightarrow>
          (if props_without [''oneOf''] s \<noteq> [] then
             Inl (UnexpectedProperties ''oneOf schema'' context (props_without [''oneOf''] s))
           else
             bindE (getRuntimeTypes enumTypes branches 0 imp context) (\<lambda>(inner, imp1).
               Inr (oneOf_type inner, imp1)))
      | None \<Rightarrow>
          (if type s = Some ''string'' then string_type s imp context
           else if type s = Some ''boolean'' then boolean_type s imp context
           else if type s = Some ''integer'' \<or> type s = Some ''number'' then number_type s imp context
           else if type s = Some ''object'' then
             (let props = props_without [''description'', ''type'', ''additionalProperties''] s in
              if props \<noteq> [] then Inl (UnexpectedProperties ''map schema'' context props)
              else case additionalProperties s of
                Some (Inl b) \<Rightarrow> Inl (ExpectedAdditionalPropertiesSchema context b)
              | None \<Rightarrow> Inl (ExpectedAdditionalProperties context)
              | Some (Inr a) \<Rightarrow>
                  bindE (getRuntimeType enumTypes a imp (context @ ''.additionalProperties''))
                    (\<lambda>(inner, imp1). Inr (map_type context inner, imp1)))
           else if type s = Some ''array'' then
             (let props = props_without [''description'', ''type'', ''items''] s in
              if props \<noteq> [] then Inl (UnexpectedProperties ''array schema'' context props)
              else case items s of
                None \<Rightarrow> Inl (ExpectedItems context)
              | Some a \<Rightarrow>
                  bindE (getRuntimeType enumTypes a imp (context @ ''.items''))
                    (\<lambda>(inner, imp1). Inr (array_type inner, imp1)))
           else Inl (UnexpectedType (case type s of None \<Rightarrow> ''undefined'' | Some t \<Rightarrow> t) context)))"
| "getRuntimeTypes enumTypes [] i imp context = Inr ([], imp)"
| "getRuntimeTypes enumTypes (s # ss) i imp context =
     bindE (getRuntimeType enumTypes s imp (context @ ''.oneOf['' @ show_nat i @ '']'')) (\<lambda>(d, imp1).
     bindE (getRuntimeTypes enumTypes ss (i + 1) imp1 context) (\<lambda>(ds, imp2).
       Inr (d # ds, imp2)))"
  by pat_completeness auto
termination
  by (relation "measure (\<lambda>x. case x of
          Inl (e, s, imp, c) \<Rightarrow> size s
        | Inr (e, ss, i, imp, c) \<Rightarrow> size_list size ss)")
     (auto simp: size_oneOf size_items size_additionalProperties)

declare getRuntimeType.simps [simp del]

subsection \<open>Positions in a schema\<close>

text \<open>
  The vocabulary for saying where in a schema an error arises: a position below a node is
  a union branch, the item schema of an array or the value schema of a map; a path is a
  sequence of positions; \<open>path_text\<close> is the text the resolver appends to the context on
  its way down a path. \<open>error_context\<close> is the context string an error's message quotes, if
  it quotes one.
\<close>

datatype segment = OneOf nat | Items | AdditionalProperties

fun segment_text :: "segment \<Rightarrow> string" where
  "segment_text (OneOf i) = ''.oneOf['' @ show_nat i @ '']''"
| "segment_text Items = ''.items''"
| "segment_text AdditionalProperties = ''.additionalProperties''"

fun child :: "schema \<Rightarrow> segment \<Rightarrow> schema option" where
  "child s (OneOf i) =
     (case oneOf s of
        Some branches \<Rightarrow> if i < length branches then Some (branches ! i) else None
      | None \<Rightarrow> None)"
| "child s Items = items s"
| "child s AdditionalProperties =
     (case additionalProperties s of Some (Inr a) \<Rightarrow> Some a | _ \<Rightarrow> None)"

fun subschema :: "schema \<Rightarrow> segment list \<Rightarrow> schema option" where
  "subschema s [] = Some s"
| "subschema s (g # gs) = (case child s g of None \<Rightarrow> None | Some c \<Rightarrow> subschema c gs)"

definition path_text :: "segment list \<Rightarrow> string" where
  "path_text p = concat (map segment_text p)"

fun error_context :: "error \<Rightarrow> string option" where
  "error_context (TypeError m) = None"
| "error_context DefaultImportAlreadySpecified = None"
| "error_context (UnexpectedProperties kind context props) = Some context"
| "error_context (ExpectedRefForm r) = None"
| "error_context (UnexpectedReferenceParameter context) = Some context"
| "error_context (UnexpectedMinLength0 context) = Some context"
| "error_context (UnexpectedMaxLength0 context) = Some context"
| "error_context (UnexpectedMinLengthOfUUID context) = Some context"
| "error_context (UnexpectedMaxLengthOfUUID context) = Some context"
| "error_context (UnexpectedStringFormat fmt context) = Some context"
| "error_context (ExpectedAdditionalPropertiesSchema context b) = Some context"
| "error_context (ExpectedAdditionalProperties context) = Some context"
| "error_context (UnexpectedMapParameter context) = Some context"
| "error_context (ExpectedItems context) = Some context"
| "error_context (UnexpectedType ty context) = Some context"
| "error_context e = None"

text \<open>A descriptor throws \<open>e\<close> when one of its three closures does, on some table.\<close>

definition descriptor_throws :: "RuntimeType \<Rightarrow> error \<Rightarrow> bool" where
  "descriptor_throws d e =
     (\<exists>imp. fromJson d imp = Inl e \<or> fromJsonParam d imp = Inl e \<or> toJson d imp = Inl e)"

text \<open>The text \<open>c\<close> occurs in the text \<open>t\<close>.\<close>

fun occurs :: "string \<Rightarrow> string \<Rightarrow> bool" where
  "occurs c [] = (c = [])"
| "occurs c (x # xs) = (take (length c) (x # xs) = c \<or> occurs c xs)"

section \<open>Operation Extractor\<close>

subsection \<open>Path templates\<close>

text \<open>
  \<^verbatim>\<open>type UrlPart = { type: "literal" | "param"; value: string }\<close> and
  \<^verbatim>\<open>type Url = { original: string; parts: UrlPart[] }\<close>.
\<close>

datatype UrlPart = literal string | param string

record Url =
  original :: string
  parts :: "UrlPart list"

text \<open>
  \<^verbatim>\<open>/^(.*?)\{(\w+)\}/.exec(urlRest)\<close>. \<open>brace_param\<close> matches \<^verbatim>\<open>\{(\w+)\}\<close> at the head of
  a text and gives the name and the text after the closing brace. \<open>url_match\<close> gives the
  shortest \<^verbatim>\<open>start\<close> that such a group follows, the name and the text after the match:
  the lazy \<^verbatim>\<open>.*?\<close> grows one character at a time and never over a line terminator.
\<close>

definition brace_param :: "string \<Rightarrow> (string \<times> string) option" where
  "brace_param s =
     (case s of
        [] \<Rightarrow> None
      | c # t \<Rightarrow>
          if c = CHR ''{'' then
            (case dropWhile is_word_char t of
               [] \<Rightarrow> None
             | d # rest \<Rightarrow>
                 if d = CHR ''}'' \<and> takeWhile is_word_char t \<noteq> [] then
                   Some (takeWhile is_word_char t, rest)
                 else None)
          else None)"

definition is_line_terminator :: "char \<Rightarrow> bool" where
  "is_line_terminator c = (c = CHR 0x0A \<or> c = CHR 0x0D)"

fun url_match :: "string \<Rightarrow> (string \<times> string \<times> string) option" where
  "url_match [] = None"
| "url_match (c # cs) =
     (case brace_param (c # cs) of
        Some (p, rest) \<Rightarrow> Some ([], p, rest)
      | None \<Rightarrow>
          if is_line_terminator c then None
          else (case url_match cs of
                  None \<Rightarrow> None
                | Some (start, p, rest) \<Rightarrow> Some (c # start, p, rest)))"

lemma brace_param_shorter: "brace_param s = Some (p, rest) \<Longrightarrow> length rest < length s"
proof -
  assume a: "brace_param s = Some (p, rest)"
  then obtain c t where s: "s = c # t" by (cases s) (auto simp: brace_param_def)
  from a s obtain d where "dropWhile is_word_char t = d # rest"
    by (auto simp: brace_param_def split: if_splits list.splits)
  then have "length (d # rest) \<le> length t"
    using length_dropWhile_le[of is_word_char t] by simp
  then show ?thesis using s by simp
qed

lemma url_match_shorter: "url_match s = Some (start, p, rest) \<Longrightarrow> length rest < length s"
proof (induction s arbitrary: start)
  case Nil
  then show ?case by simp
next
  case (Cons c cs)
  show ?case
  proof (cases "brace_param (c # cs)")
    case (Some pr)
    then show ?thesis using Cons.prems brace_param_shorter[of "c # cs" p rest]
      by (cases pr) simp
  next
    case None
    then obtain start' where "url_match cs = Some (start', p, rest)"
      using Cons.prems by (auto split: if_splits option.splits)
    from Cons.IH[OF this] show ?thesis by simp
  qed
qed

text \<open>The \<^verbatim>\<open>while\<close> loop over \<^verbatim>\<open>urlRest\<close>, which leaves the parts and the unmatched rest.\<close>

function url_loop :: "UrlPart list \<Rightarrow> string \<Rightarrow> UrlPart list \<times> string" where
  "url_loop ps urlRest =
     (case url_match urlRest of
        None \<Rightarrow> (ps, urlRest)
      | Some (start, p, rest) \<Rightarrow>
          url_loop (ps @ (if start \<noteq> [] then [literal start] else []) @ [param p]) rest)"
  by pat_completeness auto
termination
  by (relation "measure (\<lambda>(ps, urlRest). length urlRest)") (auto dest: url_match_shorter)

declare url_loop.simps [simp del]

definition parse_url :: "string \<Rightarrow> Url" where
  "parse_url urlString =
     (case url_loop [] urlString of
        (ps, urlRest) \<Rightarrow>
          \<lparr>original = urlString,
           parts = ps @ (if urlRest \<noteq> [] then [literal urlRest] else [])\<rparr>)"

text \<open>
  For stating what the parsing does: the text a part stands for, a template in which
  \<^verbatim>\<open>{name}\<close> occurs nowhere, a sequence of parts in which no literal follows a
  literal, and one that is empty or ends with a parameter.
\<close>

fun part_text :: "UrlPart \<Rightarrow> string" where
  "part_text (literal v) = v"
| "part_text (param p) = ''{'' @ p @ ''}''"

definition has_param :: "string \<Rightarrow> bool" where
  "has_param s = list_ex (\<lambda>i. brace_param (drop i s) \<noteq> None) [0..<length s]"

fun literals_apart :: "UrlPart list \<Rightarrow> bool" where
  "literals_apart (literal a # literal b # ps) = False"
| "literals_apart (x # ps) = literals_apart ps"
| "literals_apart [] = True"

definition ends_param :: "UrlPart list \<Rightarrow> bool" where
  "ends_param ps = (ps = [] \<or> (\<exists>p. last ps = param p))"

fun part_ok :: "UrlPart \<Rightarrow> bool" where
  "part_ok (literal v) = (v \<noteq> [])"
| "part_ok (param p) = is_word p"

subsection \<open>Operations\<close>

text \<open>
  The parts of an OpenAPI document the generator reads, with the types of their
  declarations. A field that is optional there is an \<open>option\<close> here. Of the keys the
  generator does not read, a tag keeps the names (\<open>tag_otherProps\<close>) and an operation
  the names with the JSON text of the values (\<open>otherOperationProps\<close>, without
  \<^verbatim>\<open>security\<close>, which the emitters take out and drop). The value of \<^verbatim>\<open>tags\<close> is tested with \<^verbatim>\<open>Array.isArray\<close>, so a value
  that is no array has a case of its own, with the text it prints as.
\<close>

datatype tags_value = TagsUndefined | TagsArray "string list" | TagsOther string

datatype ParameterIn = Query | Header | Path | Cookie

record OpenAPIMediaType =
  media_schema :: "schema option"

record OpenAPIParameter =
  param_name :: string
  param_in :: ParameterIn
  param_required :: "bool option"
  param_description :: "string option"
  param_schema :: "schema option"

record OpenAPIRequestBody =
  body_description :: "string option"
  body_content :: "(string \<times> OpenAPIMediaType) list option"
  body_required :: "bool option"

record OpenAPIResponse =
  response_description :: string
  response_content :: "(string \<times> OpenAPIMediaType) list option"

datatype 'a or_reference = Reference string | Value 'a

record OpenAPIOperation =
  op_tags :: tags_value
  op_summary :: "string option"
  op_description :: "string option"
  operationId :: "string option"
  parameters :: "OpenAPIParameter or_reference list option"
  requestBody :: "OpenAPIRequestBody or_reference option"
  responses :: "(string \<times> OpenAPIResponse or_reference) list"
  otherOperationProps :: "(string \<times> string) list"

text \<open>
  \<^verbatim>\<open>OperationExtended\<close>: the operation without its tags (the extractor's destructuring
  takes them out), with the method and the parsed template.
\<close>

record OperationExtended =
  operation :: OpenAPIOperation
  op_method :: string
  url :: Url

text \<open>
  A key of a path item holds an operation or, for the sibling keys (\<^verbatim>\<open>summary\<close>,
  \<^verbatim>\<open>parameters\<close>, \<^verbatim>\<open>servers\<close>, ...), something else, which has no \<^verbatim>\<open>tags\<close>. A key
  written without a value holds \<^verbatim>\<open>null\<close>, which the declared type of a path item
  excludes and YAML allows.
\<close>

datatype path_entry = Operation OpenAPIOperation | Sibling | Null

record TagGroup =
  tag_description :: "string option"
  tag_otherProps :: "string list"
  operations :: "OperationExtended list"

record OpenAPITag =
  tag_name :: string
  tag_description0 :: "string option"
  tag_otherProps0 :: "string list"

definition isHttpMethod :: "string \<Rightarrow> bool" where
  "isHttpMethod s =
     (s \<in> set [''GET'', ''PUT'', ''POST'', ''DELETE'', ''OPTIONS'', ''HEAD'', ''PATCH'', ''TRACE''])"

text \<open>The \<^verbatim>\<open>tags.reduce\<close> that starts the table: one group per declared tag, no operations.\<close>

definition declared_tags :: "OpenAPITag list \<Rightarrow> (string \<times> TagGroup) list" where
  "declared_tags tags =
     foldl (\<lambda>acc t. AList.update (tag_name t)
                       \<lparr>tag_description = tag_description0 t,
                        tag_otherProps = tag_otherProps0 t,
                        operations = []\<rparr> acc)
       [] tags"

definition show_tags :: "tags_value \<Rightarrow> string" where
  "show_tags t =
     (case t of TagsUndefined \<Rightarrow> ''undefined'' | TagsArray ts \<Rightarrow> join '','' ts | TagsOther v \<Rightarrow> v)"


text \<open>
  The table \<^verbatim>\<open>operationsByTag\<close> is a plain object, so \<^verbatim>\<open>operationsByTag[tagName]\<close> finds
  an own key or else a member that every object inherits from \<^verbatim>\<open>Object.prototype\<close>.
  These are the names of its members. Each of them is a function or an object, which
  counts as true and has no \<^verbatim>\<open>operations\<close>.
\<close>

definition object_prototype_keys :: "string list" where
  "object_prototype_keys =
     [''constructor'', ''__defineGetter__'', ''__defineSetter__'', ''hasOwnProperty'',
      ''__lookupGetter__'', ''__lookupSetter__'', ''isPrototypeOf'', ''propertyIsEnumerable'',
      ''toString'', ''valueOf'', ''__proto__'', ''toLocaleString'']"

definition destructure_null :: error where
  "destructure_null =
     TypeError (''Cannot destructure property '' @ squote ''tags'' @ '' of '' @ squote ''object null''
                @ '' as it is null.'')"

definition push_of_undefined :: error where
  "push_of_undefined =
     TypeError (''Cannot read properties of undefined (reading '' @ squote ''push'' @ '')'')"

text \<open>
  One iteration of \<^verbatim>\<open>for (const [method, { tags, ...operation }] of entries)\<close>, on the
  table of groups, and the loop. The head of the loop takes the value of the entry apart
  before the body tests the method, which throws on \<^verbatim>\<open>null\<close>. For a tag that is no own
  key of the table and names an inherited member, \<^verbatim>\<open>tag\<close> is that member,
  \<^verbatim>\<open>tag.operations\<close> is \<^verbatim>\<open>undefined\<close> and the call of \<^verbatim>\<open>push\<close> throws.
\<close>

definition extract_entry ::
  "string \<Rightarrow> Url \<Rightarrow> string \<times> path_entry \<Rightarrow> (string \<times> TagGroup) list \<Rightarrow> error + (string \<times> TagGroup) list" where
  "extract_entry urlString u entry groups =
     (case entry of (m, v) \<Rightarrow>
        case v of
          Null \<Rightarrow> Inl destructure_null
        | Sibling \<Rightarrow>
            if \<not> isHttpMethod m then Inr groups
            else Inl (ExpectedOneTag m urlString (show_tags TagsUndefined))
        | Operation op \<Rightarrow>
            if \<not> isHttpMethod m then Inr groups
            else
              (case op_tags op of
                 TagsArray [tagName] \<Rightarrow>
                   (let opx = \<lparr>operation = op\<lparr>op_tags := TagsUndefined\<rparr>, op_method = m, url = u\<rparr>
                    in case map_of groups tagName of
                         Some tag \<Rightarrow>
                           Inr (AList.update tagName (tag\<lparr>operations := operations tag @ [opx]\<rparr>) groups)
                       | None \<Rightarrow>
                           if tagName \<in> set object_prototype_keys then Inl push_of_undefined
                           else Inr (AList.update tagName
                                       \<lparr>tag_description = None, tag_otherProps = [], operations = [opx]\<rparr>
                                       groups))
               | t \<Rightarrow> Inl (ExpectedOneTag m urlString (show_tags t))))"

fun extract_entries ::
  "string \<Rightarrow> Url \<Rightarrow> (string \<times> path_entry) list \<Rightarrow> (string \<times> TagGroup) list \<Rightarrow> error + (string \<times> TagGroup) list" where
  "extract_entries urlString u [] groups = Inr groups"
| "extract_entries urlString u (entry # entries) groups =
     bindE (extract_entry urlString u entry groups) (extract_entries urlString u entries)"

text \<open>The loop \<^verbatim>\<open>for (const [urlString, methods] of Object.entries(paths))\<close>.\<close>

fun extract_paths ::
  "(string \<times> (string \<times> path_entry) list) list \<Rightarrow> (string \<times> TagGroup) list \<Rightarrow> error + (string \<times> TagGroup) list" where
  "extract_paths [] groups = Inr groups"
| "extract_paths ((urlString, methods) # paths) groups =
     bindE (extract_entries urlString (parse_url urlString)
              (map (\<lambda>(k, v). (toUpperCase k, v)) methods) groups)
       (extract_paths paths)"

definition operationsByTag ::
  "OpenAPITag list \<Rightarrow> (string \<times> (string \<times> path_entry) list) list \<Rightarrow> error + (string \<times> TagGroup) list" where
  "operationsByTag tags paths = extract_paths paths (declared_tags tags)"







section \<open>API and Client Emitters\<close>

subsection \<open>Comments\<close>

text \<open>\<^verbatim>\<open>split(/\r?\n/)\<close>: a cut at every line feed, which takes a carriage return before it along.\<close>

fun split_newlines :: "string \<Rightarrow> string list" where
  "split_newlines [] = [[]]"
| "split_newlines (c # cs) =
     (if c = CHR 0x0A then [] # split_newlines cs
      else case cs of
        d # ds \<Rightarrow>
          if c = CHR 0x0D \<and> d = CHR 0x0A then [] # split_newlines ds
          else (case split_newlines cs of w # ws \<Rightarrow> (c # w) # ws | [] \<Rightarrow> [[c]])
      | [] \<Rightarrow> [[c]])"

text \<open>\<^verbatim>\<open>splitLines = (s) => s ? s.trim().split(/\r?\n/) : []\<close>.\<close>

definition splitLines :: "string option \<Rightarrow> string list" where
  "splitLines s =
     (case s of
        None \<Rightarrow> []
      | Some t \<Rightarrow> if t = [] then [] else split_newlines (trim t))"

text \<open>A line that is \<^verbatim>\<open>undefined\<close> or empty counts as false.\<close>

definition no_line :: "string option \<Rightarrow> bool" where
  "no_line x = (x = None \<or> x = Some [])"

fun comment_lines :: "bool \<Rightarrow> string option list \<Rightarrow> string" where
  "comment_lines lastEmpty [] = []"
| "comment_lines lastEmpty (x # xs) =
     (if \<not> no_line x then '' * '' @ the x @ [CHR 0x0A] @ comment_lines False xs
      else (if \<not> lastEmpty then '' *'' @ [CHR 0x0A] else []) @ comment_lines True xs)"

text \<open>\<^verbatim>\<open>appendMarkdownAsComment(b, ...lines)\<close>: the text it appends to \<open>b\<close>.\<close>

definition appendMarkdownAsComment :: "string option list \<Rightarrow> string" where
  "appendMarkdownAsComment lines0 =
     (let lines1 = rev (dropWhile no_line (rev lines0));
          lines2 = dropWhile no_line lines1
      in if length lines2 = 1 then [CHR 0x0A] @ ''/** '' @ the (hd lines2) @ '' */'' @ [CHR 0x0A]
         else if lines2 \<noteq> [] then
           [CHR 0x0A] @ ''/**'' @ [CHR 0x0A] @ comment_lines False lines2 @ '' */'' @ [CHR 0x0A]
         else [])"

text \<open>\<^verbatim>\<open>addJsDoc(prefix, doc)\<close>, on the array \<^verbatim>\<open>paramJsDoc\<close>.\<close>

definition addJsDoc :: "string list \<Rightarrow> string \<Rightarrow> string \<Rightarrow> string list" where
  "addJsDoc paramJsDoc prefix doc =
     paramJsDoc @ [prefix] @ map (\<lambda>l. ''  '' @ l) (splitLines (Some doc))"

text \<open>\<^verbatim>\<open>a || b\<close> on an optional text.\<close>

definition or_else :: "string option \<Rightarrow> string \<Rightarrow> string" where
  "or_else a b = (if no_line a then b else the a)"

subsection \<open>What both emitters check\<close>

text \<open>
  The operation identifier and the name of the generated member:
  \<^verbatim>\<open>/^\w+$/.test(operationId)\<close>, or \<^verbatim>\<open>/^(\w+)\.(\w+)$/\<close> with the tag's upper-camel name
  before the dot.
\<close>

definition operation_id :: "OperationExtended \<Rightarrow> error + string" where
  "operation_id opx =
     (if no_line (operationId (operation opx)) then
        Inl (ExpectedOperationId (op_method opx) (original (url opx)))
      else Inr (the (operationId (operation opx))))"

definition dotted :: "string \<Rightarrow> (string \<times> string) option" where
  "dotted s =
     (case dropWhile (\<lambda>c. c \<noteq> CHR ''.'') s of
        [] \<Rightarrow> None
      | dot # b \<Rightarrow>
          if is_word (takeWhile (\<lambda>c. c \<noteq> CHR ''.'') s) \<and> is_word b then
            Some (takeWhile (\<lambda>c. c \<noteq> CHR ''.'') s, b)
          else None)"

definition method_name :: "Identifier \<Rightarrow> OperationExtended \<Rightarrow> string \<Rightarrow> error + string" where
  "method_name tag opx opId =
     (if is_word opId then Inr opId
      else case dotted opId of
        Some (a, b) \<Rightarrow>
          if a = upperCamel tag then Inr b
          else Inl (ExpectedOperationIdPrefix (op_method opx) (original (url opx)) (upperCamel tag))
      | None \<Rightarrow> Inl (ExpectedOperationIdPrefix (op_method opx) (original (url opx)) (upperCamel tag)))"

text \<open>\<^verbatim>\<open>getTypeFromContent(content, imports, context)\<close>; \<open>None\<close> is its \<^verbatim>\<open>undefined\<close>.\<close>

definition getTypeFromContent ::
  "string list \<Rightarrow> (string \<times> OpenAPIMediaType) list option \<Rightarrow> Imports \<Rightarrow> string
     \<Rightarrow> error + (RuntimeType option \<times> Imports)" where
  "getTypeFromContent enumTypes content imp context =
     (case content of
        None \<Rightarrow> Inr (None, imp)
      | Some c \<Rightarrow>
          (case map_of c ''application/json'' of
             None \<Rightarrow> Inr (None, imp)
           | Some jsonContent \<Rightarrow>
               (case media_schema jsonContent of
                  None \<Rightarrow> Inr (None, imp)
                | Some s \<Rightarrow>
                    bindE (getRuntimeType enumTypes s imp context) (\<lambda>(d, imp1). Inr (Some d, imp1)))))"

text \<open>
  The block from \<^verbatim>\<open>const { 200: response, ...otherResponses } = responses\<close> to the call
  of \<open>getTypeFromContent\<close>: the return type, if any, and the response.
\<close>

definition responses_step ::
  "string list \<Rightarrow> string \<Rightarrow> (string \<times> OpenAPIResponse or_reference) list \<Rightarrow> Imports
     \<Rightarrow> error + (RuntimeType option \<times> OpenAPIResponse \<times> Imports)" where
  "responses_step enumTypes opId rs imp =
     (case map_of rs ''200'' of
        None \<Rightarrow> Inl (Expected200Response opId)
      | Some response \<Rightarrow>
          if filter (\<lambda>(k, v). k \<noteq> ''200'') rs \<noteq> [] then Inl UnexpectedResponses
          else case response of
            Reference r \<Rightarrow> Inl (UnexpectedReferenceInResponse opId)
          | Value r \<Rightarrow>
              bindE (getTypeFromContent enumTypes (response_content r) imp (opId @ ''.200.responseBody''))
                (\<lambda>(returnType, imp1). Inr (returnType, r, imp1)))"

fun in_text :: "ParameterIn \<Rightarrow> string" where
  "in_text Query = ''query''"
| "in_text Header = ''header''"
| "in_text Path = ''path''"
| "in_text Cookie = ''cookie''"

definition default_param_doc :: "ParameterIn \<Rightarrow> string" where
  "default_param_doc t = toUpperCase (take 1 (in_text t)) @ drop 1 (in_text t) @ '' param.''"

subsection \<open>The API emitter\<close>

text \<open>The variables of one iteration of \<^verbatim>\<open>writeApi\<close>'s loop, and those of the function.\<close>

record api_params =
  imports_p :: Imports
  paramNames :: "string list"
  paramsWithTypes :: "string list"
  paramLines :: string
  paramJsDoc :: "string list"

record api_state =
  imports_a :: Imports
  abstractMethodLines :: string
  registerLines :: string

definition api_request_body ::
  "string list \<Rightarrow> string \<Rightarrow> OpenAPIRequestBody or_reference option \<Rightarrow> api_params \<Rightarrow> error + api_params" where
  "api_request_body enumTypes opId body st =
     (case body of
        None \<Rightarrow> Inr st
      | Some (Reference r) \<Rightarrow> Inl (UnexpectedReferenceInRequestBody opId)
      | Some (Value rb) \<Rightarrow>
          bindE (getTypeFromContent enumTypes (body_content rb) (imports_p st) (opId @ ''.requestBody''))
            (\<lambda>(requestType, imp1).
               case requestType of
                 None \<Rightarrow> Inr (st\<lparr>imports_p := imp1\<rparr>)
               | Some d \<Rightarrow>
                   if body_required rb \<noteq> Some True then Inl (BodyNotRequired opId)
                   else
                     bindE (addValidate imp1 ''validate'') (\<lambda>imp2.
                     bindE (fromJson d imp2) (\<lambda>(code, imp3).
                       Inr \<lparr>imports_p = imp3,
                            paramNames = paramNames st @ [''body''],
                            paramsWithTypes = paramsWithTypes st @ [''body: '' @ typeName d],
                            paramLines = paramLines st @ ''const body = validate('' @ code
                              @ '')(req.body, ['' @ JSON_stringify opId @ '', '' @ dquote ''requestBody'' @ '']);'',
                            paramJsDoc = addJsDoc (paramJsDoc st) ''@param body''
                              (or_else (body_description rb) ''Request body.'')\<rparr>))))"

definition api_parameter ::
  "string list \<Rightarrow> string \<Rightarrow> OpenAPIParameter or_reference \<Rightarrow> api_params \<Rightarrow> error + api_params" where
  "api_parameter enumTypes opId parameter st =
     (case parameter of
        Reference r \<Rightarrow> Inl (UnexpectedReferenceInParameter opId)
      | Value p \<Rightarrow>
          (case param_schema p of
             None \<Rightarrow> Inl (ExpectedSchemaInParameter (param_name p) opId)
           | Some paramSchema \<Rightarrow>
               bindE (getRuntimeType enumTypes paramSchema (imports_p st)
                        (opId @ ''.'' @ in_text (param_in p) @ ''.'' @ param_name p)) (\<lambda>(d, imp1).
               let paramRequired = (param_required p = Some True) in
               bindE (addValidate imp1 ''validate'') (\<lambda>imp2.
               bindE (if \<not> paramRequired then addValidate imp2 ''opt'' else Inr imp2) (\<lambda>imp3.
               bindE (fromJsonParam d imp3) (\<lambda>(code, imp4).
                 Inr \<lparr>imports_p = imp4,
                      paramNames = paramNames st @ [param_name p],
                      paramsWithTypes = paramsWithTypes st
                        @ [param_name p @ '': '' @ typeName d @ (if paramRequired then [] else '' | undefined'')],
                      paramLines = paramLines st @ ''const '' @ param_name p @ '' = validate(''
                        @ (if \<not> paramRequired then ''opt('' else []) @ code
                        @ (if \<not> paramRequired then '')'' else []) @ '')(req.''
                        @ (if param_in p = Path then ''params'' else in_text (param_in p)) @ ''.''
                        @ param_name p @ '', ['' @ JSON_stringify opId @ '', ''
                        @ JSON_stringify (in_text (param_in p)) @ '', '' @ JSON_stringify (param_name p)
                        @ '']);'',
                      paramJsDoc = addJsDoc (paramJsDoc st) (''@param '' @ param_name p)
                        (or_else (param_description p) (default_param_doc (param_in p)))\<rparr>))))))"

fun api_parameters ::
  "string list \<Rightarrow> string \<Rightarrow> OpenAPIParameter or_reference list \<Rightarrow> api_params \<Rightarrow> error + api_params" where
  "api_parameters enumTypes opId [] st = Inr st"
| "api_parameters enumTypes opId (parameter # ps) st =
     bindE (api_parameter enumTypes opId parameter st) (api_parameters enumTypes opId ps)"

text \<open>\<^verbatim>\<open>addResponseValidator()\<close>: the text it appends to \<^verbatim>\<open>registerLines\<close>.\<close>

definition addResponseValidator :: "string \<Rightarrow> RuntimeType option \<Rightarrow> Imports \<Rightarrow> error + (string \<times> Imports)" where
  "addResponseValidator opId returnType imp =
     (case returnType of
        None \<Rightarrow> Inr ([], imp)
      | Some d \<Rightarrow>
          bindE (addValidate imp ''validate'') (\<lambda>imp1.
          bindE (toJson d imp1) (\<lambda>(code, imp2).
            Inr (''.then((result) => validate('' @ code @ '')(result, ['' @ JSON_stringify opId
                   @ '', '' @ dquote ''200'' @ '', '' @ dquote ''responseBody'' @ '']))'', imp2))))"

definition express_url :: "Url \<Rightarrow> string" where
  "express_url u = concat (map (\<lambda>p. case p of param v \<Rightarrow> '':'' @ v | literal v \<Rightarrow> v) (parts u))"

text \<open>One iteration of the loop of \<^verbatim>\<open>writeApi\<close>.\<close>

definition api_operation ::
  "string list \<Rightarrow> Identifier \<Rightarrow> OperationExtended \<Rightarrow> api_state \<Rightarrow> error + api_state" where
  "api_operation enumTypes tag opx st =
     bindE (operation_id opx) (\<lambda>opId.
     bindE (method_name tag opx opId) (\<lambda>methodName.
     bindE (api_request_body enumTypes opId (requestBody (operation opx))
              \<lparr>imports_p = imports_a st, paramNames = [], paramsWithTypes = [], paramLines = [],
               paramJsDoc = []\<rparr>) (\<lambda>ps1.
     bindE (api_parameters enumTypes opId
              (case parameters (operation opx) of None \<Rightarrow> [] | Some l \<Rightarrow> l) ps1) (\<lambda>ps2.
     bindE (responses_step enumTypes opId (responses (operation opx)) (imports_p ps2))
       (\<lambda>(returnType, response, imp3).
     let jsDoc = (if returnType \<noteq> None then
                    addJsDoc (paramJsDoc ps2) ''@return''
                      (or_else (Some (response_description response)) ''Response body.'')
                  else paramJsDoc ps2);
         abstract =
           appendMarkdownAsComment
             ([op_summary (operation opx), Some [], op_description (operation opx), Some []]
              @ map Some jsDoc)
           @ ''abstract '' @ methodName @ ''('' @ join '','' (paramsWithTypes ps2) @ ''): Promise<''
           @ (case returnType of Some d \<Rightarrow> typeName d | None \<Rightarrow> ''void'') @ ''>;''
           @ [CHR 0x0A, CHR 0x0A]
     in
     bindE (addResponseValidator opId returnType imp3) (\<lambda>(validator, imp4).
     let register =
           ''app.'' @ toLowerCase (op_method opx) @ ''('' @ JSON_stringify (express_url (url opx))
           @ '', (req: Request, res: Response) => '' @ ''this.handleResponse(res, ''
           @ (if paramNames ps2 \<noteq> [] then
                ''(async () => {'' @ paramLines ps2 @ ''return await this.'' @ methodName @ ''(''
                @ join '','' (paramNames ps2) @ '')'' @ validator @ '';})())''
              else ''this.'' @ methodName @ ''()'' @ validator @ '')'')
           @ '');''
     in
     if otherOperationProps (operation opx) \<noteq> [] then
       Inl (UnexpectedPropertiesOfOperation opId (otherOperationProps (operation opx)))
     else
       Inr \<lparr>imports_a = imp4,
            abstractMethodLines = abstractMethodLines st @ abstract,
            registerLines = registerLines st @ register\<rparr>))))))"

fun api_operations ::
  "string list \<Rightarrow> Identifier \<Rightarrow> OperationExtended list \<Rightarrow> api_state \<Rightarrow> error + api_state" where
  "api_operations enumTypes tag [] st = Inr st"
| "api_operations enumTypes tag (opx # ops) st =
     bindE (api_operation enumTypes tag opx st) (api_operations enumTypes tag ops)"

text \<open>
  \<^verbatim>\<open>writeApi(tag, tagDescription, operations)\<close>. The final \<^verbatim>\<open>b.toString()\<close> renders the
  import table, hence the parameter \<open>lc\<close>.
\<close>

definition writeApi ::
  "(string \<Rightarrow> string \<Rightarrow> int) \<Rightarrow> string list \<Rightarrow> Identifier \<Rightarrow> string option \<Rightarrow> OperationExtended list
     \<Rightarrow> error + string" where
  "writeApi lc enumTypes tag tagDescription ops =
     bindE (addLocal (new_Imports (Some Api)) None ''base-api'' ''BaseApi'' False) (\<lambda>imp1.
     bindE (addGlobal imp1 ''express'' ''Express'' False) (\<lambda>imp2.
     bindE (addGlobal imp2 ''express'' ''Request'' False) (\<lambda>imp3.
     bindE (addGlobal imp3 ''express'' ''Response'' False) (\<lambda>imp4.
     bindE (api_operations enumTypes tag ops
              \<lparr>imports_a = imp4, abstractMethodLines = [], registerLines = []\<rparr>) (\<lambda>st.
       Inr (toString lc (imports_a st)
            @ appendMarkdownAsComment
                ([Some (display tag @ '' api.''), Some []] @ map Some (splitLines tagDescription))
            @ ''export abstract class '' @ upperCamel tag @ ''Api extends BaseApi {''
            @ abstractMethodLines st
            @ ''/** Register all endpoints. */'' @ [CHR 0x0A] @ ''registerEndpoints(app: Express): void {''
            @ registerLines st @ ''}}''))))))"

subsection \<open>The Client emitter\<close>

record client_params =
  imports_c :: Imports
  paramNames_c :: "string list"
  paramsWithTypes_c :: "string list"
  queryParamNames :: "string list"
  paramJsDoc_c :: "string list"
  hasBody :: bool

record client_state =
  imports_b :: Imports
  builder :: string

definition client_request_body ::
  "string list \<Rightarrow> string \<Rightarrow> OpenAPIRequestBody or_reference option \<Rightarrow> client_params \<Rightarrow> error + client_params" where
  "client_request_body enumTypes opId body st =
     (case body of
        None \<Rightarrow> Inr st
      | Some (Reference r) \<Rightarrow> Inl (UnexpectedReferenceInRequestBody opId)
      | Some (Value rb) \<Rightarrow>
          bindE (getTypeFromContent enumTypes (body_content rb) (imports_c st) (opId @ ''.requestBody''))
            (\<lambda>(requestType, imp1).
               case requestType of
                 None \<Rightarrow> Inr (st\<lparr>imports_c := imp1\<rparr>)
               | Some d \<Rightarrow>
                   if body_required rb \<noteq> Some True then Inl (BodyNotRequired opId)
                   else
                     Inr (st\<lparr>imports_c := imp1,
                             paramNames_c := paramNames_c st @ [''body''],
                             paramsWithTypes_c := paramsWithTypes_c st @ [''body: '' @ typeName d],
                             paramJsDoc_c := addJsDoc (paramJsDoc_c st) ''@param body''
                               (or_else (body_description rb) ''Request body.''),
                             hasBody := True\<rparr>)))"

definition client_parameter ::
  "string list \<Rightarrow> string \<Rightarrow> OpenAPIParameter or_reference \<Rightarrow> client_params \<Rightarrow> error + client_params" where
  "client_parameter enumTypes opId parameter st =
     (case parameter of
        Reference r \<Rightarrow> Inl (UnexpectedReferenceInParameter opId)
      | Value p \<Rightarrow>
          if param_in p \<noteq> Path \<and> param_in p \<noteq> Query then
            Inl (ParamsShouldOnlyBePathOrQuery (param_name p) opId)
          else case param_schema p of
             None \<Rightarrow> Inl (ExpectedSchemaInParameter (param_name p) opId)
           | Some paramSchema \<Rightarrow>
               bindE (getRuntimeType enumTypes paramSchema (imports_c st)
                        (opId @ ''.'' @ in_text (param_in p) @ ''.'' @ param_name p)) (\<lambda>(d, imp1).
                 Inr (st\<lparr>imports_c := imp1,
                         paramNames_c := paramNames_c st @ [param_name p],
                         queryParamNames := queryParamNames st
                           @ (if param_in p = Query then [param_name p] else []),
                         paramsWithTypes_c := paramsWithTypes_c st
                           @ [param_name p @ '': '' @ typeName d
                              @ (if param_required p = Some True then [] else '' | undefined'')],
                         paramJsDoc_c := addJsDoc (paramJsDoc_c st) (''@param '' @ param_name p)
                           (or_else (param_description p) (default_param_doc (param_in p)))\<rparr>)))"

fun client_parameters ::
  "string list \<Rightarrow> string \<Rightarrow> OpenAPIParameter or_reference list \<Rightarrow> client_params \<Rightarrow> error + client_params" where
  "client_parameters enumTypes opId [] st = Inr st"
| "client_parameters enumTypes opId (parameter # ps) st =
     bindE (client_parameter enumTypes opId parameter st) (client_parameters enumTypes opId ps)"

definition url_builder :: "Url \<Rightarrow> string list \<Rightarrow> string" where
  "url_builder u queryNames =
     ''new UrlBuilder()''
     @ concat (map (\<lambda>p. case p of
                           literal v \<Rightarrow> ''.addLiteral('' @ JSON_stringify v @ '')''
                         | param v \<Rightarrow> ''.addPathParam('' @ v @ '')'') (parts u))
     @ concat (map (\<lambda>p. ''.addQuery('' @ JSON_stringify p @ '', '' @ p @ '')'') queryNames)
     @ ''.toString(),''"

text \<open>One iteration of the loop of \<^verbatim>\<open>writeClient\<close>.\<close>

definition client_operation ::
  "string list \<Rightarrow> Identifier \<Rightarrow> OperationExtended \<Rightarrow> client_state \<Rightarrow> error + client_state" where
  "client_operation enumTypes tag opx st =
     bindE (operation_id opx) (\<lambda>opId.
     bindE (method_name tag opx opId) (\<lambda>methodName.
     bindE (client_request_body enumTypes opId (requestBody (operation opx))
              \<lparr>imports_c = imports_b st, paramNames_c = [], paramsWithTypes_c = [],
               queryParamNames = [], paramJsDoc_c = [], hasBody = False\<rparr>) (\<lambda>ps1.
     bindE (client_parameters enumTypes opId
              (case parameters (operation opx) of None \<Rightarrow> [] | Some l \<Rightarrow> l) ps1) (\<lambda>ps2.
     let jsDoc1 = addJsDoc (paramJsDoc_c ps2) ''@param overrideConfig''
                    ''Client config variable overrides. Defaults to the baseConfig.''
     in
     bindE (responses_step enumTypes opId (responses (operation opx)) (imports_c ps2))
       (\<lambda>(returnType, response, imp3).
     let jsDoc = (if returnType \<noteq> None then
                    addJsDoc jsDoc1 ''@return''
                      (or_else (Some (response_description response)) ''Response body.'')
                  else jsDoc1)
     in
     bindE (addLocal imp3 None ''base-client'' ''ClientConfig'' False) (\<lambda>imp4.
     bindE (addLocal imp4 None ''base-client'' ''UrlBuilder'' False) (\<lambda>imp5.
     bindE (case returnType of
              None \<Rightarrow> Inr ([], imp5)
            | Some d \<Rightarrow>
                bindE (fromJson d imp5) (\<lambda>(code, imp6).
                  Inr ((if \<not> hasBody ps2 then ''undefined,'' else []) @ code @ '','', imp6)))
       (\<lambda>(validator, imp6).
     let member =
           appendMarkdownAsComment
             ([op_summary (operation opx), Some [], op_description (operation opx), Some []]
              @ map Some jsDoc)
           @ methodName @ ''('' @ concat (map (\<lambda>p. p @ '','') (paramsWithTypes_c ps2))
           @ ''overrideConfig: Partial<ClientConfig> = {}): Promise<''
           @ (case returnType of Some d \<Rightarrow> typeName d | None \<Rightarrow> ''void'')
           @ ''> {return this.fetch(overrideConfig, '' @ [CHR 0x22] @ op_method opx @ [CHR 0x22] @ '',''
           @ url_builder (url opx) (queryParamNames ps2)
           @ (if hasBody ps2 then ''body,'' else [])
           @ validator @ '');}''
     in
     if otherOperationProps (operation opx) \<noteq> [] then
       Inl (UnexpectedPropertiesOfOperation opId (otherOperationProps (operation opx)))
     else
       Inr \<lparr>imports_b = imp6, builder = builder st @ member\<rparr>))))))))"

fun client_operations ::
  "string list \<Rightarrow> Identifier \<Rightarrow> OperationExtended list \<Rightarrow> client_state \<Rightarrow> error + client_state" where
  "client_operations enumTypes tag [] st = Inr st"
| "client_operations enumTypes tag (opx # ops) st =
     bindE (client_operation enumTypes tag opx st) (client_operations enumTypes tag ops)"

text \<open>
  \<^verbatim>\<open>writeClient(tag, tagDescription, operations)\<close>. The builder holds the import table
  itself as its first part, so the table is rendered as it is at the end.
\<close>

definition writeClient ::
  "(string \<Rightarrow> string \<Rightarrow> int) \<Rightarrow> string list \<Rightarrow> Identifier \<Rightarrow> string option \<Rightarrow> OperationExtended list
     \<Rightarrow> error + string" where
  "writeClient lc enumTypes tag tagDescription ops =
     bindE (addLocal (new_Imports (Some Client)) None ''base-client'' ''BaseClient'' False) (\<lambda>imp1.
     bindE (client_operations enumTypes tag ops
              \<lparr>imports_b = imp1,
               builder = appendMarkdownAsComment
                     ([Some (display tag @ '' client.''), Some []] @ map Some (splitLines tagDescription))
                   @ ''export class '' @ upperCamel tag @ ''Client extends BaseClient {''\<rparr>) (\<lambda>st.
       Inr (toString lc (imports_b st) @ builder st @ ''}'')))"

text \<open>
  For stating what the emitters check: the responses of an operation are a \<^verbatim>\<open>200\<close> entry
  and nothing else; the operation identifier is present and names a member.
\<close>

definition only_200 :: "(string \<times> OpenAPIResponse or_reference) list \<Rightarrow> bool" where
  "only_200 rs = (map_of rs ''200'' \<noteq> None \<and> filter (\<lambda>(k, v). k \<noteq> ''200'') rs = [])"

definition valid_operation_id :: "Identifier \<Rightarrow> string option \<Rightarrow> bool" where
  "valid_operation_id tag opId =
     (case opId of
        None \<Rightarrow> False
      | Some i \<Rightarrow> is_word i \<or> (\<exists>w. is_word w \<and> i = upperCamel tag @ ''.'' @ w \<and> is_word (upperCamel tag)))"

section \<open>Properties of the Import Set\<close>

lemma addGlobal_named: "\<exists>s'. addGlobal s file name False = Inr s'"
  by (simp add: addGlobal_def Let_def)

subsection \<open>Sorting and the table's invariant\<close>

lemma set_insort_by: "set (insort_by cmp x xs) = insert x (set xs)"
  by (induction xs) auto

lemma set_sort_by: "set (sort_by cmp xs) = set xs"
  by (induction xs) (simp_all add: sort_by_def set_insort_by)

lemma map_insort_by:
  "(\<And>a b. cmp' (f a) (f b) = cmp a b) \<Longrightarrow> map f (insort_by cmp x xs) = insort_by cmp' (f x) (map f xs)"
  by (induction xs) auto

lemma map_sort_by:
  assumes "\<And>a b. cmp' (f a) (f b) = cmp a b"
  shows "map f (sort_by cmp xs) = sort_by cmp' (map f xs)"
proof (induction xs)
  case Nil
  then show ?case by (simp add: sort_by_def)
next
  case (Cons x xs)
  have "map f (insort_by cmp x (sort_by cmp xs)) = insort_by cmp' (f x) (map f (sort_by cmp xs))"
    using assms by (rule map_insort_by)
  then show ?case using Cons by (simp add: sort_by_def)
qed

lemma distinct_insort_by: "distinct (insort_by cmp x xs) = (x \<notin> set xs \<and> distinct xs)"
  by (induction xs) (auto simp: set_insort_by)

lemma distinct_sort_by: "distinct (sort_by cmp xs) = distinct xs"
  by (induction xs) (simp_all add: sort_by_def distinct_insort_by set_sort_by[unfolded sort_by_def])

lemma sorted_insort_by:
  assumes "linear_compare cmp" and "sorted_wrt (\<lambda>a b. cmp a b \<le> 0) xs"
  shows "sorted_wrt (\<lambda>a b. cmp a b \<le> 0) (insort_by cmp x xs)"
  using assms(2)
proof (induction xs)
  case Nil
  then show ?case by simp
next
  case (Cons y ys)
  have tot: "cmp x y \<le> 0 \<or> cmp y x \<le> 0"
    using assms(1) by (simp add: linear_compare_def)
  have tr: "\<And>a b c. cmp a b \<le> 0 \<Longrightarrow> cmp b c \<le> 0 \<Longrightarrow> cmp a c \<le> 0"
    using assms(1) unfolding linear_compare_def by blast
  show ?case
  proof (cases "cmp x y \<le> 0")
    case True
    then show ?thesis using Cons.prems tr by auto
  next
    case False
    then have "cmp y x \<le> 0" using tot by simp
    then show ?thesis using False Cons by (auto simp: set_insort_by)
  qed
qed

lemma sorted_sort_by:
  "linear_compare cmp \<Longrightarrow> sorted_wrt (\<lambda>a b. cmp a b \<le> 0) (sort_by cmp xs)"
  by (induction xs) (simp_all add: sort_by_def sorted_insort_by)

lemma sorted_key_unique:
  assumes lin: "linear_compare cmp"
  shows "sorted_wrt (\<lambda>a b. cmp (k a) (k b) \<le> 0) xs \<Longrightarrow> distinct (map k xs) \<Longrightarrow>
         sorted_wrt (\<lambda>a b. cmp (k a) (k b) \<le> 0) ys \<Longrightarrow> distinct (map k ys) \<Longrightarrow>
         set xs = set ys \<Longrightarrow> xs = ys"
proof (induction xs arbitrary: ys)
  case Nil
  then show ?case by simp
next
  case (Cons x xs)
  from Cons.prems(5) obtain y ys' where ys: "ys = y # ys'"
    by (cases ys) auto
  have anti: "\<And>a b. cmp a b \<le> 0 \<Longrightarrow> cmp b a \<le> 0 \<Longrightarrow> a = b"
    using lin unfolding linear_compare_def by blast
  have refl: "\<And>a. cmp a a \<le> 0"
    using lin unfolding linear_compare_def by blast
  have xin: "x \<in> set (y # ys')" and yin: "y \<in> set (x # xs)"
    using Cons.prems(5) ys by auto
  have le1: "cmp (k y) (k x) \<le> 0"
    using xin Cons.prems(3) ys refl by auto
  have le2: "cmp (k x) (k y) \<le> 0"
    using yin Cons.prems(1) refl by auto
  have kxy: "k x = k y" using anti le1 le2 by blast
  have xy: "x = y"
  proof (rule ccontr)
    assume "x \<noteq> y"
    then have "x \<in> set ys'" using xin by simp
    then have "k x \<in> k ` set ys'" by simp
    then show False using Cons.prems(4) ys kxy by simp
  qed
  have "x \<notin> set xs" using Cons.prems(2) by auto
  moreover have "y \<notin> set ys'" using Cons.prems(4) ys by auto
  ultimately have "set xs = set ys'" using Cons.prems(5) ys xy by auto
  then have "xs = ys'"
    using Cons.IH[of ys'] Cons.prems ys by simp
  then show ?case using xy ys by simp
qed

lemma sort_by_set_unique:
  assumes "linear_compare cmp" "distinct xs" "distinct ys" "set xs = set ys"
  shows "sort_by cmp xs = sort_by cmp ys"
  using sorted_key_unique[where k = "\<lambda>x. x" and cmp = cmp, OF assms(1)]
    sorted_sort_by[OF assms(1)] assms
  by (simp add: distinct_sort_by set_sort_by)

lemma wf_new_Imports: "wf_Imports (new_Imports f)"
  by (simp add: wf_Imports_def new_Imports_def)

lemma map_fst_update: "map fst (AList.update k v al) = (if k \<in> fst ` set al then map fst al else map fst al @ [k])"
  by (induction al) (auto simp: image_iff)

lemma list_all_update:
  "list_all P al \<Longrightarrow> P (k, v) \<Longrightarrow> list_all P (AList.update k v al)"
  by (induction al) auto

lemma wf_addGlobal:
  assumes "wf_Imports s" and "addGlobal s file name d = Inr s'"
  shows "wf_Imports s'"
proof -
  let ?i = "case map_of (imports_map s) file of Some i \<Rightarrow> i | None \<Rightarrow> \<lparr>def = None, named = []\<rparr>"
  have di: "distinct (named ?i)"
  proof (cases "map_of (imports_map s) file")
    case None
    then show ?thesis by simp
  next
    case (Some i)
    then have "(file, i) \<in> set (imports_map s)" by (rule map_of_SomeD)
    then show ?thesis using assms(1) Some by (auto simp: wf_Imports_def list_all_iff)
  qed
  have da: "distinct (set_add (named ?i) name)"
    using di by (simp add: set_add_def)
  obtain j where j: "imports_map s' = AList.update file j (imports_map s)" and dj: "distinct (named j)"
    using assms(2) di da
    by (auto simp: addGlobal_def Let_def split: if_splits)
  have "distinct (map fst (imports_map s'))"
    using assms(1) j by (simp add: wf_Imports_def distinct_update)
  moreover have "list_all (\<lambda>(file, e). distinct (named e)) (imports_map s')"
    unfolding j using assms(1) dj by (intro list_all_update) (simp_all add: wf_Imports_def)
  ultimately show ?thesis by (simp add: wf_Imports_def)
qed

lemma linear_codeUnitCompare: "linear_compare codeUnitCompare"
  unfolding linear_compare_def codeUnitCompare_def
  by (auto split: if_splits)

lemma statements_alt:
  "statements lc s =
     sort_by (\<lambda>a b. lc (fst a) (fst b)) (map (\<lambda>(file, e). (file, def e, sort_by lc (named e))) (imports_map s))"
  unfolding statements_def
  by (rule map_sort_by) (simp add: case_prod_beta)

lemma map_fst_statements: "map fst (statements lc s) = sort_by lc (map fst (imports_map s))"
proof -
  have "map fst (statements lc s) = map fst (sort_by (\<lambda>a b. lc (fst a) (fst b)) (imports_map s))"
    by (simp add: statements_def case_prod_beta comp_def)
  also have "\<dots> = sort_by lc (map fst (imports_map s))"
    by (rule map_sort_by) simp
  finally show ?thesis .
qed

lemma statements_entries:
  assumes "linear_compare lc" and "wf_Imports s"
  shows "list_all (\<lambda>(file, d, ns). sorted_wrt (\<lambda>a b. lc a b \<le> 0) ns \<and> distinct ns \<and>
           (file, d, set ns) \<in> contents s) (statements lc s)"
proof -
  have "\<And>file e. (file, e) \<in> set (imports_map s) \<Longrightarrow>
          sorted_wrt (\<lambda>a b. lc a b \<le> 0) (sort_by lc (named e)) \<and> distinct (sort_by lc (named e)) \<and>
          (file, def e, set (sort_by lc (named e))) \<in> contents s"
    using assms
    by (force simp: sorted_sort_by distinct_sort_by set_sort_by wf_Imports_def list_all_iff contents_def)
  then show ?thesis
    by (auto simp: statements_def list_all_iff set_sort_by)
qed

lemma statements_order_independent:
  assumes lin: "linear_compare lc" and wf: "wf_Imports s" "wf_Imports s'"
    and eq: "contents s' = contents s"
  shows "statements lc s' = statements lc s"
proof -
  let ?norm = "\<lambda>(file, e). (file, def e, sort_by lc (named e))"
  have sub: "set (map ?norm (imports_map a)) \<subseteq> set (map ?norm (imports_map b))"
    if "contents a = contents b" "wf_Imports a" "wf_Imports b" for a b
  proof
    fix x assume "x \<in> set (map ?norm (imports_map a))"
    then obtain fl e where fe: "(fl, e) \<in> set (imports_map a)" and x: "x = (fl, def e, sort_by lc (named e))"
      by auto
    have "(fl, def e, set (named e)) \<in> contents a"
      unfolding contents_def using fe by (rule_tac x="(fl, e)" in image_eqI) simp_all
    then have "(fl, def e, set (named e)) \<in> contents b"
      using that(1) by simp
    then obtain p where p: "p \<in> set (imports_map b)" and pe: "(fl, def e, set (named e)) = (case p of (file, e) \<Rightarrow> (file, def e, set (named e)))"
      unfolding contents_def by blast
    obtain f' e' where pp: "p = (f', e')" by (cases p)
    have fe': "(fl, e') \<in> set (imports_map b)" and d: "def e' = def e"
      and n: "set (named e') = set (named e)"
      using p pe pp by simp_all
    have "distinct (named e)" "distinct (named e')"
      using fe fe' that(2,3) unfolding wf_Imports_def list_all_iff by blast+
    then have "sort_by lc (named e') = sort_by lc (named e)"
      using n lin by (intro sort_by_set_unique) simp_all
    then have "x = ?norm (fl, e')" using x d by simp
    then show "x \<in> set (map ?norm (imports_map b))"
      using fe' by (simp only: set_map) (rule image_eqI, rule refl, assumption)
  qed
  have sets: "set (statements lc s') = set (statements lc s)"
    unfolding statements_alt set_sort_by
    using sub[of s' s] sub[of s s'] eq wf by (intro equalityI) simp_all
  have fstn: "map fst (statements lc a) = sort_by lc (map fst (imports_map a))" for a
    by (rule map_fst_statements)
  have dist: "distinct (map fst (statements lc a))" if "wf_Imports a" for a
    using that by (simp add: fstn distinct_sort_by wf_Imports_def)
  have srt: "sorted_wrt (\<lambda>a b. lc (fst a) (fst b) \<le> 0) (statements lc a)" for a
    using sorted_sort_by[OF lin, of "map fst (imports_map a)"]
    by (simp add: fstn[symmetric] sorted_wrt_map)
  show ?thesis
  proof (rule sorted_key_unique[OF lin, of fst])
    show "sorted_wrt (\<lambda>a b. lc (fst a) (fst b) \<le> 0) (statements lc s')" by (rule srt)
    show "sorted_wrt (\<lambda>a b. lc (fst a) (fst b) \<le> 0) (statements lc s)" by (rule srt)
    show "distinct (map fst (statements lc s'))" by (rule dist[OF wf(2)])
    show "distinct (map fst (statements lc s))" by (rule dist[OF wf(1)])
    show "set (statements lc s') = set (statements lc s)" by (rule sets)
  qed
qed

subsection \<open>Module paths and rendering\<close>

text \<open>
  C7. \<open>addLocal\<close> registers exactly what \<open>addGlobal\<close> registers for the module path given by
  the four-way rule: \<^verbatim>\<open>./file\<close> when the target folder is the file's own, \<^verbatim>\<open>../file\<close> when
  the target is the root, \<^verbatim>\<open>./target/file\<close> when the file's own folder is the root, and
  \<^verbatim>\<open>../target/file\<close> otherwise.
\<close>

theorem addLocal_four_way:
  "(target = folder s \<longrightarrow>
      addLocal s target file name d = addGlobal s (''./'' @ file) name d) \<and>
   (target \<noteq> folder s \<and> target = None \<longrightarrow>
      addLocal s target file name d = addGlobal s (''../'' @ file) name d) \<and>
   (target = Some t \<and> folder s = None \<longrightarrow>
      addLocal s target file name d = addGlobal s (''./'' @ folder_name t @ ''/'' @ file) name d) \<and>
   (target = Some t \<and> folder s = Some f \<and> t \<noteq> f \<longrightarrow>
      addLocal s target file name d = addGlobal s (''../'' @ folder_name t @ ''/'' @ file) name d)"
  by (cases target; cases "folder s") (simp_all add: addLocal_def relative_def)

theorem addLocal_four_way_witness:
  "addLocal (new_Imports (Some Model)) (Some Model) ''user'' ''User'' False
     = Inr \<lparr>imports_map = [(''./user'', \<lparr>def = None, named = [''User'']\<rparr>)], folder = Some Model\<rparr> \<and>
   addLocal (new_Imports (Some Model)) None ''type-utils'' ''opt'' False
     = Inr \<lparr>imports_map = [(''../type-utils'', \<lparr>def = None, named = [''opt'']\<rparr>)], folder = Some Model\<rparr> \<and>
   addLocal (new_Imports None) (Some Api) ''pets'' ''PetsApi'' False
     = Inr \<lparr>imports_map = [(''./api/pets'', \<lparr>def = None, named = [''PetsApi'']\<rparr>)], folder = None\<rparr> \<and>
   addLocal (new_Imports (Some Api)) (Some Model) ''user'' ''User'' False
     = Inr \<lparr>imports_map = [(''../model/user'', \<lparr>def = None, named = [''User'']\<rparr>)], folder = Some Api\<rparr>"
  using addLocal_four_way [of "Some Model" "new_Imports (Some Model)" "''user''" "''User''" False Model Model]
    addLocal_four_way [of None "new_Imports (Some Model)" "''type-utils''" "''opt''" False Model Model]
    addLocal_four_way [of "Some Api" "new_Imports None" "''pets''" "''PetsApi''" False Api Api]
    addLocal_four_way [of "Some Model" "new_Imports (Some Api)" "''user''" "''User''" False Model Api]
  by (simp add: new_Imports_def addGlobal_def set_add_def)

text \<open>
  C8. Given that the platform's comparison is a linear order, the text of \<open>toString\<close> is
  one import statement per registered module path, the module paths in ascending order,
  the named symbols of each statement in ascending order and as registered, a default
  import first as \<^verbatim>\<open>default as Alias\<close>; the text is a function of what the table holds:
  two tables that hold the same module paths, aliases and symbol sets render the same text,
  whatever the order of insertion was. The method writes nothing to the table, so a second
  call computes the same function of the same table.
\<close>

theorem toString_sorted_order_independent:
  assumes "linear_compare lc" and "wf_Imports s"
  shows "toString lc s =
           [CHR 0x0A, CHR 0x0A] @ concat (map import_statement (statements lc s)) @ [CHR 0x0A, CHR 0x0A] \<and>
         sorted_wrt (\<lambda>a b. lc a b \<le> 0) (map fst (statements lc s)) \<and>
         distinct (map fst (statements lc s)) \<and>
         set (map fst (statements lc s)) = fst ` set (imports_map s) \<and>
         list_all (\<lambda>(file, d, ns). sorted_wrt (\<lambda>a b. lc a b \<le> 0) ns \<and> distinct ns \<and>
                     (file, d, set ns) \<in> contents s) (statements lc s) \<and>
         (\<forall>file d ns. d \<noteq> [] \<longrightarrow>
            import_statement (file, Some d, ns) =
              ''import { default as '' @ d @ (if ns = [] then [] else '', '') @ join '', '' ns
                @ '' } from '' @ JSON_stringify file @ '';'') \<and>
         (\<forall>file ns.
            import_statement (file, None, ns) =
              ''import { '' @ join '', '' ns @ '' } from '' @ JSON_stringify file @ '';'') \<and>
         (\<forall>s'. wf_Imports s' \<and> contents s' = contents s \<longrightarrow> toString lc s' = toString lc s)"
proof -
  have keys: "map fst (statements lc s) = sort_by lc (map fst (imports_map s))"
    by (rule map_fst_statements)
  have "sorted_wrt (\<lambda>a b. lc a b \<le> 0) (map fst (statements lc s))"
    unfolding keys using assms(1) by (rule sorted_sort_by)
  moreover have "distinct (map fst (statements lc s))"
    unfolding keys using assms(2) by (simp add: distinct_sort_by wf_Imports_def)
  moreover have "set (map fst (statements lc s)) = fst ` set (imports_map s)"
    unfolding keys by (simp add: set_sort_by)
  moreover have "toString lc s' = toString lc s" if "wf_Imports s'" "contents s' = contents s" for s'
    using statements_order_independent[OF assms(1) assms(2) that] by (simp add: toString_def)
  moreover have "import_statement (fl, Some d, ns) =
        ''import { default as '' @ d @ (if ns = [] then [] else '', '') @ join '', '' ns
          @ '' } from '' @ JSON_stringify fl @ '';''" if "d \<noteq> []" for fl d ns
    using that by (simp add: import_statement_def)
  moreover have "import_statement (fl, None, ns) =
        ''import { '' @ join '', '' ns @ '' } from '' @ JSON_stringify fl @ '';''" for fl ns
    by (simp add: import_statement_def)
  ultimately show ?thesis
    using statements_entries[OF assms] by (simp add: toString_def)
qed

theorem toString_sorted_order_independent_witness:
  "toString codeUnitCompare
     \<lparr>imports_map = [(''bignumber.js'', \<lparr>def = Some ''BigNumber'', named = []\<rparr>),
                     (''express'', \<lparr>def = None, named = [''Express'', ''Response'']\<rparr>)],
      folder = Some Api\<rparr>
   = toString codeUnitCompare
       \<lparr>imports_map = [(''express'', \<lparr>def = None, named = [''Response'', ''Express'']\<rparr>),
                       (''bignumber.js'', \<lparr>def = Some ''BigNumber'', named = []\<rparr>)],
        folder = Some Api\<rparr> \<and>
   toString codeUnitCompare
     \<lparr>imports_map = [(''express'', \<lparr>def = None, named = [''Response'', ''Express'']\<rparr>),
                     (''bignumber.js'', \<lparr>def = Some ''BigNumber'', named = []\<rparr>)],
      folder = Some Api\<rparr>
   = [CHR 0x0A, CHR 0x0A] @ ''import { default as BigNumber } from '' @ dquote ''bignumber.js''
       @ '';import { Express, Response } from '' @ dquote ''express'' @ '';'' @ [CHR 0x0A, CHR 0x0A]"
proof -
  let ?s = "\<lparr>imports_map = [(''express'', \<lparr>def = None, named = [''Response'', ''Express'']\<rparr>),
                     (''bignumber.js'', \<lparr>def = Some ''BigNumber'', named = []\<rparr>)],
      folder = Some Api\<rparr>"
  let ?s' = "\<lparr>imports_map = [(''bignumber.js'', \<lparr>def = Some ''BigNumber'', named = []\<rparr>),
                     (''express'', \<lparr>def = None, named = [''Express'', ''Response'']\<rparr>)],
      folder = Some Api\<rparr>"
  have wf: "wf_Imports ?s" and wf': "wf_Imports ?s'"
    by (simp_all add: wf_Imports_def)
  have eq: "contents ?s' = contents ?s"
    by (auto simp: contents_def)
  have "toString codeUnitCompare ?s' = toString codeUnitCompare ?s"
    using toString_sorted_order_independent[OF linear_codeUnitCompare wf] wf' eq by blast
  moreover have "toString codeUnitCompare ?s
      = [CHR 0x0A, CHR 0x0A] @ ''import { default as BigNumber } from '' @ dquote ''bignumber.js''
       @ '';import { Express, Response } from '' @ dquote ''express'' @ '';'' @ [CHR 0x0A, CHR 0x0A]"
    by (simp add: toString_def statements_def sort_by_def codeUnitCompare_def import_statement_def
        JSON_stringify_def json_escape_def dquote_def)
  ultimately show ?thesis by simp
qed

section \<open>Properties of the Runtime Type Resolver\<close>

subsection \<open>References and strings\<close>

lemma bindE_Inr_iff: "bindE m f = Inr y \<longleftrightarrow> (\<exists>x. m = Inr x \<and> f x = Inr y)"
  by (cases m) (simp_all add: bindE_def)

lemma bindE_Inl_iff: "bindE m f = Inl e \<longleftrightarrow> (m = Inl e \<or> (\<exists>x. m = Inr x \<and> f x = Inl e))"
  by (cases m) (simp_all add: bindE_def)

lemma bindE_simps [simp]: "bindE (Inl e) f = Inl e" "bindE (Inr x) f = f x"
  by (simp_all add: bindE_def)

lemma addLocal_named: "\<exists>s'. addLocal s target file name False = Inr s'"
  by (simp add: addLocal_def addGlobal_named)

lemma addValidate_ok: "\<exists>s'. addValidate s name = Inr s'"
  by (simp add: addValidate_def addLocal_named)

lemma getRuntimeType_ref:
  "ref s = Some r \<Longrightarrow> getRuntimeType enumTypes s imp context = reference_type enumTypes s imp context"
  by (subst getRuntimeType.simps) simp

lemma enum_gen_ok: "\<exists>imp3. enum_gen ident imp2 = Inr (''testOneOf(values'' @ upperCamel ident @ '')'', imp3)"
proof -
  obtain a where a: "addValidate imp2 ''testOneOf'' = Inr a"
    using addValidate_ok by blast
  obtain b where b: "addLocal a (Some Model) (kebab ident) (''values'' @ upperCamel ident) False = Inr b"
    using addLocal_named by blast
  show ?thesis using a b by (simp add: enum_gen_def)
qed

lemma reference_type_Inr:
  assumes "reference_type enumTypes s imp context = Inr (d, imp1)" and "ref s = Some r"
  shows "\<exists>name ident. props_without [''$ref''] s = [] \<and> match_ref r = Some name \<and> fromCamel name = Inr ident \<and>
           addLocal imp (Some Model) (kebab ident) (upperCamel ident) False = Inr imp1 \<and>
           d = (if upperCamel ident \<in> set enumTypes then
                  \<lparr>typeName = upperCamel ident, fromJson = enum_gen ident,
                   fromJsonParam = enum_gen ident, toJson = enum_gen ident\<rparr>
                else
                  \<lparr>typeName = upperCamel ident, fromJson = model_gen ''test'' ident,
                   fromJsonParam = (\<lambda>imp. Inl (UnexpectedReferenceParameter context)),
                   toJson = model_gen ''print'' ident\<rparr>)"
  using assms
  by (auto simp: reference_type_def bindE_Inr_iff split: if_splits option.splits)

lemma dropWhile_word: "is_word n \<Longrightarrow> dropWhile is_space n = n"
  by (cases n) (auto simp: is_word_def is_word_char_def is_space_def is_upper_def is_lower_def is_digit_def)

lemma is_word_rev: "is_word n \<Longrightarrow> is_word (rev n)"
  by (simp add: is_word_def list_all_iff)

lemma trim_word: "is_word n \<Longrightarrow> trim n = n"
  by (simp add: trim_def dropWhile_word is_word_rev)

lemma split_camel_nonempty: "s \<noteq> [] \<Longrightarrow> split_camel s \<noteq> [] \<and> [] \<notin> set (split_camel s)"
  by (induction s rule: split_camel.induct) (auto split: list.splits)

lemma identifier_loop_ok: "[] \<notin> set ws \<Longrightarrow> \<exists>ident. identifier_loop ws i acc = Inr ident"
proof (induction ws arbitrary: i acc)
  case Nil
  then show ?case by simp
next
  case (Cons w ws)
  then obtain c cs where w: "w = c # cs" by (cases w) auto
  have "\<exists>capital. capitalize (toLowerCase w) = Inr capital"
    by (simp add: w toLowerCase_def)
  then show ?case using Cons by (auto simp: Let_def)
qed

lemma fromCamel_word: "is_word n \<Longrightarrow> \<exists>ident. fromCamel n = Inr ident"
  using identifier_loop_ok split_camel_nonempty[of n]
  by (auto simp: fromCamel_def new_Identifier_def trim_word is_word_def)

lemma match_ref_word: "match_ref r = Some name \<Longrightarrow> is_word name"
  by (auto simp: match_ref_def Let_def split: if_splits)

lemma reference_type_ok:
  assumes "ref s = Some r" and "match_ref r = Some name" and "props_without [''$ref''] s = []"
  shows "\<exists>d imp1. reference_type enumTypes s imp context = Inr (d, imp1)"
proof -
  obtain ident where i: "fromCamel name = Inr ident"
    using fromCamel_word match_ref_word[OF assms(2)] by blast
  obtain imp1 where a: "addLocal imp (Some Model) (kebab ident) (upperCamel ident) False = Inr imp1"
    using addLocal_named by blast
  show ?thesis using assms i a by (simp add: reference_type_def)
qed

text \<open>
  C6. For a reference to a schema registered as a string enum, \<open>fromJson\<close> and \<open>toJson\<close> of
  the descriptor are one and the same closure, and called on any table both return the
  expression \<^verbatim>\<open>testOneOf(values<Name>)\<close> and leave the same table.
\<close>

theorem enum_reference_symmetric:
  assumes "ref s = Some r" and "match_ref r = Some name" and "props_without [''$ref''] s = []"
    and "fromCamel name = Inr ident" and "upperCamel ident \<in> set enumTypes"
  shows "\<exists>d imp1. getRuntimeType enumTypes s imp context = Inr (d, imp1) \<and>
           typeName d = upperCamel ident \<and>
           fromJson d = toJson d \<and>
           (\<forall>imp2. \<exists>imp3.
              fromJson d imp2 = Inr (''testOneOf(values'' @ upperCamel ident @ '')'', imp3) \<and>
              toJson d imp2 = Inr (''testOneOf(values'' @ upperCamel ident @ '')'', imp3))"
proof -
  obtain d imp1 where r: "reference_type enumTypes s imp context = Inr (d, imp1)"
    using reference_type_ok[OF assms(1-3)] by blast
  from reference_type_Inr[OF r assms(1)] assms(2,4,5)
  have d: "d = \<lparr>typeName = upperCamel ident, fromJson = enum_gen ident,
                 fromJsonParam = enum_gen ident, toJson = enum_gen ident\<rparr>"
    by auto
  have "\<forall>imp2. \<exists>imp3.
              fromJson d imp2 = Inr (''testOneOf(values'' @ upperCamel ident @ '')'', imp3) \<and>
              toJson d imp2 = Inr (''testOneOf(values'' @ upperCamel ident @ '')'', imp3)"
    using enum_gen_ok[of ident] by (simp add: d)
  then show ?thesis
    using r assms(1) d by (simp add: getRuntimeType_ref)
qed

theorem enum_reference_symmetric_witness:
  "bindE (getRuntimeType [''Status'']
            (Schema (Some ''#/components/schemas/Status'') None None None None None None None None [])
            (new_Imports (Some Model)) ''Pet.status'')
         (\<lambda>(d, imp1). toJson d imp1)
   = bindE (getRuntimeType [''Status'']
            (Schema (Some ''#/components/schemas/Status'') None None None None None None None None [])
            (new_Imports (Some Model)) ''Pet.status'')
         (\<lambda>(d, imp1). fromJson d imp1)"
proof -
  let ?s = "Schema (Some ''#/components/schemas/Status'') None None None None None None None None []"
  let ?ident = "\<lparr>lowerCamel = ''status'', upperCamel = ''Status'', display = ''Status'', kebab = ''status''\<rparr>"
  have m: "match_ref ''#/components/schemas/Status'' = Some ''Status''"
    by code_simp
  have p: "props_without [''$ref''] ?s = []"
    by code_simp
  have c: "fromCamel ''Status'' = Inr ?ident"
    by code_simp
  obtain d imp1 where "getRuntimeType [''Status''] ?s (new_Imports (Some Model)) ''Pet.status'' = Inr (d, imp1)"
    and "fromJson d = toJson d"
    using enum_reference_symmetric[of ?s _ _ ?ident "[''Status'']" "new_Imports (Some Model)" "''Pet.status''", OF _ m p c]
    by auto
  then show ?thesis by simp
qed

lemma getRuntimeType_string:
  "ref s = None \<Longrightarrow> oneOf s = None \<Longrightarrow> type s = Some ''string'' \<Longrightarrow>
   getRuntimeType enumTypes s imp context = string_type s imp context"
  by (subst getRuntimeType.simps) simp

text \<open>
  C10. A string schema whose format is absent, \<^verbatim>\<open>email\<close>, \<^verbatim>\<open>password\<close> or \<^verbatim>\<open>uuid\<close>,
  and which has no key besides \<^verbatim>\<open>type\<close>, \<^verbatim>\<open>description\<close>, \<^verbatim>\<open>format\<close>, \<^verbatim>\<open>minLength\<close>
  and \<^verbatim>\<open>maxLength\<close>, resolves to a descriptor whatever the two lengths are, and leaves the
  table as it was. The three methods of the descriptor are the same closure. Called, it
  throws an error that names the context when \<^verbatim>\<open>minLength\<close> is 0, when \<^verbatim>\<open>maxLength\<close> is
  0, and when the format is \<^verbatim>\<open>uuid\<close> and a length is given.
\<close>

theorem string_checks_deferred:
  assumes "ref s = None" and "oneOf s = None" and "type s = Some ''string''"
    and "format s = None \<or> format s = Some ''email'' \<or> format s = Some ''password''
          \<or> format s = Some ''uuid''"
    and "props_without [''description'', ''type'', ''format'', ''minLength'', ''maxLength''] s = []"
  shows "\<exists>d. getRuntimeType enumTypes s imp context = Inr (d, imp) \<and>
           typeName d = ''string'' \<and> fromJsonParam d = fromJson d \<and> toJson d = fromJson d \<and>
           (minLength s = Some 0 \<longrightarrow>
              (\<forall>imp2. fromJson d imp2 = Inl (UnexpectedMinLength0 context))) \<and>
           (minLength s \<noteq> Some 0 \<and> maxLength s = Some 0 \<longrightarrow>
              (\<forall>imp2. fromJson d imp2 = Inl (UnexpectedMaxLength0 context))) \<and>
           (format s = Some ''uuid'' \<and> minLength s \<noteq> None \<and> minLength s \<noteq> Some 0
              \<and> maxLength s \<noteq> Some 0 \<longrightarrow>
              (\<forall>imp2. fromJson d imp2 = Inl (UnexpectedMinLengthOfUUID context))) \<and>
           (format s = Some ''uuid'' \<and> minLength s = None \<and> maxLength s \<noteq> None
              \<and> maxLength s \<noteq> Some 0 \<longrightarrow>
              (\<forall>imp2. fromJson d imp2 = Inl (UnexpectedMaxLengthOfUUID context)))"
proof -
  let ?g = "string_gen context (format s) (minLength s) (maxLength s)"
  let ?d = "\<lparr>typeName = ''string'', fromJson = ?g, fromJsonParam = ?g, toJson = ?g\<rparr>"
  have g: "getRuntimeType enumTypes s imp context = Inr (?d, imp)"
    using assms by (simp add: getRuntimeType_string string_type_def)
  have min0: "?g imp2 = Inl (UnexpectedMinLength0 context)" if "minLength s = Some 0" for imp2
    using that by (simp add: string_gen_def)
  have max0: "?g imp2 = Inl (UnexpectedMaxLength0 context)"
    if "minLength s \<noteq> Some 0" "maxLength s = Some 0" for imp2
    using that by (simp add: string_gen_def)
  have len: "\<exists>imp1. addValidate imp2 ''testStringLength'' = Inr imp1" for imp2
    by (rule addValidate_ok)
  have umin: "?g imp2 = Inl (UnexpectedMinLengthOfUUID context)"
    if "format s = Some ''uuid''" "minLength s \<noteq> None" "minLength s \<noteq> Some 0" "maxLength s \<noteq> Some 0"
    for imp2
    using that len[of imp2] by (auto simp: string_gen_def truthy_def)
  have umax: "?g imp2 = Inl (UnexpectedMaxLengthOfUUID context)"
    if "format s = Some ''uuid''" "minLength s = None" "maxLength s \<noteq> None" "maxLength s \<noteq> Some 0"
    for imp2
    using that len[of imp2] by (auto simp: string_gen_def truthy_def)
  show ?thesis
    using g min0 max0 umin umax by simp
qed

theorem string_checks_deferred_witness:
  "bindE (getRuntimeType []
            (Schema None None (Some ''string'') (Some ''uuid'') (Some 0) None None None (Some ''An id.'') [])
            (new_Imports (Some Model)) ''Pet.id'')
         (\<lambda>(d, imp1). Inr (typeName d, fromJson d imp1))
     = Inr (''string'', Inl (UnexpectedMinLength0 ''Pet.id''))"
proof -
  let ?s = "Schema None None (Some ''string'') (Some ''uuid'') (Some 0) None None None (Some ''An id.'') []"
  have p: "props_without [''description'', ''type'', ''format'', ''minLength'', ''maxLength''] ?s = []"
    by code_simp
  obtain d where "getRuntimeType [] ?s (new_Imports (Some Model)) ''Pet.id'' = Inr (d, new_Imports (Some Model))"
    and "typeName d = ''string''"
    and "\<forall>imp2. fromJson d imp2 = Inl (UnexpectedMinLength0 ''Pet.id'')"
    using string_checks_deferred[of ?s "[]" "new_Imports (Some Model)" "''Pet.id''", OF _ _ _ _ p]
    by auto
  then show ?thesis by simp
qed

subsection \<open>Where errors arise\<close>

lemma validate_gen_ok: "\<exists>imp1. validate_gen name imp = Inr (name, imp1)"
  using addValidate_ok[of imp name] by (auto simp: validate_gen_def)

lemma model_gen_ok: "\<exists>t imp1. model_gen prefix ident imp = Inr (t, imp1)"
  using addLocal_named[of imp "Some Model" "kebab ident" "prefix @ upperCamel ident"]
  by (auto simp: model_gen_def Let_def)

lemma date_toJson_ok: "\<exists>imp1. date_toJson t imp = Inr (t, imp1)"
proof -
  obtain a where a: "addValidate imp ''and'' = Inr a" using addValidate_ok by blast
  obtain b where b: "addValidate a ''success'' = Inr b" using addValidate_ok by blast
  obtain c where c: "addValidate b ''testType'' = Inr c" using addValidate_ok by blast
  show ?thesis using a b c by (simp add: date_toJson_def)
qed

lemma capitalize_error: "capitalize w = Inl e \<Longrightarrow> error_context e = None"
  by (cases w) auto

lemma identifier_loop_error: "identifier_loop ws i acc = Inl e \<Longrightarrow> error_context e = None"
  by (induction ws arbitrary: i acc) (auto simp: Let_def bindE_Inl_iff dest: capitalize_error)

lemma fromCamel_error: "fromCamel n = Inl e \<Longrightarrow> error_context e = None"
  by (auto simp: fromCamel_def new_Identifier_def dest: identifier_loop_error)

lemma addGlobal_error: "addGlobal s file name d = Inl e \<Longrightarrow> e = DefaultImportAlreadySpecified"
  by (auto simp: addGlobal_def Let_def split: if_splits)

lemma addLocal_named_error: "addLocal s t fl name False \<noteq> Inl e"
  using addLocal_named[of s t fl name] by auto

lemma reference_type_error:
  "reference_type enumTypes s imp c = Inl e \<Longrightarrow> error_context e = Some c' \<Longrightarrow> c' = c"
  by (auto simp: reference_type_def bindE_Inl_iff addLocal_named_error
      split: if_splits option.splits dest: fromCamel_error)

lemma DATE_error: "DATE imp = Inl e \<Longrightarrow> error_context e = None"
  by (auto simp: DATE_def bindE_Inl_iff dest: addGlobal_error)

lemma DATE_TIME_error: "DATE_TIME imp = Inl e \<Longrightarrow> error_context e = None"
  by (auto simp: DATE_TIME_def bindE_Inl_iff dest: addGlobal_error)

lemma string_type_error:
  "string_type s imp c = Inl e \<Longrightarrow> error_context e = Some c' \<Longrightarrow> c' = c"
  by (auto simp: string_type_def Let_def split: if_splits dest: DATE_error DATE_TIME_error)

lemma boolean_type_error:
  "boolean_type s imp c = Inl e \<Longrightarrow> error_context e = Some c' \<Longrightarrow> c' = c"
  by (auto simp: boolean_type_def BOOLEAN_def Let_def split: if_splits)

lemma number_type_error:
  "number_type s imp c = Inl e \<Longrightarrow> error_context e = Some c' \<Longrightarrow> c' = c"
  by (auto simp: number_type_def Let_def BIG_INTEGER_def BIG_NUMBER_def INTEGER_def NUMBER_def
      bindE_Inl_iff split: if_splits dest: addGlobal_error)

text \<open>An error of the resolver is the node's own, or the error of one recursive call.\<close>

lemma getRuntimeType_Inl_cases:
  assumes "getRuntimeType enumTypes s imp c = Inl e"
  shows "(\<forall>c'. error_context e = Some c' \<longrightarrow> c' = c) \<or>
         (\<exists>branches. oneOf s = Some branches \<and> getRuntimeTypes enumTypes branches 0 imp c = Inl e) \<or>
         (\<exists>a. additionalProperties s = Some (Inr a) \<and>
              getRuntimeType enumTypes a imp (c @ ''.additionalProperties'') = Inl e) \<or>
         (\<exists>a. items s = Some a \<and> getRuntimeType enumTypes a imp (c @ ''.items'') = Inl e)"
proof (cases "ref s \<noteq> None")
  case True
  then have "reference_type enumTypes s imp c = Inl e"
    using assms by (subst (asm) getRuntimeType.simps) simp
  then show ?thesis using reference_type_error by blast
next
  case noref: False
  show ?thesis
  proof (cases "oneOf s")
    case (Some branches)
    then show ?thesis
      using assms noref
      by (subst (asm) getRuntimeType.simps) (auto simp: bindE_Inl_iff split: if_splits)
  next
    case None
    consider (str) "type s = Some ''string''" | (bool) "type s = Some ''boolean''"
      | (num) "type s = Some ''integer'' \<or> type s = Some ''number''"
      | (obj) "type s = Some ''object''" | (arr) "type s = Some ''array''"
      | (other) "type s \<noteq> Some ''string''" "type s \<noteq> Some ''boolean''" "type s \<noteq> Some ''integer''"
          "type s \<noteq> Some ''number''" "type s \<noteq> Some ''object''" "type s \<noteq> Some ''array''"
      by blast
    then show ?thesis
    proof cases
      case str
      then have "string_type s imp c = Inl e"
        using assms noref None by (subst (asm) getRuntimeType.simps) simp
      then show ?thesis using string_type_error by blast
    next
      case bool
      then have "boolean_type s imp c = Inl e"
        using assms noref None by (subst (asm) getRuntimeType.simps) simp
      then show ?thesis using boolean_type_error by blast
    next
      case num
      then have "number_type s imp c = Inl e"
        using assms noref None by (subst (asm) getRuntimeType.simps) auto
      then show ?thesis using number_type_error by blast
    next
      case obj
      then show ?thesis
        using assms noref None
        by (subst (asm) getRuntimeType.simps)
           (auto simp: Let_def bindE_Inl_iff split: if_splits option.splits sum.splits)
    next
      case arr
      then show ?thesis
        using assms noref None
        by (subst (asm) getRuntimeType.simps)
           (auto simp: Let_def bindE_Inl_iff split: if_splits option.splits)
    next
      case other
      then show ?thesis
        using assms noref None
        by (subst (asm) getRuntimeType.simps) auto
    qed
  qed
qed

lemma getRuntimeTypes_Inl:
  "getRuntimeTypes enumTypes xs i imp c = Inl e \<Longrightarrow>
   \<exists>j < length xs. \<exists>imp'.
     getRuntimeType enumTypes (xs ! j) imp' (c @ ''.oneOf['' @ show_nat (i + j) @ '']'') = Inl e"
proof (induction xs arbitrary: i imp)
  case Nil
  then show ?case by simp
next
  case (Cons x xs)
  from Cons.prems consider
    (here) "getRuntimeType enumTypes x imp (c @ ''.oneOf['' @ show_nat i @ '']'') = Inl e"
    | (later) imp1 where "getRuntimeTypes enumTypes xs (i + 1) imp1 c = Inl e"
    by (auto simp: bindE_Inl_iff)
  then show ?case
  proof cases
    case here
    then have "getRuntimeType enumTypes ((x # xs) ! 0) imp (c @ ''.oneOf['' @ show_nat (i + 0) @ '']'') = Inl e"
      by simp
    then show ?thesis by blast
  next
    case later
    from Cons.IH[OF later] obtain j imp' where j: "j < length xs"
      and g: "getRuntimeType enumTypes (xs ! j) imp' (c @ ''.oneOf['' @ show_nat (i + 1 + j) @ '']'') = Inl e"
      by blast
    have "getRuntimeType enumTypes ((x # xs) ! Suc j) imp' (c @ ''.oneOf['' @ show_nat (i + Suc j) @ '']'') = Inl e"
      using g by simp
    moreover have "Suc j < length (x # xs)" using j by simp
    ultimately show ?thesis by blast
  qed
qed

lemma subschema_child:
  "child s g = Some a \<Longrightarrow> subschema a p = Some n \<Longrightarrow> subschema s (g # p) = Some n"
  by simp

lemma path_text_Cons: "c @ path_text (g # p) = (c @ segment_text g) @ path_text p"
  by (simp add: path_text_def)

lemma resolution_error_located:
  "getRuntimeType enumTypes s imp c = Inl e \<Longrightarrow>
   \<exists>p n imp'. subschema s p = Some n \<and>
     getRuntimeType enumTypes n imp' (c @ path_text p) = Inl e \<and>
     (\<forall>c'. error_context e = Some c' \<longrightarrow> c' = c @ path_text p)"
proof (induction "size s" arbitrary: s imp c rule: less_induct)
  case less
  have step: "\<exists>p n imp'. subschema s p = Some n \<and>
       getRuntimeType enumTypes n imp' (c @ path_text p) = Inl e \<and>
       (\<forall>c'. error_context e = Some c' \<longrightarrow> c' = c @ path_text p)"
    if ch: "child s g = Some a" and sz: "size a < size s"
      and err: "getRuntimeType enumTypes a imp1 (c @ segment_text g) = Inl e" for g a imp1
  proof -
    from less.hyps[OF sz err] obtain p n imp' where
      "subschema a p = Some n"
      "getRuntimeType enumTypes n imp' ((c @ segment_text g) @ path_text p) = Inl e"
      "\<forall>c'. error_context e = Some c' \<longrightarrow> c' = (c @ segment_text g) @ path_text p"
      by blast
    then have "subschema s (g # p) = Some n \<and>
       getRuntimeType enumTypes n imp' (c @ path_text (g # p)) = Inl e \<and>
       (\<forall>c'. error_context e = Some c' \<longrightarrow> c' = c @ path_text (g # p))"
      using ch by (simp only: path_text_Cons subschema_child simp_thms)
    then show ?thesis by blast
  qed
  from getRuntimeType_Inl_cases[OF less.prems] consider
    (own) "\<forall>c'. error_context e = Some c' \<longrightarrow> c' = c"
    | (union) branches where "oneOf s = Some branches" "getRuntimeTypes enumTypes branches 0 imp c = Inl e"
    | (map) a where "additionalProperties s = Some (Inr a)"
        "getRuntimeType enumTypes a imp (c @ ''.additionalProperties'') = Inl e"
    | (array) a where "items s = Some a" "getRuntimeType enumTypes a imp (c @ ''.items'') = Inl e"
    by blast
  then show ?case
  proof cases
    case own
    have "subschema s [] = Some s \<and> getRuntimeType enumTypes s imp (c @ path_text []) = Inl e \<and>
          (\<forall>c'. error_context e = Some c' \<longrightarrow> c' = c @ path_text [])"
      using own less.prems by (simp add: path_text_def)
    then show ?thesis by blast
  next
    case union
    from getRuntimeTypes_Inl[OF union(2)] obtain j imp' where j: "j < length branches"
      and g: "getRuntimeType enumTypes (branches ! j) imp' (c @ ''.oneOf['' @ show_nat j @ '']'') = Inl e"
      by auto
    have "branches ! j \<in> set branches" using j by simp
    then have "size (branches ! j) \<le> size_list size branches"
      by (rule size_list_estimation') simp
    then have sz: "size (branches ! j) < size s"
      using size_oneOf[OF union(1)] by simp
    have "child s (OneOf j) = Some (branches ! j)" using union(1) j by simp
    moreover note sz
    moreover have "getRuntimeType enumTypes (branches ! j) imp' (c @ segment_text (OneOf j)) = Inl e"
      using g by simp
    ultimately show ?thesis by (rule step)
  next
    case map
    have "child s AdditionalProperties = Some a" using map(1) by simp
    moreover have "size a < size s" using map(1) by (rule size_additionalProperties)
    moreover have "getRuntimeType enumTypes a imp (c @ segment_text AdditionalProperties) = Inl e"
      using map(2) by simp
    ultimately show ?thesis by (rule step)
  next
    case array
    have "child s Items = Some a" using array(1) by simp
    moreover have "size a < size s" using array(1) by (rule size_items)
    moreover have "getRuntimeType enumTypes a imp (c @ segment_text Items) = Inl e"
      using array(2) by simp
    ultimately show ?thesis by (rule step)
  qed
qed

lemma seq_gen_Inl:
  "seq_gen gs imp = Inl e \<Longrightarrow> \<exists>j < length gs. \<exists>imp'. (gs ! j) imp' = Inl e"
proof (induction gs arbitrary: imp)
  case Nil
  then show ?case by simp
next
  case (Cons g gs)
  from Cons.prems consider (here) "g imp = Inl e" | (later) imp1 where "seq_gen gs imp1 = Inl e"
    by (auto simp: bindE_Inl_iff)
  then show ?case
  proof cases
    case here
    then have "((g # gs) ! 0) imp = Inl e" by simp
    then show ?thesis by blast
  next
    case later
    from Cons.IH[OF later] obtain j imp' where "j < length gs" "(gs ! j) imp' = Inl e"
      by blast
    then have "Suc j < length (g # gs)" "((g # gs) ! Suc j) imp' = Inl e" by simp_all
    then show ?thesis by blast
  qed
qed

lemma or_gen_Inl:
  assumes "or_gen gs imp = Inl e"
  shows "\<exists>j < length gs. \<exists>imp'. (gs ! j) imp' = Inl e"
proof -
  obtain imp1 where "addValidate imp ''or'' = Inr imp1"
    using addValidate_ok by blast
  then have "seq_gen gs imp1 = Inl e"
    using assms by (auto simp: or_gen_def bindE_Inl_iff)
  then show ?thesis by (rule seq_gen_Inl)
qed

lemma wrap_gen_Inl:
  assumes "wrap_gen helper inner imp = Inl e"
  shows "\<exists>imp'. inner imp' = Inl e"
proof -
  obtain imp1 where "addValidate imp helper = Inr imp1"
    using addValidate_ok by blast
  then have "inner imp1 = Inl e"
    using assms by (auto simp: wrap_gen_def bindE_Inl_iff)
  then show ?thesis by blast
qed

lemma addValidate_not_Inl: "addValidate imp name \<noteq> Inl e"
  using addValidate_ok[of imp name] by auto

lemma validate_gen_not_Inl: "validate_gen name imp \<noteq> Inl e"
  using validate_gen_ok[of name imp] by auto

lemma model_gen_not_Inl: "model_gen prefix ident imp \<noteq> Inl e"
  using model_gen_ok[of prefix ident imp] by auto

lemma enum_gen_not_Inl: "enum_gen ident imp \<noteq> Inl e"
  using enum_gen_ok[of ident imp] by auto

lemma date_toJson_not_Inl: "date_toJson t imp \<noteq> Inl e"
  using date_toJson_ok[of t imp] by auto

lemma string_gen_Inl:
  "string_gen c fmt mn mx imp = Inl e \<Longrightarrow> error_context e = Some c"
  by (auto simp: string_gen_def bindE_Inl_iff addValidate_not_Inl split: if_splits)

lemma reference_type_throws:
  "reference_type enumTypes s imp c = Inr (d, imp1) \<Longrightarrow> descriptor_throws d e \<Longrightarrow>
   error_context e = Some c"
  by (auto simp: reference_type_def bindE_Inr_iff descriptor_throws_def enum_gen_not_Inl
      model_gen_not_Inl split: if_splits option.splits)

lemma string_type_throws:
  "string_type s imp c = Inr (d, imp1) \<Longrightarrow> descriptor_throws d e \<Longrightarrow> error_context e = Some c"
  by (auto simp: string_type_def Let_def DATE_def DATE_TIME_def bindE_Inr_iff descriptor_throws_def
      validate_gen_not_Inl date_toJson_not_Inl split: if_splits dest: string_gen_Inl)

lemma boolean_type_throws:
  "boolean_type s imp c = Inr (d, imp1) \<Longrightarrow> descriptor_throws d e \<Longrightarrow> error_context e = Some c"
  by (auto simp: boolean_type_def Let_def BOOLEAN_def descriptor_throws_def validate_gen_not_Inl
      split: if_splits)

lemma number_type_throws:
  "number_type s imp c = Inr (d, imp1) \<Longrightarrow> descriptor_throws d e \<Longrightarrow> error_context e = Some c"
  by (auto simp: number_type_def Let_def NUMBER_def INTEGER_def BIG_NUMBER_def BIG_INTEGER_def
      bindE_Inr_iff descriptor_throws_def validate_gen_not_Inl split: if_splits)

lemma map_type_throws:
  "descriptor_throws (map_type c inner) e \<Longrightarrow> error_context e = Some c \<or> descriptor_throws inner e"
  by (auto simp: map_type_def descriptor_throws_def dest: wrap_gen_Inl)

lemma array_type_throws:
  "descriptor_throws (array_type inner) e \<Longrightarrow> descriptor_throws inner e"
  by (auto simp: array_type_def descriptor_throws_def dest: wrap_gen_Inl)

lemma oneOf_type_throws:
  assumes "descriptor_throws (oneOf_type inner) e"
  shows "\<exists>j < length inner. descriptor_throws (inner ! j) e"
proof -
  from assms obtain imp where
    "or_gen (map fromJson inner) imp = Inl e \<or> or_gen (map fromJsonParam inner) imp = Inl e
      \<or> or_gen (map toJson inner) imp = Inl e"
    by (auto simp: oneOf_type_def descriptor_throws_def)
  then consider (a) "or_gen (map fromJson inner) imp = Inl e"
    | (b) "or_gen (map fromJsonParam inner) imp = Inl e"
    | (c) "or_gen (map toJson inner) imp = Inl e"
    by blast
  then show ?thesis
  proof cases
    case a
    from or_gen_Inl[OF a] show ?thesis unfolding descriptor_throws_def by fastforce
  next
    case b
    from or_gen_Inl[OF b] show ?thesis unfolding descriptor_throws_def by fastforce
  next
    case c
    from or_gen_Inl[OF c] show ?thesis unfolding descriptor_throws_def by fastforce
  qed
qed

lemma getRuntimeTypes_Inr:
  "getRuntimeTypes enumTypes xs i imp c = Inr (ds, imp1) \<Longrightarrow>
   length ds = length xs \<and>
   (\<forall>j < length xs. \<exists>imp' imp''.
      getRuntimeType enumTypes (xs ! j) imp' (c @ ''.oneOf['' @ show_nat (i + j) @ '']'')
        = Inr (ds ! j, imp''))"
proof (induction xs arbitrary: i imp ds)
  case Nil
  then show ?case by simp
next
  case (Cons x xs)
  from Cons.prems obtain d impa ds' where
    x: "getRuntimeType enumTypes x imp (c @ ''.oneOf['' @ show_nat i @ '']'') = Inr (d, impa)"
    and rest: "getRuntimeTypes enumTypes xs (i + 1) impa c = Inr (ds', imp1)"
    and ds: "ds = d # ds'"
    by (auto simp: bindE_Inr_iff)
  from Cons.IH[OF rest] have len: "length ds' = length xs"
    and ih: "\<And>j. j < length xs \<Longrightarrow> \<exists>imp' imp''.
      getRuntimeType enumTypes (xs ! j) imp' (c @ ''.oneOf['' @ show_nat (i + 1 + j) @ '']'')
        = Inr (ds' ! j, imp'')"
    by blast+
  have "\<exists>imp' imp''.
      getRuntimeType enumTypes ((x # xs) ! j) imp' (c @ ''.oneOf['' @ show_nat (i + j) @ '']'')
        = Inr (ds ! j, imp'')" if "j < length (x # xs)" for j
  proof (cases j)
    case 0
    then show ?thesis using x ds by auto
  next
    case (Suc k)
    then have "k < length xs" using that by simp
    from ih[OF this] show ?thesis using Suc ds by simp
  qed
  then show ?case using len ds by simp
qed

text \<open>An error of a descriptor is the node's own, or the error of a child's descriptor.\<close>

lemma getRuntimeType_Inr_cases:
  assumes "getRuntimeType enumTypes s imp c = Inr (d, imp1)" and "descriptor_throws d e"
  shows "error_context e = Some c \<or>
         (\<exists>branches inner imp0. oneOf s = Some branches \<and>
            getRuntimeTypes enumTypes branches 0 imp c = Inr (inner, imp0) \<and>
            (\<exists>j < length inner. descriptor_throws (inner ! j) e)) \<or>
         (\<exists>a inner imp0. additionalProperties s = Some (Inr a) \<and>
            getRuntimeType enumTypes a imp (c @ ''.additionalProperties'') = Inr (inner, imp0) \<and>
            descriptor_throws inner e) \<or>
         (\<exists>a inner imp0. items s = Some a \<and>
            getRuntimeType enumTypes a imp (c @ ''.items'') = Inr (inner, imp0) \<and>
            descriptor_throws inner e)"
proof (cases "ref s \<noteq> None")
  case True
  then have "reference_type enumTypes s imp c = Inr (d, imp1)"
    using assms(1) by (subst (asm) getRuntimeType.simps) simp
  then show ?thesis using reference_type_throws assms(2) by blast
next
  case noref: False
  show ?thesis
  proof (cases "oneOf s")
    case (Some branches)
    then obtain inner where "getRuntimeTypes enumTypes branches 0 imp c = Inr (inner, imp1)"
      and "d = oneOf_type inner"
      using assms(1) noref
      by (subst (asm) getRuntimeType.simps) (auto simp: bindE_Inr_iff split: if_splits)
    then show ?thesis using oneOf_type_throws[of inner e] assms(2) Some by auto
  next
    case None
    consider (str) "type s = Some ''string''" | (bool) "type s = Some ''boolean''"
      | (num) "type s = Some ''integer'' \<or> type s = Some ''number''"
      | (obj) "type s = Some ''object''" | (arr) "type s = Some ''array''"
      | (other) "type s \<noteq> Some ''string''" "type s \<noteq> Some ''boolean''" "type s \<noteq> Some ''integer''"
          "type s \<noteq> Some ''number''" "type s \<noteq> Some ''object''" "type s \<noteq> Some ''array''"
      by blast
    then show ?thesis
    proof cases
      case str
      then have "string_type s imp c = Inr (d, imp1)"
        using assms(1) noref None by (subst (asm) getRuntimeType.simps) simp
      then show ?thesis using string_type_throws assms(2) by blast
    next
      case bool
      then have "boolean_type s imp c = Inr (d, imp1)"
        using assms(1) noref None by (subst (asm) getRuntimeType.simps) simp
      then show ?thesis using boolean_type_throws assms(2) by blast
    next
      case num
      then have "number_type s imp c = Inr (d, imp1)"
        using assms(1) noref None by (subst (asm) getRuntimeType.simps) auto
      then show ?thesis using number_type_throws assms(2) by blast
    next
      case obj
      then obtain a inner where "additionalProperties s = Some (Inr a)"
        "getRuntimeType enumTypes a imp (c @ ''.additionalProperties'') = Inr (inner, imp1)"
        "d = map_type c inner"
        using assms(1) noref None
        by (subst (asm) getRuntimeType.simps)
           (auto simp: Let_def bindE_Inr_iff split: if_splits option.splits sum.splits)
      then show ?thesis using map_type_throws assms(2) by blast
    next
      case arr
      then obtain a inner where "items s = Some a"
        "getRuntimeType enumTypes a imp (c @ ''.items'') = Inr (inner, imp1)"
        "d = array_type inner"
        using assms(1) noref None
        by (subst (asm) getRuntimeType.simps)
           (auto simp: Let_def bindE_Inr_iff split: if_splits option.splits)
      then show ?thesis using array_type_throws assms(2) by blast
    next
      case other
      then show ?thesis
        using assms(1) noref None
        by (subst (asm) getRuntimeType.simps) auto
    qed
  qed
qed

lemma closure_error_located:
  "getRuntimeType enumTypes s imp c = Inr (d, imp1) \<Longrightarrow> descriptor_throws d e \<Longrightarrow>
   \<exists>p n imp' d' imp''. subschema s p = Some n \<and>
     getRuntimeType enumTypes n imp' (c @ path_text p) = Inr (d', imp'') \<and>
     descriptor_throws d' e \<and> error_context e = Some (c @ path_text p)"
proof (induction "size s" arbitrary: s imp c d imp1 rule: less_induct)
  case less
  have step: "\<exists>p n imp' d' imp''. subschema s p = Some n \<and>
       getRuntimeType enumTypes n imp' (c @ path_text p) = Inr (d', imp'') \<and>
       descriptor_throws d' e \<and> error_context e = Some (c @ path_text p)"
    if ch: "child s g = Some a" and sz: "size a < size s"
      and res: "getRuntimeType enumTypes a impa (c @ segment_text g) = Inr (da, impb)"
      and thr: "descriptor_throws da e" for g a impa da impb
  proof -
    from less.hyps[OF sz res thr] obtain p n imp' d' imp'' where
      "subschema a p = Some n"
      "getRuntimeType enumTypes n imp' ((c @ segment_text g) @ path_text p) = Inr (d', imp'')"
      "descriptor_throws d' e"
      "error_context e = Some ((c @ segment_text g) @ path_text p)"
      by blast
    then have "subschema s (g # p) = Some n \<and>
       getRuntimeType enumTypes n imp' (c @ path_text (g # p)) = Inr (d', imp'') \<and>
       descriptor_throws d' e \<and> error_context e = Some (c @ path_text (g # p))"
      using ch by (simp only: path_text_Cons subschema_child simp_thms)
    then show ?thesis by blast
  qed
  from getRuntimeType_Inr_cases[OF less.prems] consider
    (own) "error_context e = Some c"
    | (union) branches inner imp0 j where "oneOf s = Some branches"
        "getRuntimeTypes enumTypes branches 0 imp c = Inr (inner, imp0)"
        "j < length inner" "descriptor_throws (inner ! j) e"
    | (map) a inner imp0 where "additionalProperties s = Some (Inr a)"
        "getRuntimeType enumTypes a imp (c @ ''.additionalProperties'') = Inr (inner, imp0)"
        "descriptor_throws inner e"
    | (array) a inner imp0 where "items s = Some a"
        "getRuntimeType enumTypes a imp (c @ ''.items'') = Inr (inner, imp0)"
        "descriptor_throws inner e"
    by blast
  then show ?case
  proof cases
    case own
    have "subschema s [] = Some s \<and>
          getRuntimeType enumTypes s imp (c @ path_text []) = Inr (d, imp1) \<and>
          descriptor_throws d e \<and> error_context e = Some (c @ path_text [])"
      using own less.prems by (simp add: path_text_def)
    then show ?thesis by blast
  next
    case union
    from getRuntimeTypes_Inr[OF union(2)] union(3) obtain imp' imp'' where j: "j < length branches"
      and g: "getRuntimeType enumTypes (branches ! j) imp' (c @ ''.oneOf['' @ show_nat j @ '']'')
                = Inr (inner ! j, imp'')"
      by auto
    have "branches ! j \<in> set branches" using j by simp
    then have "size (branches ! j) \<le> size_list size branches"
      by (rule size_list_estimation') simp
    then have sz: "size (branches ! j) < size s"
      using size_oneOf[OF union(1)] by simp
    have "child s (OneOf j) = Some (branches ! j)" using union(1) j by simp
    moreover note sz
    moreover have "getRuntimeType enumTypes (branches ! j) imp' (c @ segment_text (OneOf j))
                = Inr (inner ! j, imp'')"
      using g by simp
    ultimately show ?thesis using union(4) by (rule step)
  next
    case map
    have "child s AdditionalProperties = Some a" using map(1) by simp
    moreover have "size a < size s" using map(1) by (rule size_additionalProperties)
    moreover have "getRuntimeType enumTypes a imp (c @ segment_text AdditionalProperties) = Inr (inner, imp0)"
      using map(2) by simp
    ultimately show ?thesis using map(3) by (rule step)
  next
    case array
    have "child s Items = Some a" using array(1) by simp
    moreover have "size a < size s" using array(1) by (rule size_items)
    moreover have "getRuntimeType enumTypes a imp (c @ segment_text Items) = Inr (inner, imp0)"
      using array(2) by simp
    ultimately show ?thesis using array(3) by (rule step)
  qed
qed

lemma occurs_prefix: "occurs c (c @ post)"
proof (cases "c @ post")
  case Nil
  then show ?thesis by simp
next
  case (Cons a l)
  have "take (length c) (c @ post) = c" by simp
  then show ?thesis unfolding Cons by simp
qed

lemma occurs_self: "occurs c c"
  using occurs_prefix[of c "[]"] by simp

lemma occurs_prepend: "occurs c t \<Longrightarrow> occurs c (pre @ t)"
  by (induction pre) simp_all

lemma error_context_in_message: "error_context e = Some c \<Longrightarrow> occurs (squote c) (message e)"
  by (cases e; simp only: error_context.simps message.simps option.inject option.distinct)
     (intro occurs_prefix occurs_self occurs_prepend)+

text \<open>
  The contexts of the recursive calls: a union hands branch \<open>i\<close> the context followed by
  \<^verbatim>\<open>.oneOf[i]\<close>, an array hands its item schema the context followed by \<^verbatim>\<open>.items\<close>, a
  map hands its value schema the context followed by \<^verbatim>\<open>.additionalProperties\<close>. So
  every error that quotes a context, thrown while resolving or later by a closure of the
  returned descriptor, quotes the root context followed by the segments of a path of the
  schema, and it is thrown at the node at the end of that path.
\<close>

theorem contexts_of_recursive_calls:
  "(ref s = None \<and> oneOf s = Some branches \<and> props_without [''oneOf''] s = [] \<longrightarrow>
      getRuntimeType enumTypes s imp c =
        bindE (getRuntimeTypes enumTypes branches 0 imp c) (\<lambda>(inner, imp1). Inr (oneOf_type inner, imp1))) \<and>
   getRuntimeTypes enumTypes (x # xs) i imp c =
     bindE (getRuntimeType enumTypes x imp (c @ ''.oneOf['' @ show_nat i @ '']'')) (\<lambda>(d, imp1).
     bindE (getRuntimeTypes enumTypes xs (i + 1) imp1 c) (\<lambda>(ds, imp2). Inr (d # ds, imp2))) \<and>
   (ref s = None \<and> oneOf s = None \<and> type s = Some ''array'' \<and> items s = Some a \<and>
    props_without [''description'', ''type'', ''items''] s = [] \<longrightarrow>
      getRuntimeType enumTypes s imp c =
        bindE (getRuntimeType enumTypes a imp (c @ ''.items'')) (\<lambda>(inner, imp1). Inr (array_type inner, imp1))) \<and>
   (ref s = None \<and> oneOf s = None \<and> type s = Some ''object'' \<and> additionalProperties s = Some (Inr a) \<and>
    props_without [''description'', ''type'', ''additionalProperties''] s = [] \<longrightarrow>
      getRuntimeType enumTypes s imp c =
        bindE (getRuntimeType enumTypes a imp (c @ ''.additionalProperties''))
          (\<lambda>(inner, imp1). Inr (map_type c inner, imp1))) \<and>
   (\<forall>e. getRuntimeType enumTypes s imp c = Inl e \<longrightarrow>
      (\<exists>p n imp'. subschema s p = Some n \<and>
         getRuntimeType enumTypes n imp' (c @ path_text p) = Inl e \<and>
         (\<forall>c'. error_context e = Some c' \<longrightarrow> c' = c @ path_text p))) \<and>
   (\<forall>d imp1 e. getRuntimeType enumTypes s imp c = Inr (d, imp1) \<and> descriptor_throws d e \<longrightarrow>
      (\<exists>p n imp' d' imp''. subschema s p = Some n \<and>
         getRuntimeType enumTypes n imp' (c @ path_text p) = Inr (d', imp'') \<and>
         descriptor_throws d' e \<and> error_context e = Some (c @ path_text p))) \<and>
   (\<forall>e c'. error_context e = Some c' \<longrightarrow> occurs (squote c') (message e))"
proof -
  have u: "getRuntimeType enumTypes s imp c =
        bindE (getRuntimeTypes enumTypes branches 0 imp c) (\<lambda>(inner, imp1). Inr (oneOf_type inner, imp1))"
    if "ref s = None" "oneOf s = Some branches" "props_without [''oneOf''] s = []"
    using that by (subst getRuntimeType.simps) simp
  have ar: "getRuntimeType enumTypes s imp c =
        bindE (getRuntimeType enumTypes a imp (c @ ''.items'')) (\<lambda>(inner, imp1). Inr (array_type inner, imp1))"
    if "ref s = None" "oneOf s = None" "type s = Some ''array''" "items s = Some a"
       "props_without [''description'', ''type'', ''items''] s = []"
    using that by (subst getRuntimeType.simps) simp
  have mp: "getRuntimeType enumTypes s imp c =
        bindE (getRuntimeType enumTypes a imp (c @ ''.additionalProperties''))
          (\<lambda>(inner, imp1). Inr (map_type c inner, imp1))"
    if "ref s = None" "oneOf s = None" "type s = Some ''object''" "additionalProperties s = Some (Inr a)"
       "props_without [''description'', ''type'', ''additionalProperties''] s = []"
    using that by (subst getRuntimeType.simps) simp
  have l: "getRuntimeTypes enumTypes (x # xs) i imp c =
     bindE (getRuntimeType enumTypes x imp (c @ ''.oneOf['' @ show_nat i @ '']'')) (\<lambda>(d, imp1).
     bindE (getRuntimeTypes enumTypes xs (i + 1) imp1 c) (\<lambda>(ds, imp2). Inr (d # ds, imp2)))"
    by simp
  have A: "\<forall>e. getRuntimeType enumTypes s imp c = Inl e \<longrightarrow>
      (\<exists>p n imp'. subschema s p = Some n \<and>
         getRuntimeType enumTypes n imp' (c @ path_text p) = Inl e \<and>
         (\<forall>c'. error_context e = Some c' \<longrightarrow> c' = c @ path_text p))"
    using resolution_error_located by blast
  have B: "\<forall>d imp1 e. getRuntimeType enumTypes s imp c = Inr (d, imp1) \<and> descriptor_throws d e \<longrightarrow>
      (\<exists>p n imp' d' imp''. subschema s p = Some n \<and>
         getRuntimeType enumTypes n imp' (c @ path_text p) = Inr (d', imp'') \<and>
         descriptor_throws d' e \<and> error_context e = Some (c @ path_text p))"
    using closure_error_located by blast
  have C: "\<forall>e c'. error_context e = Some c' \<longrightarrow> occurs (squote c') (message e)"
    using error_context_in_message by blast
  have U: "ref s = None \<and> oneOf s = Some branches \<and> props_without [''oneOf''] s = [] \<longrightarrow>
      getRuntimeType enumTypes s imp c =
        bindE (getRuntimeTypes enumTypes branches 0 imp c) (\<lambda>(inner, imp1). Inr (oneOf_type inner, imp1))"
    using u by blast
  have AR: "ref s = None \<and> oneOf s = None \<and> type s = Some ''array'' \<and> items s = Some a \<and>
    props_without [''description'', ''type'', ''items''] s = [] \<longrightarrow>
      getRuntimeType enumTypes s imp c =
        bindE (getRuntimeType enumTypes a imp (c @ ''.items'')) (\<lambda>(inner, imp1). Inr (array_type inner, imp1))"
    using ar by blast
  have MP: "ref s = None \<and> oneOf s = None \<and> type s = Some ''object'' \<and> additionalProperties s = Some (Inr a) \<and>
    props_without [''description'', ''type'', ''additionalProperties''] s = [] \<longrightarrow>
      getRuntimeType enumTypes s imp c =
        bindE (getRuntimeType enumTypes a imp (c @ ''.additionalProperties''))
          (\<lambda>(inner, imp1). Inr (map_type c inner, imp1))"
    using mp by blast
  from U l AR MP A B C show ?thesis
    by (intro conjI)
qed

theorem contexts_of_recursive_calls_example:
  "getRuntimeType []
     (Schema None None (Some ''array'') None None None None
        (Some (Schema None (Some [Schema None None (Some ''string'') None None None None None None [],
                                  Schema None None (Some ''object'') None None None None None None []])
                 None None None None None None None []))
        None [])
     (new_Imports (Some Model)) ''Pet.tags''
     = Inl (ExpectedAdditionalProperties ''Pet.tags.items.oneOf[1]'') \<and>
   (\<exists>p n. subschema
       (Schema None None (Some ''array'') None None None None
        (Some (Schema None (Some [Schema None None (Some ''string'') None None None None None None [],
                                  Schema None None (Some ''object'') None None None None None None []])
                 None None None None None None None []))
        None []) p = Some n \<and>
      ''Pet.tags.items.oneOf[1]'' = ''Pet.tags'' @ path_text p)"
proof -
  let ?s = "Schema None None (Some ''array'') None None None None
        (Some (Schema None (Some [Schema None None (Some ''string'') None None None None None None [],
                                  Schema None None (Some ''object'') None None None None None None []])
                 None None None None None None None []))
        None []"
  have "bindE (getRuntimeType [] ?s (new_Imports (Some Model)) ''Pet.tags'') (\<lambda>r. Inr ())
            = Inl (ExpectedAdditionalProperties ''Pet.tags.items.oneOf[1]'')"
    by code_simp
  then have r: "getRuntimeType [] ?s (new_Imports (Some Model)) ''Pet.tags''
            = Inl (ExpectedAdditionalProperties ''Pet.tags.items.oneOf[1]'')"
    by (simp add: bindE_Inl_iff)
  have "\<forall>e. getRuntimeType [] ?s (new_Imports (Some Model)) ''Pet.tags'' = Inl e \<longrightarrow>
      (\<exists>p n imp'. subschema ?s p = Some n \<and>
         getRuntimeType [] n imp' (''Pet.tags'' @ path_text p) = Inl e \<and>
         (\<forall>c'. error_context e = Some c' \<longrightarrow> c' = ''Pet.tags'' @ path_text p))"
    using contexts_of_recursive_calls[of ?s _ "[]" "new_Imports (Some Model)" "''Pet.tags''"]
    by blast
  with r obtain p n where "subschema ?s p = Some n"
    and "\<forall>c'. error_context (ExpectedAdditionalProperties ''Pet.tags.items.oneOf[1]'') = Some c'
            \<longrightarrow> c' = ''Pet.tags'' @ path_text p"
    by blast
  then have "subschema ?s p = Some n \<and> ''Pet.tags.items.oneOf[1]'' = ''Pet.tags'' @ path_text p"
    by simp
  then show ?thesis using r by blast
qed

text \<open>
  C5. Every recursive call gets the context extended by one segment, and every error that
  quotes a context quotes the path from the root name down to the node that raised it
  (above). The error for a reference that does not match \<^verbatim>\<open>#/components/schemas/<Name>\<close>
  quotes no context: raised at the item schema of an array that is resolved under the
  context \<^verbatim>\<open>Owner.pets\<close>, its message holds the reference and neither the path
  \<^verbatim>\<open>Owner.pets.items\<close> nor the root context. The error that the same branch throws two
  statements earlier, for a reference with a further key, does quote that path.
\<close>

theorem malformed_reference_error_omits_context:
  "bindE (getRuntimeType []
           (Schema None None (Some ''array'') None None None None
              (Some (Schema (Some ''#/definitions/Pet'') None None None None None None None None []))
              None [])
           (new_Imports (Some Model)) ''Owner.pets'')
         (\<lambda>(d, imp1). Inr (typeName d))
     = Inl (ExpectedRefForm ''#/definitions/Pet'') \<and>
   \<not> occurs ''Owner.pets'' (message (ExpectedRefForm ''#/definitions/Pet'')) \<and>
   error_context (ExpectedRefForm ''#/definitions/Pet'') = None \<and>
   bindE (getRuntimeType []
           (Schema None None (Some ''array'') None None None None
              (Some (Schema (Some ''#/definitions/Pet'') None None None None None None None None [''nullable'']))
              None [])
           (new_Imports (Some Model)) ''Owner.pets'')
         (\<lambda>(d, imp1). Inr (typeName d))
     = Inl (UnexpectedProperties ''schema reference'' ''Owner.pets.items'' [''nullable'']) \<and>
   occurs ''Owner.pets.items'' (message (UnexpectedProperties ''schema reference'' ''Owner.pets.items'' [''nullable'']))"
  by code_simp

section \<open>Properties of the Operation Extractor\<close>

subsection \<open>Path templates\<close>

lemma brace_param_text:
  assumes "brace_param s = Some (p, rest)"
  shows "s = ''{'' @ p @ ''}'' @ rest \<and> is_word p"
proof -
  from assms obtain t where s: "s = CHR ''{'' # t"
    by (cases s) (auto simp: brace_param_def split: if_splits)
  from assms s have d: "dropWhile is_word_char t = CHR ''}'' # rest"
    and p: "p = takeWhile is_word_char t" and ne: "takeWhile is_word_char t \<noteq> []"
    by (auto simp: brace_param_def split: if_splits list.splits)
  have "t = takeWhile is_word_char t @ dropWhile is_word_char t" by simp
  then have "t = p @ CHR ''}'' # rest" using d p by simp
  moreover have "is_word p"
    unfolding is_word_def p using ne by (simp add: list_all_iff) (meson set_takeWhileD)
  ultimately show ?thesis using s by simp
qed

lemma url_match_text:
  "url_match s = Some (start, p, rest) \<Longrightarrow> s = start @ ''{'' @ p @ ''}'' @ rest \<and> is_word p"
proof (induction s arbitrary: start)
  case Nil
  then show ?case by simp
next
  case (Cons c cs)
  show ?case
  proof (cases "brace_param (c # cs)")
    case (Some pr)
    then have "brace_param (c # cs) = Some (p, rest)" and "start = []"
      using Cons.prems by (cases pr; simp)+
    then show ?thesis using brace_param_text by simp
  next
    case None
    then obtain start' where m: "url_match cs = Some (start', p, rest)" and st: "start = c # start'"
      using Cons.prems by (auto split: if_splits option.splits)
    from Cons.IH[OF m] show ?thesis using st by simp
  qed
qed

lemma url_match_None:
  "\<not> has_param s \<Longrightarrow> url_match s = None"
proof (induction s)
  case Nil
  then show ?case by simp
next
  case (Cons c cs)
  have b: "brace_param (c # cs) = None"
    using Cons.prems unfolding has_param_def list_ex_iff
    by (metis atLeastLessThan_iff drop0 length_greater_0_conv list.discI set_upt zero_le)
  have "\<not> has_param cs"
    unfolding has_param_def list_ex_iff
  proof
    assume "\<exists>i\<in>set [0..<length cs]. brace_param (drop i cs) \<noteq> None"
    then obtain i where "i < length cs" "brace_param (drop i cs) \<noteq> None" by auto
    then have "Suc i < length (c # cs)" "brace_param (drop (Suc i) (c # cs)) \<noteq> None" by simp_all
    then show False using Cons.prems unfolding has_param_def list_ex_iff
      by (metis atLeastLessThan_iff set_upt zero_le)
  qed
  then have "url_match cs = None" by (rule Cons.IH)
  then show ?case using b by simp
qed

text \<open>What the loop keeps: the text read so far, the shape of the parts.\<close>

lemma literals_apart_param: "literals_apart ps \<Longrightarrow> literals_apart (ps @ [param p])"
  by (induction ps rule: literals_apart.induct) auto

lemma literals_apart_literal:
  "literals_apart ps \<Longrightarrow> ends_param ps \<Longrightarrow> literals_apart (ps @ [literal v])"
proof (induction ps rule: literals_apart.induct)
  fix a b ps
  assume "literals_apart (literal a # literal b # ps)"
  then show "literals_apart ((literal a # literal b # ps) @ [literal v])" by simp
qed (auto simp: ends_param_def split: if_splits)

lemma url_loop_invariant:
  "url_loop ps s = (ps', r) \<Longrightarrow>
   concat (map part_text ps') @ r = concat (map part_text ps) @ s \<and>
   url_match r = None \<and>
   (list_all part_ok ps \<longrightarrow> list_all part_ok ps') \<and>
   (literals_apart ps \<and> ends_param ps \<longrightarrow> literals_apart ps' \<and> ends_param ps')"
proof (induction ps s rule: url_loop.induct)
  case (1 ps urlRest)
  show ?case
  proof (cases "url_match urlRest")
    case None
    then show ?thesis using "1.prems" by (subst (asm) url_loop.simps) auto
  next
    case (Some m)
    then obtain start p rest where m: "url_match urlRest = Some (start, p, rest)"
      by (cases m) auto
    let ?ps = "ps @ (if start \<noteq> [] then [literal start] else []) @ [param p]"
    have l: "url_loop ?ps rest = (ps', r)"
      using "1.prems" m by (subst (asm) url_loop.simps) simp
    have ih: "concat (map part_text ps') @ r = concat (map part_text ?ps) @ rest \<and>
       url_match r = None \<and>
       (list_all part_ok ?ps \<longrightarrow> list_all part_ok ps') \<and>
       (literals_apart ?ps \<and> ends_param ?ps \<longrightarrow> literals_apart ps' \<and> ends_param ps')"
      using "1.IH"[OF m refl refl l] .
    have tx: "urlRest = start @ ''{'' @ p @ ''}'' @ rest" and w: "is_word p"
      using url_match_text[OF m] by simp_all
    have "concat (map part_text ?ps) @ rest = concat (map part_text ps) @ (start @ ''{'' @ p @ ''}'' @ rest)"
      by simp
    then have a: "concat (map part_text ?ps) @ rest = concat (map part_text ps) @ urlRest"
      using tx by simp
    have b: "list_all part_ok ps \<Longrightarrow> list_all part_ok ?ps"
      using w by simp
    have c: "literals_apart ?ps \<and> ends_param ?ps" if "literals_apart ps" "ends_param ps"
    proof -
      have "literals_apart (ps @ (if start \<noteq> [] then [literal start] else []))"
        using that literals_apart_literal by simp
      then have "literals_apart ((ps @ (if start \<noteq> [] then [literal start] else [])) @ [param p])"
        by (rule literals_apart_param)
      then show ?thesis by (simp add: ends_param_def)
    qed
    show ?thesis using ih a b c by auto
  qed
qed

lemma parse_url_properties:
  "concat (map part_text (parts (parse_url s))) = s \<and>
   list_all part_ok (parts (parse_url s)) \<and>
   literals_apart (parts (parse_url s)) \<and>
   original (parse_url s) = s"
proof -
  obtain ps r where l: "url_loop [] s = (ps, r)" by (cases "url_loop [] s")
  from url_loop_invariant[OF l] have
    t: "concat (map part_text ps) @ r = s" and ok: "list_all part_ok ps"
    and ap: "literals_apart ps" "ends_param ps"
    by (simp_all add: ends_param_def)
  have "literals_apart (ps @ (if r \<noteq> [] then [literal r] else []))"
    using ap literals_apart_literal by simp
  then show ?thesis
    using t ok by (auto simp: parse_url_def l)
qed

lemma parse_url_no_param:
  assumes "\<not> has_param s" and "s \<noteq> []"
  shows "parts (parse_url s) = [literal s]"
proof -
  have "url_match s = None" using assms(1) by (rule url_match_None)
  then have "url_loop [] s = ([], s)" by (subst url_loop.simps) simp
  then show ?thesis using assms(2) by (simp add: parse_url_def)
qed

text \<open>Where the first match is, and what the loop does with the parts it already has.\<close>

lemma not_word_brace [simp]: "\<not> is_word_char CHR ''{''" "\<not> is_word_char CHR ''}''"
  by (simp_all add: is_word_char_def is_upper_def is_lower_def is_digit_def)

lemma brace_param_word:
  assumes "is_word w"
  shows "brace_param (''{'' @ w @ ''}'' @ rest) = Some (w, rest)"
proof -
  have a: "\<forall>c \<in> set w. is_word_char c" and ne: "w \<noteq> []"
    using assms by (auto simp: is_word_def list_all_iff)
  have "takeWhile is_word_char (w @ CHR ''}'' # rest) = w"
    using a by (simp add: takeWhile_append2)
  moreover have "dropWhile is_word_char (w @ CHR ''}'' # rest) = CHR ''}'' # rest"
    using a by (simp add: dropWhile_append2)
  ultimately show ?thesis using ne by (simp add: brace_param_def)
qed

lemma brace_param_before_brace:
  assumes "brace_param t = None" and "t \<noteq> []"
  shows "brace_param (t @ CHR ''{'' # y) = None"
proof -
  obtain c t' where t: "t = c # t'" using assms(2) by (cases t) auto
  show ?thesis
  proof (cases "c = CHR ''{''")
    case False
    then show ?thesis by (simp add: t brace_param_def)
  next
    case True
    show ?thesis
    proof (cases "\<forall>x \<in> set t'. is_word_char x")
      case True
      then have "dropWhile is_word_char (t' @ CHR ''{'' # y) = CHR ''{'' # y"
        by (simp add: dropWhile_append2)
      then show ?thesis using \<open>c = CHR ''{''\<close> by (simp add: t brace_param_def)
    next
      case False
      then obtain x where x: "x \<in> set t'" "\<not> is_word_char x" by blast
      have d: "dropWhile is_word_char (t' @ CHR ''{'' # y) = dropWhile is_word_char t' @ CHR ''{'' # y"
        using x by (rule dropWhile_append1)
      have k: "takeWhile is_word_char (t' @ CHR ''{'' # y) = takeWhile is_word_char t'"
        using x by (rule takeWhile_append1)
      from False have ne: "dropWhile is_word_char t' \<noteq> []" by (simp add: dropWhile_eq_Nil_conv)
      then obtain d' r where dr: "dropWhile is_word_char t' = d' # r" by (cases "dropWhile is_word_char t'") auto
      show ?thesis
        using assms(1) \<open>c = CHR ''{''\<close> by (simp add: t brace_param_def d k dr split: if_splits)
    qed
  qed
qed

lemma has_param_Cons:
  "has_param (c # cs) = (brace_param (c # cs) \<noteq> None \<or> has_param cs)"
proof
  assume "has_param (c # cs)"
  then have "\<exists>i \<in> set [0..<length (c # cs)]. brace_param (drop i (c # cs)) \<noteq> None"
    unfolding has_param_def list_ex_iff .
  then obtain i where i1: "i \<in> set [0..<length (c # cs)]" and i2: "brace_param (drop i (c # cs)) \<noteq> None"
    by blast
  from i1 have i3: "i < Suc (length cs)" by auto
  note i = i3 i2
  show "brace_param (c # cs) \<noteq> None \<or> has_param cs"
  proof (cases i)
    case 0
    then show ?thesis using i by simp
  next
    case (Suc j)
    from Suc i3 have l1: "j \<in> set [0..<length cs]" by auto
    from Suc i2 have l2: "brace_param (drop j cs) \<noteq> None" by simp
    from l1 l2 have "has_param cs" unfolding has_param_def list_ex_iff by blast
    then show ?thesis by blast
  qed
next
  assume "brace_param (c # cs) \<noteq> None \<or> has_param cs"
  then show "has_param (c # cs)"
  proof
    assume "brace_param (c # cs) \<noteq> None"
    then have "0 \<in> set [0..<length (c # cs)]" "brace_param (drop 0 (c # cs)) \<noteq> None" by simp_all
    then show ?thesis unfolding has_param_def list_ex_iff by blast
  next
    assume "has_param cs"
    then have "\<exists>i \<in> set [0..<length cs]. brace_param (drop i cs) \<noteq> None"
      unfolding has_param_def list_ex_iff .
    then obtain i where j1: "i \<in> set [0..<length cs]" and j2: "brace_param (drop i cs) \<noteq> None"
      by blast
    from j1 have j3: "i < length cs" by auto
    from j3 have k1: "Suc i \<in> set [0..<length (c # cs)]" by auto
    from j2 have k2: "brace_param (drop (Suc i) (c # cs)) \<noteq> None" by simp
    from k1 k2 show ?thesis unfolding has_param_def list_ex_iff by blast
  qed
qed

lemma url_match_first:
  assumes "\<not> has_param lit" and "\<not> list_ex is_line_terminator lit" and "is_word w"
  shows "url_match (lit @ ''{'' @ w @ ''}'' @ rest) = Some (lit, w, rest)"
  using assms(1,2)
proof (induction lit)
  case Nil
  have "url_match (CHR ''{'' # w @ CHR ''}'' # rest) = Some ([], w, rest)"
    using brace_param_word[OF assms(3), of rest] by simp
  then show ?case by simp
next
  case (Cons c cs)
  have b: "brace_param (c # cs) = None" and h: "\<not> has_param cs"
    using Cons.prems(1) unfolding has_param_Cons by blast+
  have "brace_param ((c # cs) @ CHR ''{'' # (w @ ''}'' @ rest)) = None"
    using b by (intro brace_param_before_brace) simp_all
  then have b': "brace_param (c # cs @ ''{'' @ w @ ''}'' @ rest) = None" by simp
  have t: "\<not> is_line_terminator c" and t': "\<not> list_ex is_line_terminator cs"
    using Cons.prems(2) by simp_all
  have "url_match (cs @ ''{'' @ w @ ''}'' @ rest) = Some (cs, w, rest)"
    using Cons.IH[OF h t'] .
  then show ?case using b' t by simp
qed

lemma url_loop_acc:
  "url_loop ps s = (ps @ fst (url_loop [] s), snd (url_loop [] s))"
proof (induction "length s" arbitrary: ps s rule: less_induct)
  case less
  show ?case
  proof (cases "url_match s")
    case None
    then show ?thesis by (simp add: url_loop.simps[of _ s])
  next
    case (Some x)
    then obtain start p rest where m: "url_match s = Some (start, p, rest)" by (cases x) auto
    let ?n = "(if start \<noteq> [] then [literal start] else []) @ [param p]"
    have sh: "length rest < length s" using m by (rule url_match_shorter)
    have a: "url_loop (ps @ ?n) rest = ((ps @ ?n) @ fst (url_loop [] rest), snd (url_loop [] rest))"
      using less[OF sh] .
    have b: "url_loop ?n rest = (?n @ fst (url_loop [] rest), snd (url_loop [] rest))"
      using less[OF sh] .
    have c: "url_loop ps s = url_loop (ps @ ?n) rest"
      using m by (subst url_loop.simps) simp
    have d: "url_loop [] s = url_loop ?n rest"
      using m by (subst url_loop.simps) simp
    show ?thesis
      unfolding c d a b by simp
  qed
qed

lemma parse_url_param:
  assumes "\<not> has_param lit" and "\<not> list_ex is_line_terminator lit" and "is_word w"
  shows "parts (parse_url (lit @ ''{'' @ w @ ''}'' @ rest))
           = (if lit \<noteq> [] then [literal lit] else []) @ param w # parts (parse_url rest)"
proof -
  let ?n = "(if lit \<noteq> [] then [literal lit] else []) @ [param w]"
  have m: "url_match (lit @ ''{'' @ w @ ''}'' @ rest) = Some (lit, w, rest)"
    using assms by (rule url_match_first)
  have "url_loop [] (lit @ ''{'' @ w @ ''}'' @ rest) = url_loop ?n rest"
    using m by (subst url_loop.simps) simp
  also have "\<dots> = (?n @ fst (url_loop [] rest), snd (url_loop [] rest))"
    by (rule url_loop_acc)
  finally show ?thesis
    by (simp add: parse_url_def split: prod.splits)
qed

lemma parse_url_empty: "parts (parse_url []) = []"
  by (simp add: parse_url_def url_loop.simps[of _ "[]"])

text \<open>
  C4. The template \<^verbatim>\<open>/widgets/{widgetId}/parts/{partId}\<close> parses into the four parts of the
  specification. In general: a template that starts with a text free of \<^verbatim>\<open>{name}\<close> and of
  line terminators, followed by \<^verbatim>\<open>{w}\<close> for a word \<open>w\<close>, parses into that text as a literal
  (left out when empty), the parameter \<open>w\<close>, and the parts of what follows; the empty
  template has no parts. The parts, read as text, give back the template from left to
  right; a literal is not empty, a parameter is a word, and no literal follows a literal;
  a template that is not empty and in which no \<^verbatim>\<open>{name}\<close> occurs is one literal.
\<close>

theorem parse_url_segments:
  "parts (parse_url ''/widgets/{widgetId}/parts/{partId}'')
     = [literal ''/widgets/'', param ''widgetId'', literal ''/parts/'', param ''partId''] \<and>
   (\<not> has_param lit \<and> \<not> list_ex is_line_terminator lit \<and> is_word w \<longrightarrow>
      parts (parse_url (lit @ ''{'' @ w @ ''}'' @ rest))
        = (if lit \<noteq> [] then [literal lit] else []) @ param w # parts (parse_url rest)) \<and>
   parts (parse_url []) = [] \<and>
   concat (map part_text (parts (parse_url s))) = s \<and>
   list_all part_ok (parts (parse_url s)) \<and>
   literals_apart (parts (parse_url s)) \<and>
   original (parse_url s) = s \<and>
   (\<not> has_param s \<and> s \<noteq> [] \<longrightarrow> parts (parse_url s) = [literal s])"
proof -
  have "parts (parse_url ''/widgets/{widgetId}/parts/{partId}'')
     = [literal ''/widgets/'', param ''widgetId'', literal ''/parts/'', param ''partId'']"
    by code_simp
  moreover have "\<not> has_param lit \<and> \<not> list_ex is_line_terminator lit \<and> is_word w \<longrightarrow>
      parts (parse_url (lit @ ''{'' @ w @ ''}'' @ rest))
        = (if lit \<noteq> [] then [literal lit] else []) @ param w # parts (parse_url rest)"
    using parse_url_param by blast
  moreover note parse_url_empty
  ultimately show ?thesis
    using parse_url_properties[of s] parse_url_no_param[of s] by blast
qed

theorem parse_url_segments_witness:
  "parts (parse_url ''/pets/{petId}/toys'') = literal ''/pets/'' # param ''petId'' # parts (parse_url ''/toys'') \<and>
   parts (parse_url ''/toys'') = [literal ''/toys'']"
proof -
  have h: "\<not> has_param ''/toys''" "''/toys'' \<noteq> []" by code_simp+
  have l: "\<not> has_param ''/pets/''" "\<not> list_ex is_line_terminator ''/pets/''" "is_word ''petId''"
    by code_simp+
  have a: "parts (parse_url ''/toys'') = [literal ''/toys'']"
    using parse_url_segments[of _ _ _ "''/toys''"] h by blast
  have "parts (parse_url (''/pets/'' @ ''{'' @ ''petId'' @ ''}'' @ ''/toys''))
          = (if ''/pets/'' \<noteq> [] then [literal ''/pets/''] else []) @ param ''petId'' # parts (parse_url ''/toys'')"
    using parse_url_segments[of "''/pets/''" "''petId''" "''/toys''"] l by blast
  then show ?thesis using a by simp
qed

subsection \<open>Tags\<close>


















text \<open>
  An operation tagged \<^verbatim>\<open>constructor\<close> stops the extractor, unless the document declares
  that tag; so does a key without a value.
\<close>

lemma inherited_tag_example:
  "operationsByTag []
     [(''/p'',
       [(''get'', Operation \<lparr>op_tags = TagsArray [''constructor''], op_summary = None, op_description = None,
                    operationId = Some ''a'', parameters = None, requestBody = None,
                    responses = [], otherOperationProps = []\<rparr>),
        (''post'', Operation \<lparr>op_tags = TagsUndefined, op_summary = None, op_description = None,
                    operationId = Some ''b'', parameters = None, requestBody = None,
                    responses = [], otherOperationProps = []\<rparr>)])]
     = Inl push_of_undefined \<and>
   operationsByTag [\<lparr>tag_name = ''constructor'', tag_description0 = None, tag_otherProps0 = []\<rparr>]
     [(''/p'',
       [(''get'', Operation \<lparr>op_tags = TagsArray [''constructor''], op_summary = None, op_description = None,
                    operationId = Some ''a'', parameters = None, requestBody = None,
                    responses = [], otherOperationProps = []\<rparr>),
        (''post'', Operation \<lparr>op_tags = TagsUndefined, op_summary = None, op_description = None,
                    operationId = Some ''b'', parameters = None, requestBody = None,
                    responses = [], otherOperationProps = []\<rparr>)])]
     = Inl (ExpectedOneTag ''POST'' ''/p'' ''undefined'') \<and>
   operationsByTag [] [(''/p'', [(''get'', Null)])] = Inl destructure_null"
  by code_simp

section \<open>Properties of the Emitters\<close>

subsection \<open>Failing steps\<close>

lemma bindE_fails: "(\<And>x. \<exists>e. f x = Inl e) \<Longrightarrow> \<exists>e. bindE m f = Inl e"
  by (cases m) simp_all

lemma bindE_fails_first: "\<exists>e. m = Inl e \<Longrightarrow> \<exists>e. bindE m f = Inl e"
  by auto

lemma responses_step_fails:
  "\<not> only_200 rs \<Longrightarrow> \<exists>e. responses_step enumTypes opId rs imp = Inl e"
  by (auto simp: only_200_def responses_step_def split: option.splits)

lemma api_operation_responses:
  assumes "\<not> only_200 (responses (operation opx))"
  shows "\<exists>e. api_operation enumTypes tag opx st = Inl e"
  unfolding api_operation_def
  by (rule bindE_fails, rule bindE_fails, rule bindE_fails, rule bindE_fails,
      rule bindE_fails_first, rule responses_step_fails, rule assms)

lemma client_operation_responses:
  assumes "\<not> only_200 (responses (operation opx))"
  shows "\<exists>e. client_operation enumTypes tag opx st = Inl e"
  unfolding client_operation_def Let_def
  by (rule bindE_fails, rule bindE_fails, rule bindE_fails, rule bindE_fails,
      rule bindE_fails_first, rule responses_step_fails, rule assms)

lemma api_operations_fail:
  assumes "opx \<in> set ops" and "\<And>st. \<exists>e. api_operation enumTypes tag opx st = Inl e"
  shows "\<exists>e. api_operations enumTypes tag ops st = Inl e"
  using assms(1)
proof (induction ops arbitrary: st)
  case Nil
  then show ?case by simp
next
  case (Cons o1 ops)
  show ?case
  proof (cases "api_operation enumTypes tag o1 st")
    case (Inl e)
    then show ?thesis by simp
  next
    case (Inr st1)
    then have "o1 \<noteq> opx" using assms(2)[of st] by auto
    then have "opx \<in> set ops" using Cons.prems by simp
    from Cons.IH[OF this, of st1] show ?thesis using Inr by simp
  qed
qed

lemma client_operations_fail:
  assumes "opx \<in> set ops" and "\<And>st. \<exists>e. client_operation enumTypes tag opx st = Inl e"
  shows "\<exists>e. client_operations enumTypes tag ops st = Inl e"
  using assms(1)
proof (induction ops arbitrary: st)
  case Nil
  then show ?case by simp
next
  case (Cons o1 ops)
  show ?case
  proof (cases "client_operation enumTypes tag o1 st")
    case (Inl e)
    then show ?thesis by simp
  next
    case (Inr st1)
    then have "o1 \<noteq> opx" using assms(2)[of st] by auto
    then have "opx \<in> set ops" using Cons.prems by simp
    from Cons.IH[OF this, of st1] show ?thesis using Inr by simp
  qed
qed

lemma writeApi_fails:
  assumes "opx \<in> set ops" and "\<And>st. \<exists>e. api_operation enumTypes tag opx st = Inl e"
  shows "\<exists>e. writeApi lc enumTypes tag tagDescription ops = Inl e"
proof -
  have f: "\<exists>e. api_operations enumTypes tag ops st = Inl e" for st
    using api_operations_fail[OF assms, of st] by auto
  show ?thesis
    unfolding writeApi_def
    by (rule bindE_fails, rule bindE_fails, rule bindE_fails, rule bindE_fails,
        rule bindE_fails_first, rule f)
qed

lemma writeClient_fails:
  assumes "opx \<in> set ops" and "\<And>st. \<exists>e. client_operation enumTypes tag opx st = Inl e"
  shows "\<exists>e. writeClient lc enumTypes tag tagDescription ops = Inl e"
proof -
  have f: "\<exists>e. client_operations enumTypes tag ops st = Inl e" for st
    using client_operations_fail[OF assms, of st] by auto
  show ?thesis
    unfolding writeClient_def
    by (rule bindE_fails, rule bindE_fails_first, rule f)
qed

lemma getTypeFromContent_none:
  "content = None \<or> (\<exists>c. content = Some c \<and> map_of c ''application/json'' = None) \<Longrightarrow>
   getTypeFromContent enumTypes content imp context = Inr (None, imp)"
  by (auto simp: getTypeFromContent_def)

lemma responses_step_missing:
  "map_of rs ''200'' = None \<Longrightarrow> responses_step enumTypes opId rs imp = Inl (Expected200Response opId)"
  by (simp add: responses_step_def)

lemma responses_step_void:
  assumes "only_200 rs" and "map_of rs ''200'' = Some (Value r)"
    and "response_content r = None \<or> (\<exists>c. response_content r = Some c \<and> map_of c ''application/json'' = None)"
  shows "responses_step enumTypes opId rs imp = Inr (None, r, imp)"
  using assms getTypeFromContent_none[of "response_content r" enumTypes imp "opId @ ''.200.responseBody''"]
  by (auto simp: responses_step_def only_200_def)

lemma operation_id_ok:
  "operationId (operation opx) = Some i \<Longrightarrow> i \<noteq> [] \<Longrightarrow> operation_id opx = Inr i"
  by (simp add: operation_id_def no_line_def)

lemma method_name_word: "is_word i \<Longrightarrow> method_name tag opx i = Inr i"
  by (simp add: method_name_def)

lemma api_operation_missing_200:
  assumes "operationId (operation opx) = Some i" and "is_word i"
    and "requestBody (operation opx) = None"
    and "parameters (operation opx) = None \<or> parameters (operation opx) = Some []"
    and "map_of (responses (operation opx)) ''200'' = None"
  shows "api_operation enumTypes tag opx st = Inl (Expected200Response i)"
proof -
  have "i \<noteq> []" using assms(2) by (auto simp: is_word_def)
  then have "operation_id opx = Inr i" using assms(1) by (simp add: operation_id_ok)
  moreover have "method_name tag opx i = Inr i" using assms(2) by (rule method_name_word)
  moreover have "api_parameters enumTypes i (case parameters (operation opx) of None \<Rightarrow> [] | Some l \<Rightarrow> l) ps = Inr ps"
    for ps using assms(4) by auto
  ultimately show ?thesis
    using assms(3) responses_step_missing[OF assms(5)]
    by (simp add: api_operation_def api_request_body_def)
qed

lemma client_operation_missing_200:
  assumes "operationId (operation opx) = Some i" and "is_word i"
    and "requestBody (operation opx) = None"
    and "parameters (operation opx) = None \<or> parameters (operation opx) = Some []"
    and "map_of (responses (operation opx)) ''200'' = None"
  shows "client_operation enumTypes tag opx st = Inl (Expected200Response i)"
proof -
  have "i \<noteq> []" using assms(2) by (auto simp: is_word_def)
  then have "operation_id opx = Inr i" using assms(1) by (simp add: operation_id_ok)
  moreover have "method_name tag opx i = Inr i" using assms(2) by (rule method_name_word)
  moreover have "client_parameters enumTypes i (case parameters (operation opx) of None \<Rightarrow> [] | Some l \<Rightarrow> l) ps = Inr ps"
    for ps using assms(4) by auto
  ultimately show ?thesis
    using assms(3) responses_step_missing[OF assms(5)]
    by (simp add: client_operation_def client_request_body_def)
qed

lemma writeApi_single:
  assumes a: "\<And>st. api_operation enumTypes tag opx st = Inl e"
  shows "writeApi lc enumTypes tag tagDescription [opx] = Inl e"
proof -
  obtain i1 where 1: "addLocal (new_Imports (Some Api)) None ''base-api'' ''BaseApi'' False = Inr i1"
    using addLocal_named by blast
  obtain i2 where 2: "addGlobal i1 ''express'' ''Express'' False = Inr i2"
    using addGlobal_named by blast
  obtain i3 where 3: "addGlobal i2 ''express'' ''Request'' False = Inr i3"
    using addGlobal_named by blast
  obtain i4 where 4: "addGlobal i3 ''express'' ''Response'' False = Inr i4"
    using addGlobal_named by blast
  show ?thesis
    using 1 2 3 4 by (simp add: writeApi_def a)
qed

lemma writeClient_single:
  assumes "\<And>st. client_operation enumTypes tag opx st = Inl e"
  shows "writeClient lc enumTypes tag tagDescription [opx] = Inl e"
proof -
  obtain i1 where 1: "addLocal (new_Imports (Some Client)) None ''base-client'' ''BaseClient'' False = Inr i1"
    using addLocal_named by blast
  show ?thesis
    using 1 by (simp add: writeClient_def assms)
qed

text \<open>
  C2. In both emitters an operation whose responses are not a \<^verbatim>\<open>200\<close> entry and nothing
  else aborts the generation of the file, wherever it stands among the operations. A
  missing \<^verbatim>\<open>200\<close> entry is reported as \<^verbatim>\<open>Expected 200 response of operation\<close> with the
  operation identifier, as the result shows for a file of one operation without request
  body and parameters. JSON content is not required of the \<^verbatim>\<open>200\<close> response: without it
  the step passes with no return type.
\<close>

theorem responses_exactly_200:
  "(map_of rs ''200'' = None \<longrightarrow>
      responses_step enumTypes opId rs imp = Inl (Expected200Response opId)) \<and>
   (\<not> only_200 rs \<longrightarrow> (\<exists>e. responses_step enumTypes opId rs imp = Inl e)) \<and>
   (only_200 rs \<and> map_of rs ''200'' = Some (Value r) \<and>
    (response_content r = None \<or>
     (\<exists>c. response_content r = Some c \<and> map_of c ''application/json'' = None)) \<longrightarrow>
      responses_step enumTypes opId rs imp = Inr (None, r, imp)) \<and>
   (opx \<in> set ops \<and> \<not> only_200 (responses (operation opx)) \<longrightarrow>
      (\<exists>e. writeApi lc enumTypes tag tagDescription ops = Inl e) \<and>
      (\<exists>e. writeClient lc enumTypes tag tagDescription ops = Inl e)) \<and>
   (operationId (operation opx) = Some i \<and> is_word i \<and> requestBody (operation opx) = None \<and>
    (parameters (operation opx) = None \<or> parameters (operation opx) = Some []) \<and>
    map_of (responses (operation opx)) ''200'' = None \<longrightarrow>
      writeApi lc enumTypes tag tagDescription [opx] = Inl (Expected200Response i) \<and>
      writeClient lc enumTypes tag tagDescription [opx] = Inl (Expected200Response i)) \<and>
   message (Expected200Response opId) = ''Expected 200 response of operation '' @ opId"
proof -
  have a: "\<exists>e. writeApi lc enumTypes tag tagDescription ops = Inl e"
    if "opx \<in> set ops" "\<not> only_200 (responses (operation opx))"
    using that(1) by (rule writeApi_fails) (rule api_operation_responses[OF that(2)])
  have c: "\<exists>e. writeClient lc enumTypes tag tagDescription ops = Inl e"
    if "opx \<in> set ops" "\<not> only_200 (responses (operation opx))"
    using that(1) by (rule writeClient_fails) (rule client_operation_responses[OF that(2)])
  have a1: "writeApi lc enumTypes tag tagDescription [opx] = Inl (Expected200Response i)"
    if "operationId (operation opx) = Some i" "is_word i" "requestBody (operation opx) = None"
      "parameters (operation opx) = None \<or> parameters (operation opx) = Some []"
      "map_of (responses (operation opx)) ''200'' = None"
    by (rule writeApi_single) (rule api_operation_missing_200[OF that])
  have c1: "writeClient lc enumTypes tag tagDescription [opx] = Inl (Expected200Response i)"
    if "operationId (operation opx) = Some i" "is_word i" "requestBody (operation opx) = None"
      "parameters (operation opx) = None \<or> parameters (operation opx) = Some []"
      "map_of (responses (operation opx)) ''200'' = None"
    by (rule writeClient_single) (rule client_operation_missing_200[OF that])
  have 1: "map_of rs ''200'' = None \<longrightarrow>
      responses_step enumTypes opId rs imp = Inl (Expected200Response opId)"
    using responses_step_missing by blast
  have 2: "\<not> only_200 rs \<longrightarrow> (\<exists>e. responses_step enumTypes opId rs imp = Inl e)"
    using responses_step_fails by blast
  have 3: "only_200 rs \<and> map_of rs ''200'' = Some (Value r) \<and>
    (response_content r = None \<or>
     (\<exists>c. response_content r = Some c \<and> map_of c ''application/json'' = None)) \<longrightarrow>
      responses_step enumTypes opId rs imp = Inr (None, r, imp)"
    using responses_step_void[of rs r enumTypes opId imp] by blast
  have 4: "opx \<in> set ops \<and> \<not> only_200 (responses (operation opx)) \<longrightarrow>
      (\<exists>e. writeApi lc enumTypes tag tagDescription ops = Inl e) \<and>
      (\<exists>e. writeClient lc enumTypes tag tagDescription ops = Inl e)"
    using a c by blast
  have 5: "operationId (operation opx) = Some i \<and> is_word i \<and> requestBody (operation opx) = None \<and>
    (parameters (operation opx) = None \<or> parameters (operation opx) = Some []) \<and>
    map_of (responses (operation opx)) ''200'' = None \<longrightarrow>
      writeApi lc enumTypes tag tagDescription [opx] = Inl (Expected200Response i) \<and>
      writeClient lc enumTypes tag tagDescription [opx] = Inl (Expected200Response i)"
    using a1 c1 by blast
  have 6: "message (Expected200Response opId) = ''Expected 200 response of operation '' @ opId"
    by simp
  show ?thesis
    by (intro conjI; fact)
qed

theorem responses_exactly_200_witness:
  "writeApi codeUnitCompare [] \<lparr>lowerCamel = ''health'', upperCamel = ''Health'', display = ''health'', kebab = ''health''\<rparr> None [\<lparr>operation = \<lparr>op_tags = TagsUndefined, op_summary = None, op_description = None,
          operationId = Some ''ping'', parameters = None, requestBody = None,
          responses = [(''404'', Value \<lparr>response_description = ''no'', response_content = None\<rparr>)],
          otherOperationProps = []\<rparr>,
        op_method = ''GET'', url = \<lparr>original = ''/health'', parts = [literal ''/health'']\<rparr>\<rparr>] = Inl (Expected200Response ''ping'') \<and>
   writeClient codeUnitCompare [] \<lparr>lowerCamel = ''health'', upperCamel = ''Health'', display = ''health'', kebab = ''health''\<rparr> None [\<lparr>operation = \<lparr>op_tags = TagsUndefined, op_summary = None, op_description = None,
          operationId = Some ''ping'', parameters = None, requestBody = None,
          responses = [(''404'', Value \<lparr>response_description = ''no'', response_content = None\<rparr>)],
          otherOperationProps = []\<rparr>,
        op_method = ''GET'', url = \<lparr>original = ''/health'', parts = [literal ''/health'']\<rparr>\<rparr>] = Inl (Expected200Response ''ping'')"
proof -
  let ?opx = "\<lparr>operation = \<lparr>op_tags = TagsUndefined, op_summary = None, op_description = None,
          operationId = Some ''ping'', parameters = None, requestBody = None,
          responses = [(''404'', Value \<lparr>response_description = ''no'', response_content = None\<rparr>)],
          otherOperationProps = []\<rparr>,
        op_method = ''GET'', url = \<lparr>original = ''/health'', parts = [literal ''/health'']\<rparr>\<rparr>"
  have "operationId (operation ?opx) = Some ''ping'' \<and> is_word ''ping'' \<and>
        requestBody (operation ?opx) = None \<and>
        (parameters (operation ?opx) = None \<or> parameters (operation ?opx) = Some []) \<and>
        map_of (responses (operation ?opx)) ''200'' = None"
    by code_simp
  then show ?thesis
    using responses_exactly_200[where opx = ?opx and i = "''ping''" and lc = codeUnitCompare
        and enumTypes = "[]" and tag = "\<lparr>lowerCamel = ''health'', upperCamel = ''Health'', display = ''health'', kebab = ''health''\<rparr>" and tagDescription = None]
    by blast
qed

text \<open>
  The claim as stated fails on a \<^verbatim>\<open>200\<close> response without content: both emitters accept
  the operation and give it the return type \<^verbatim>\<open>void\<close>.
\<close>

theorem responses_exactly_200_counterexample:
  "writeApi codeUnitCompare [] \<lparr>lowerCamel = ''health'', upperCamel = ''Health'', display = ''health'', kebab = ''health''\<rparr> None [\<lparr>operation = \<lparr>op_tags = TagsUndefined, op_summary = None, op_description = None,
          operationId = Some ''ping'', parameters = None, requestBody = None,
          responses = [(''200'', Value \<lparr>response_description = ''ok'', response_content = None\<rparr>)],
          otherOperationProps = []\<rparr>,
        op_method = ''GET'', url = \<lparr>original = ''/health'', parts = [literal ''/health'']\<rparr>\<rparr>]
     = Inr ([CHR 0x0A, CHR 0x0A] @ ''import { BaseApi } from '' @ [CHR 0x22]
        @ ''../base-api'' @ [CHR 0x22]
        @ '';import { Express, Request, Response } from '' @ [CHR 0x22] @ ''express''
        @ [CHR 0x22] @ '';'' @ [CHR 0x0A, CHR 0x0A, CHR 0x0A] @ ''/** health api. */''
        @ [CHR 0x0A]
        @ ''export abstract class HealthApi extends BaseApi {abstract pi''
        @ ''ng(): Promise<void>;'' @ [CHR 0x0A, CHR 0x0A]
        @ ''/** Register all endpoints. */'' @ [CHR 0x0A]
        @ ''registerEndpoints(app: Express): void {app.get('' @ [CHR 0x22]
        @ ''/health'' @ [CHR 0x22]
        @ '', (req: Request, res: Response) => this.handleResponse(res, ''
        @ ''this.ping()));}}'') \<and>
   writeClient codeUnitCompare [] \<lparr>lowerCamel = ''health'', upperCamel = ''Health'', display = ''health'', kebab = ''health''\<rparr> None [\<lparr>operation = \<lparr>op_tags = TagsUndefined, op_summary = None, op_description = None,
          operationId = Some ''ping'', parameters = None, requestBody = None,
          responses = [(''200'', Value \<lparr>response_description = ''ok'', response_content = None\<rparr>)],
          otherOperationProps = []\<rparr>,
        op_method = ''GET'', url = \<lparr>original = ''/health'', parts = [literal ''/health'']\<rparr>\<rparr>]
     = Inr ([CHR 0x0A, CHR 0x0A]
        @ ''import { BaseClient, ClientConfig, UrlBuilder } from '' @ [CHR 0x22]
        @ ''../base-client'' @ [CHR 0x22] @ '';'' @ [CHR 0x0A, CHR 0x0A, CHR 0x0A]
        @ ''/** health client. */'' @ [CHR 0x0A]
        @ ''export class HealthClient extends BaseClient {'' @ [CHR 0x0A] @ ''/**''
        @ [CHR 0x0A] @ '' * @param overrideConfig'' @ [CHR 0x0A]
        @ '' *   Client config variable overrides. Defaults to the baseC''
        @ ''onfig.'' @ [CHR 0x0A] @ '' */'' @ [CHR 0x0A]
        @ ''ping(overrideConfig: Partial<ClientConfig> = {}): Promise<vo''
        @ ''id> {return this.fetch(overrideConfig, '' @ [CHR 0x22] @ ''GET''
        @ [CHR 0x22] @ '',new UrlBuilder().addLiteral('' @ [CHR 0x22] @ ''/health''
        @ [CHR 0x22] @ '').toString(),);}}'')"
  by code_simp

subsection \<open>Operation identifiers\<close>

lemma word_no_dot: "is_word w \<Longrightarrow> CHR ''.'' \<notin> set w"
  by (auto simp: is_word_def list_all_iff is_word_char_def is_upper_def is_lower_def is_digit_def)

lemma dotted_text: "dotted s = Some (a, b) \<Longrightarrow> is_word a \<and> is_word b \<and> s = a @ ''.'' @ b"
proof -
  assume d: "dotted s = Some (a, b)"
  then obtain dot where r: "dropWhile (\<lambda>c. c \<noteq> CHR ''.'') s = dot # b"
    and a: "a = takeWhile (\<lambda>c. c \<noteq> CHR ''.'') s" and w: "is_word a" "is_word b"
    by (auto simp: dotted_def split: list.splits if_splits)
  have "dot = CHR ''.''"
    using hd_dropWhile[of "\<lambda>c. c \<noteq> CHR ''.''" s] r by auto
  moreover have "s = takeWhile (\<lambda>c. c \<noteq> CHR ''.'') s @ dropWhile (\<lambda>c. c \<noteq> CHR ''.'') s"
    by simp
  ultimately have "s = a @ ''.'' @ b" using r a by simp
  then show ?thesis using w by simp
qed

lemma dotted_words:
  assumes "is_word a" and "is_word b"
  shows "dotted (a @ ''.'' @ b) = Some (a, b)"
proof -
  have n: "\<forall>c \<in> set a. c \<noteq> CHR ''.''" using word_no_dot[OF assms(1)] by auto
  have "takeWhile (\<lambda>c. c \<noteq> CHR ''.'') (a @ ''.'' @ b) = a"
    using n by (simp add: takeWhile_append2 takeWhile_tail)
  moreover have "dropWhile (\<lambda>c. c \<noteq> CHR ''.'') (a @ ''.'' @ b) = ''.'' @ b"
    using n by (simp add: dropWhile_append2 dropWhile_append3)
  ultimately show ?thesis using assms by (simp add: dotted_def)
qed

lemma method_name_prefixed:
  "is_word w \<Longrightarrow> is_word (upperCamel tag) \<Longrightarrow> method_name tag opx (upperCamel tag @ ''.'' @ w) = Inr w"
  using dotted_words[of "upperCamel tag" w] word_no_dot[of "upperCamel tag @ ''.'' @ w"]
  by (auto simp: method_name_def)

lemma method_name_invalid:
  assumes "\<not> valid_operation_id tag (Some i)"
  shows "method_name tag opx i = Inl (ExpectedOperationIdPrefix (op_method opx) (original (url opx)) (upperCamel tag))"
proof (cases "dotted i")
  case None
  then show ?thesis using assms by (simp add: method_name_def valid_operation_id_def)
next
  case (Some ab)
  obtain a b where ab: "ab = (a, b)" by (cases ab)
  from dotted_text[of i a b] Some ab have "is_word a" "is_word b" "i = a @ ''.'' @ b" by simp_all
  then have "a \<noteq> upperCamel tag" using assms by (auto simp: valid_operation_id_def)
  then show ?thesis using assms Some ab by (simp add: method_name_def valid_operation_id_def)
qed

lemma operation_id_invalid:
  assumes "\<not> valid_operation_id tag (operationId (operation opx))"
  shows "\<exists>e. bindE (operation_id opx) (\<lambda>opId. bindE (method_name tag opx opId) (f opId)) = Inl e"
proof (cases "no_line (operationId (operation opx))")
  case True
  then show ?thesis by (simp add: operation_id_def)
next
  case False
  then obtain i where i: "operationId (operation opx) = Some i" "i \<noteq> []"
    by (auto simp: no_line_def)
  then have "operation_id opx = Inr i" by (simp add: operation_id_ok)
  then show ?thesis using method_name_invalid[of tag i opx] assms i by simp
qed

lemma api_operation_invalid_id:
  "\<not> valid_operation_id tag (operationId (operation opx)) \<Longrightarrow>
   \<exists>e. api_operation enumTypes tag opx st = Inl e"
  unfolding api_operation_def by (rule operation_id_invalid)

lemma client_operation_invalid_id:
  "\<not> valid_operation_id tag (operationId (operation opx)) \<Longrightarrow>
   \<exists>e. client_operation enumTypes tag opx st = Inl e"
  unfolding client_operation_def by (rule operation_id_invalid)

text \<open>
  C3. In both emitters an operation whose identifier is missing, empty, or neither a word
  nor the tag's upper-camel name, a dot and a word, aborts the generation of the file,
  wherever it stands among the operations; a word names the member itself, and the
  tag's name and the dot before a word are stripped. The identifiers of a tag are not
  compared with each other.
\<close>

theorem operation_id_valid:
  "(opx \<in> set ops \<and> \<not> valid_operation_id tag (operationId (operation opx)) \<longrightarrow>
      (\<exists>e. writeApi lc enumTypes tag tagDescription ops = Inl e) \<and>
      (\<exists>e. writeClient lc enumTypes tag tagDescription ops = Inl e)) \<and>
   (no_line (operationId (operation opx)) \<longrightarrow>
      operation_id opx = Inl (ExpectedOperationId (op_method opx) (original (url opx)))) \<and>
   (is_word i \<longrightarrow> method_name tag opx i = Inr i) \<and>
   (is_word w \<and> is_word (upperCamel tag) \<longrightarrow> method_name tag opx (upperCamel tag @ ''.'' @ w) = Inr w) \<and>
   (\<not> valid_operation_id tag (Some i) \<longrightarrow>
      method_name tag opx i
        = Inl (ExpectedOperationIdPrefix (op_method opx) (original (url opx)) (upperCamel tag)))"
proof -
  have 1: "opx \<in> set ops \<and> \<not> valid_operation_id tag (operationId (operation opx)) \<longrightarrow>
      (\<exists>e. writeApi lc enumTypes tag tagDescription ops = Inl e) \<and>
      (\<exists>e. writeClient lc enumTypes tag tagDescription ops = Inl e)"
  proof (intro impI conjI; elim conjE)
    assume m: "opx \<in> set ops" and n: "\<not> valid_operation_id tag (operationId (operation opx))"
    show "\<exists>e. writeApi lc enumTypes tag tagDescription ops = Inl e"
      using m by (rule writeApi_fails) (rule api_operation_invalid_id[OF n])
    show "\<exists>e. writeClient lc enumTypes tag tagDescription ops = Inl e"
      using m by (rule writeClient_fails) (rule client_operation_invalid_id[OF n])
  qed
  have 2: "no_line (operationId (operation opx)) \<longrightarrow>
      operation_id opx = Inl (ExpectedOperationId (op_method opx) (original (url opx)))"
    by (simp add: operation_id_def)
  have 3: "is_word i \<longrightarrow> method_name tag opx i = Inr i"
    using method_name_word by blast
  have 4: "is_word w \<and> is_word (upperCamel tag) \<longrightarrow> method_name tag opx (upperCamel tag @ ''.'' @ w) = Inr w"
    using method_name_prefixed by blast
  have 5: "\<not> valid_operation_id tag (Some i) \<longrightarrow>
      method_name tag opx i
        = Inl (ExpectedOperationIdPrefix (op_method opx) (original (url opx)) (upperCamel tag))"
    using method_name_invalid by blast
  show ?thesis
    by (intro conjI; fact)
qed

theorem operation_id_valid_witness:
  "method_name \<lparr>lowerCamel = ''health'', upperCamel = ''Health'', display = ''health'', kebab = ''health''\<rparr> \<lparr>operation = \<lparr>op_tags = TagsUndefined, op_summary = None, op_description = None,
          operationId = Some ''ping'', parameters = None, requestBody = None,
          responses = [(''200'', Value \<lparr>response_description = ''ok'', response_content = None\<rparr>)],
          otherOperationProps = []\<rparr>,
        op_method = ''GET'', url = \<lparr>original = ''/health'', parts = [literal ''/health'']\<rparr>\<rparr> ''ping'' = Inr ''ping'' \<and>
   method_name \<lparr>lowerCamel = ''health'', upperCamel = ''Health'', display = ''health'', kebab = ''health''\<rparr> \<lparr>operation = \<lparr>op_tags = TagsUndefined, op_summary = None, op_description = None,
          operationId = Some ''ping'', parameters = None, requestBody = None,
          responses = [(''200'', Value \<lparr>response_description = ''ok'', response_content = None\<rparr>)],
          otherOperationProps = []\<rparr>,
        op_method = ''GET'', url = \<lparr>original = ''/health'', parts = [literal ''/health'']\<rparr>\<rparr> ''Health.ping'' = Inr ''ping'' \<and>
   method_name \<lparr>lowerCamel = ''health'', upperCamel = ''Health'', display = ''health'', kebab = ''health''\<rparr> \<lparr>operation = \<lparr>op_tags = TagsUndefined, op_summary = None, op_description = None,
          operationId = Some ''ping'', parameters = None, requestBody = None,
          responses = [(''200'', Value \<lparr>response_description = ''ok'', response_content = None\<rparr>)],
          otherOperationProps = []\<rparr>,
        op_method = ''GET'', url = \<lparr>original = ''/health'', parts = [literal ''/health'']\<rparr>\<rparr> ''Pets.ping''
     = Inl (ExpectedOperationIdPrefix ''GET'' ''/health'' ''Health'')"
proof -
  have w: "is_word ''ping''" "is_word (upperCamel \<lparr>lowerCamel = ''health'', upperCamel = ''Health'', display = ''health'', kebab = ''health''\<rparr>)"
    by code_simp+
  have n: "\<not> valid_operation_id \<lparr>lowerCamel = ''health'', upperCamel = ''Health'', display = ''health'', kebab = ''health''\<rparr> (Some ''Pets.ping'')"
  proof
    assume "valid_operation_id \<lparr>lowerCamel = ''health'', upperCamel = ''Health'', display = ''health'', kebab = ''health''\<rparr> (Some ''Pets.ping'')"
    then have "is_word ''Pets.ping'' \<or> (\<exists>w. ''Pets.ping'' = ''Health.'' @ w)"
      by (auto simp: valid_operation_id_def)
    moreover have "\<not> is_word ''Pets.ping''" by code_simp
    ultimately show False by auto
  qed
  have u: "upperCamel \<lparr>lowerCamel = ''health'', upperCamel = ''Health'', display = ''health'', kebab = ''health''\<rparr> = ''Health''" "op_method \<lparr>operation = \<lparr>op_tags = TagsUndefined, op_summary = None, op_description = None,
          operationId = Some ''ping'', parameters = None, requestBody = None,
          responses = [(''200'', Value \<lparr>response_description = ''ok'', response_content = None\<rparr>)],
          otherOperationProps = []\<rparr>,
        op_method = ''GET'', url = \<lparr>original = ''/health'', parts = [literal ''/health'']\<rparr>\<rparr> = ''GET''"
    "original (url \<lparr>operation = \<lparr>op_tags = TagsUndefined, op_summary = None, op_description = None,
          operationId = Some ''ping'', parameters = None, requestBody = None,
          responses = [(''200'', Value \<lparr>response_description = ''ok'', response_content = None\<rparr>)],
          otherOperationProps = []\<rparr>,
        op_method = ''GET'', url = \<lparr>original = ''/health'', parts = [literal ''/health'']\<rparr>\<rparr>) = ''/health''"
    by simp_all
  show ?thesis
    using operation_id_valid[where tag = "\<lparr>lowerCamel = ''health'', upperCamel = ''Health'', display = ''health'', kebab = ''health''\<rparr>" and opx = "\<lparr>operation = \<lparr>op_tags = TagsUndefined, op_summary = None, op_description = None,
          operationId = Some ''ping'', parameters = None, requestBody = None,
          responses = [(''200'', Value \<lparr>response_description = ''ok'', response_content = None\<rparr>)],
          otherOperationProps = []\<rparr>,
        op_method = ''GET'', url = \<lparr>original = ''/health'', parts = [literal ''/health'']\<rparr>\<rparr>" and i = "''ping''" and w = "''ping''"]
      operation_id_valid[where tag = "\<lparr>lowerCamel = ''health'', upperCamel = ''Health'', display = ''health'', kebab = ''health''\<rparr>" and opx = "\<lparr>operation = \<lparr>op_tags = TagsUndefined, op_summary = None, op_description = None,
          operationId = Some ''ping'', parameters = None, requestBody = None,
          responses = [(''200'', Value \<lparr>response_description = ''ok'', response_content = None\<rparr>)],
          otherOperationProps = []\<rparr>,
        op_method = ''GET'', url = \<lparr>original = ''/health'', parts = [literal ''/health'']\<rparr>\<rparr>" and i = "''Pets.ping''"]
      w n
    by (simp only: u) simp
qed

text \<open>
  The claim as stated fails on two operations of a tag with the same identifier: both
  emitters write the file, with two members of that name.
\<close>

theorem operation_id_valid_counterexample:
  "writeApi codeUnitCompare [] \<lparr>lowerCamel = ''health'', upperCamel = ''Health'', display = ''health'', kebab = ''health''\<rparr> None [\<lparr>operation = \<lparr>op_tags = TagsUndefined, op_summary = None, op_description = None,
          operationId = Some ''ping'', parameters = None, requestBody = None,
          responses = [(''200'', Value \<lparr>response_description = ''ok'', response_content = None\<rparr>)],
          otherOperationProps = []\<rparr>,
        op_method = ''GET'', url = \<lparr>original = ''/health'', parts = [literal ''/health'']\<rparr>\<rparr>,
      \<lparr>operation = \<lparr>op_tags = TagsUndefined, op_summary = None, op_description = None,
          operationId = Some ''ping'', parameters = None, requestBody = None,
          responses = [(''200'', Value \<lparr>response_description = ''ok'', response_content = None\<rparr>)],
          otherOperationProps = []\<rparr>,
        op_method = ''HEAD'', url = \<lparr>original = ''/health'', parts = [literal ''/health'']\<rparr>\<rparr>]
     = Inr ([CHR 0x0A, CHR 0x0A] @ ''import { BaseApi } from '' @ [CHR 0x22]
        @ ''../base-api'' @ [CHR 0x22]
        @ '';import { Express, Request, Response } from '' @ [CHR 0x22] @ ''express''
        @ [CHR 0x22] @ '';'' @ [CHR 0x0A, CHR 0x0A, CHR 0x0A] @ ''/** health api. */''
        @ [CHR 0x0A]
        @ ''export abstract class HealthApi extends BaseApi {abstract pi''
        @ ''ng(): Promise<void>;'' @ [CHR 0x0A, CHR 0x0A]
        @ ''abstract ping(): Promise<void>;'' @ [CHR 0x0A, CHR 0x0A]
        @ ''/** Register all endpoints. */'' @ [CHR 0x0A]
        @ ''registerEndpoints(app: Express): void {app.get('' @ [CHR 0x22]
        @ ''/health'' @ [CHR 0x22]
        @ '', (req: Request, res: Response) => this.handleResponse(res, ''
        @ ''this.ping()));app.head('' @ [CHR 0x22] @ ''/health'' @ [CHR 0x22]
        @ '', (req: Request, res: Response) => this.handleResponse(res, ''
        @ ''this.ping()));}}'') \<and>
   writeClient codeUnitCompare [] \<lparr>lowerCamel = ''health'', upperCamel = ''Health'', display = ''health'', kebab = ''health''\<rparr> None [\<lparr>operation = \<lparr>op_tags = TagsUndefined, op_summary = None, op_description = None,
          operationId = Some ''ping'', parameters = None, requestBody = None,
          responses = [(''200'', Value \<lparr>response_description = ''ok'', response_content = None\<rparr>)],
          otherOperationProps = []\<rparr>,
        op_method = ''GET'', url = \<lparr>original = ''/health'', parts = [literal ''/health'']\<rparr>\<rparr>,
      \<lparr>operation = \<lparr>op_tags = TagsUndefined, op_summary = None, op_description = None,
          operationId = Some ''ping'', parameters = None, requestBody = None,
          responses = [(''200'', Value \<lparr>response_description = ''ok'', response_content = None\<rparr>)],
          otherOperationProps = []\<rparr>,
        op_method = ''HEAD'', url = \<lparr>original = ''/health'', parts = [literal ''/health'']\<rparr>\<rparr>]
     = Inr ([CHR 0x0A, CHR 0x0A]
        @ ''import { BaseClient, ClientConfig, UrlBuilder } from '' @ [CHR 0x22]
        @ ''../base-client'' @ [CHR 0x22] @ '';'' @ [CHR 0x0A, CHR 0x0A, CHR 0x0A]
        @ ''/** health client. */'' @ [CHR 0x0A]
        @ ''export class HealthClient extends BaseClient {'' @ [CHR 0x0A] @ ''/**''
        @ [CHR 0x0A] @ '' * @param overrideConfig'' @ [CHR 0x0A]
        @ '' *   Client config variable overrides. Defaults to the baseC''
        @ ''onfig.'' @ [CHR 0x0A] @ '' */'' @ [CHR 0x0A]
        @ ''ping(overrideConfig: Partial<ClientConfig> = {}): Promise<vo''
        @ ''id> {return this.fetch(overrideConfig, '' @ [CHR 0x22] @ ''GET''
        @ [CHR 0x22] @ '',new UrlBuilder().addLiteral('' @ [CHR 0x22] @ ''/health''
        @ [CHR 0x22] @ '').toString(),);}'' @ [CHR 0x0A] @ ''/**'' @ [CHR 0x0A]
        @ '' * @param overrideConfig'' @ [CHR 0x0A]
        @ '' *   Client config variable overrides. Defaults to the baseC''
        @ ''onfig.'' @ [CHR 0x0A] @ '' */'' @ [CHR 0x0A]
        @ ''ping(overrideConfig: Partial<ClientConfig> = {}): Promise<vo''
        @ ''id> {return this.fetch(overrideConfig, '' @ [CHR 0x22] @ ''HEAD''
        @ [CHR 0x22] @ '',new UrlBuilder().addLiteral('' @ [CHR 0x22] @ ''/health''
        @ [CHR 0x22] @ '').toString(),);}}'')"
  by code_simp

section \<open>References as Parameters\<close>












end
